theory Spec2Isabelle
  imports Complex_Main
begin

section \<open>JavaScript values used by the TLE code\<close>

subsection \<open>Numbers\<close>

text \<open>
  A JavaScript Number is an IEEE-754 binary64 value. A finite one is carried by the
  real number it denotes; every operation below rounds its exact result to the nearest
  binary64 value (ties to even), so \<open>Fin q\<close> always holds a representable \<open>q\<close>.
  The two zeros are identified (\<open>Fin 0\<close>): the code modelled here never divides a
  non-zero number by a negative zero, and every other operation it uses treats the
  two zeros alike.
\<close>

datatype jsnum = NaN | PInf | NInf | Fin real

text \<open>The number of binary digits of a positive integer.\<close>

function bitlen :: "int \<Rightarrow> int" where
  "bitlen n = (if n \<le> 0 then 0 else 1 + bitlen (n div 2))"
  by pat_completeness auto
termination
  by (relation "measure nat") auto

declare bitlen.simps [simp del]

definition pow10 :: "int \<Rightarrow> real" where
  "pow10 e = (if 0 \<le> e then 10 ^ nat e else 1 / 10 ^ nat (- e))"

definition pow2 :: "int \<Rightarrow> real" where
  "pow2 e = (if 0 \<le> e then 2 ^ nat e else 1 / 2 ^ nat (- e))"

text \<open>\<open>ilog2 x\<close> is \<open>\<lfloor>log\<^sub>2 x\<rfloor>\<close> for a positive \<open>x\<close>.\<close>

definition ilog2 :: "real \<Rightarrow> int" where
  "ilog2 x = (if 1 \<le> x then bitlen \<lfloor>x\<rfloor> - 1 else - bitlen (\<lceil>1 / x\<rceil> - 1))"

text \<open>Rounding to the nearest integer, ties to the even one: \<open>f\<close> is \<open>\<lfloor>r\<rfloor>\<close>.\<close>

definition half_even :: "real \<Rightarrow> int \<Rightarrow> int" where
  "half_even r f =
     (if r - of_int f < 1 / 2 then f
      else if 1 / 2 < r - of_int f then f + 1
      else if even f then f else f + 1)"

definition round_half_even :: "real \<Rightarrow> int" where
  "round_half_even r = half_even r \<lfloor>r\<rfloor>"

text \<open>Rounding of an exact value to binary64: 53 significant bits, exponent \<open>e\<close> at
  least \<open>-1022\<close> (below that the spacing \<open>q\<close> stays \<open>2\<^sup>-\<^sup>1\<^sup>0\<^sup>7\<^sup>4\<close>), overflow to an
  infinity. \<open>rnd_pack x y\<close> attaches the sign of \<open>x\<close> to the rounded magnitude \<open>y\<close>.\<close>

definition rnd_pack :: "real \<Rightarrow> real \<Rightarrow> jsnum" where
  "rnd_pack x y =
     (if pow2 1024 \<le> y then (if 0 < x then PInf else NInf)
      else Fin (if 0 < x then y else - y))"

definition rnd_q :: "real \<Rightarrow> real \<Rightarrow> jsnum" where
  "rnd_q x q = rnd_pack x (of_int (round_half_even (\<bar>x\<bar> / q)) * q)"

definition rnd :: "real \<Rightarrow> jsnum" where
  "rnd x = (if x = 0 then Fin 0 else rnd_q x (pow2 (max (ilog2 \<bar>x\<bar>) (- 1022) - 52)))"

definition isNaN :: "jsnum \<Rightarrow> bool" where
  "isNaN x = (x = NaN)"

definition isFinite :: "jsnum \<Rightarrow> bool" where
  "isFinite x = (case x of Fin _ \<Rightarrow> True | _ \<Rightarrow> False)"

text \<open>\<open>!x\<close> on a Number: true for \<open>NaN\<close> and for zero.\<close>

definition falsy_num :: "jsnum \<Rightarrow> bool" where
  "falsy_num x = (x = NaN \<or> x = Fin 0)"

text \<open>The relational operators; every comparison with \<open>NaN\<close> is false.\<close>

fun js_lt :: "jsnum \<Rightarrow> jsnum \<Rightarrow> bool" where
  "js_lt NaN _ = False"
| "js_lt _ NaN = False"
| "js_lt PInf _ = False"
| "js_lt _ PInf = True"
| "js_lt _ NInf = False"
| "js_lt NInf _ = True"
| "js_lt (Fin a) (Fin b) = (a < b)"

fun js_eq :: "jsnum \<Rightarrow> jsnum \<Rightarrow> bool" where
  "js_eq NaN _ = False"
| "js_eq _ NaN = False"
| "js_eq a b = (a = b)"

definition js_le :: "jsnum \<Rightarrow> jsnum \<Rightarrow> bool" where
  "js_le a b = (js_lt a b \<or> js_eq a b)"

definition num :: "real \<Rightarrow> jsnum" where
  "num q = rnd q"

fun js_neg :: "jsnum \<Rightarrow> jsnum" where
  "js_neg NaN = NaN"
| "js_neg PInf = NInf"
| "js_neg NInf = PInf"
| "js_neg (Fin a) = Fin (- a)"

fun js_add :: "jsnum \<Rightarrow> jsnum \<Rightarrow> jsnum" where
  "js_add NaN _ = NaN"
| "js_add _ NaN = NaN"
| "js_add PInf NInf = NaN"
| "js_add NInf PInf = NaN"
| "js_add PInf _ = PInf"
| "js_add NInf _ = NInf"
| "js_add _ PInf = PInf"
| "js_add _ NInf = NInf"
| "js_add (Fin a) (Fin b) = rnd (a + b)"

definition js_sub :: "jsnum \<Rightarrow> jsnum \<Rightarrow> jsnum" where
  "js_sub a b = js_add a (js_neg b)"

text \<open>The sign of a product or quotient with an infinite operand is taken from the
  signs of the operands; \<open>0 \<times> \<infinity>\<close> is \<open>NaN\<close>.\<close>

fun sign_of :: "jsnum \<Rightarrow> int" where
  "sign_of NaN = 0"
| "sign_of PInf = 1"
| "sign_of NInf = - 1"
| "sign_of (Fin a) = (if 0 < a then 1 else if a < 0 then - 1 else 0)"

definition inf_of_sign :: "int \<Rightarrow> jsnum" where
  "inf_of_sign s = (if 0 < s then PInf else if s < 0 then NInf else NaN)"

fun js_mul :: "jsnum \<Rightarrow> jsnum \<Rightarrow> jsnum" where
  "js_mul NaN _ = NaN"
| "js_mul _ NaN = NaN"
| "js_mul (Fin a) (Fin b) = rnd (a * b)"
| "js_mul a b = inf_of_sign (sign_of a * sign_of b)"

text \<open>Division. A finite non-zero number divided by zero is an infinity whose sign is
  taken from the dividend (the zero is read as \<open>+0\<close>); \<open>0 / 0\<close> is \<open>NaN\<close>.\<close>

fun js_div :: "jsnum \<Rightarrow> jsnum \<Rightarrow> jsnum" where
  "js_div NaN _ = NaN"
| "js_div _ NaN = NaN"
| "js_div (Fin a) (Fin b) = (if b = 0 then inf_of_sign (sign_of (Fin a)) else rnd (a / b))"
| "js_div (Fin a) _ = Fin 0"
| "js_div a (Fin b) = (if b < 0 then js_neg a else a)"
| "js_div _ _ = NaN"

fun Math_abs :: "jsnum \<Rightarrow> jsnum" where
  "Math_abs NaN = NaN"
| "Math_abs PInf = PInf"
| "Math_abs NInf = PInf"
| "Math_abs (Fin a) = Fin \<bar>a\<bar>"

text \<open>\<open>Math.round\<close>: \<open>\<lfloor>x + 1/2\<rfloor>\<close>, exact on binary64 (a value of magnitude \<open>2\<^sup>5\<^sup>2\<close> or
  more is already an integer).\<close>

fun Math_round :: "jsnum \<Rightarrow> jsnum" where
  "Math_round (Fin a) = Fin (of_int \<lfloor>a + 1 / 2\<rfloor>)"
| "Math_round x = x"

text \<open>\<open>Math.PI\<close> is the binary64 value nearest to \<open>\<pi>\<close>.\<close>

definition Math_PI :: jsnum where
  "Math_PI = Fin (884279719003555 / 281474976710656)"

text \<open>\<open>Math.pow(x, 2)\<close> and \<open>Math.cbrt(x)\<close> are implementation-approximated in
  ECMAScript, apart from their values at \<open>NaN\<close>, zero and the infinities. The square is
  modelled by the correctly rounded square.\<close>

fun Math_pow_2 :: "jsnum \<Rightarrow> jsnum" where
  "Math_pow_2 NaN = NaN"
| "Math_pow_2 PInf = PInf"
| "Math_pow_2 NInf = PInf"
| "Math_pow_2 (Fin a) = rnd (a * a)"

text \<open>The cube root is modelled by the algorithm of V8, the engine of Node.js, which is
  the \<open>cbrt\<close> of the FreeBSD mathematical library: a first guess from the bit pattern of
  the argument, a polynomial correction to 23 bits and one Newton step. Its result is
  within one unit in the last place of the cube root and need not be the binary64 value
  nearest to it.

  \<open>bits_of x\<close> is the bit pattern of a positive normal binary64 value and \<open>of_bits b\<close> the
  value of such a pattern. Every intermediate result of the algorithm is finite and not
  zero, so each of its operations yields the rounded exact result, \<open>rd\<close>.\<close>

definition rd :: "real \<Rightarrow> real" where
  "rd x = (case rnd x of Fin v \<Rightarrow> v | _ \<Rightarrow> x)"

definition bits_of :: "real \<Rightarrow> int" where
  "bits_of x = (ilog2 x + 1022) * 2 ^ 52 + \<lfloor>x / pow2 (ilog2 x - 52)\<rfloor>"

definition of_bits :: "int \<Rightarrow> real" where
  "of_bits b = of_int (2 ^ 52 + b mod 2 ^ 52) * pow2 (b div 2 ^ 52 - 1075)"

text \<open>The guess: the high word of the pattern divided by 3, plus a constant; a subnormal
  argument is scaled by \<open>2\<^sup>5\<^sup>4\<close> first. The low word of the guess is zero.\<close>

definition cbrt_guess :: "real \<Rightarrow> real" where
  "cbrt_guess x =
     (if x < pow2 (- 1022)
      then of_bits ((bits_of (x * 2 ^ 54) div 2 ^ 32 div 3 + 696219795) * 2 ^ 32)
      else of_bits ((bits_of x div 2 ^ 32 div 3 + 715094163) * 2 ^ 32))"

text \<open>\<open>(P0 + r * (P1 + r * P2)) + ((r * r) * r) * (P3 + r * P4)\<close> with the five binary64
  constants of the library, and \<open>t * P((t * t) * (t / x))\<close>.\<close>

definition cbrt_poly :: "real \<Rightarrow> real" where
  "cbrt_poly r =
     rd (rd (4224267968377673 / 2251799813685248
             + rd (r * rd (- (265287322009889 / 140737488355328)
                           + rd (r * (3651135141636961 / 2251799813685248)))))
         + rd (rd (rd (r * r) * r)
               * rd (- (6831041312936409 / 9007199254740992)
                     + rd (r * (5260067199053271 / 36028797018963968)))))"

definition cbrt_23 :: "real \<Rightarrow> real \<Rightarrow> real" where
  "cbrt_23 x t = rd (t * cbrt_poly (rd (rd (t * t) * rd (t / x))))"

text \<open>Rounding to 23 bits on the pattern: \<open>(bits + 0x80000000) & 0xffffffffc0000000\<close>.\<close>

definition round_23 :: "real \<Rightarrow> real" where
  "round_23 t = of_bits ((bits_of t + 2 ^ 31) div 2 ^ 30 * 2 ^ 30)"

text \<open>The Newton step: with \<open>r = x / (t * t)\<close>, the result is
  \<open>t + t * ((r - t) / ((t + t) + r))\<close>.\<close>

definition cbrt_step :: "real \<Rightarrow> real \<Rightarrow> jsnum" where
  "cbrt_step t r = rnd (t + rd (t * rd (rd (r - t) / rd (rd (t + t) + r))))"

definition cbrt_newton :: "real \<Rightarrow> real \<Rightarrow> jsnum" where
  "cbrt_newton x t = cbrt_step t (rd (x / rd (t * t)))"

definition cbrt_pos :: "real \<Rightarrow> jsnum" where
  "cbrt_pos x = cbrt_newton x (round_23 (cbrt_23 x (cbrt_guess x)))"

fun Math_cbrt :: "jsnum \<Rightarrow> jsnum" where
  "Math_cbrt (Fin a) =
     (if a = 0 then Fin 0 else if 0 < a then cbrt_pos a else js_neg (cbrt_pos (- a)))"
| "Math_cbrt x = x"

subsection \<open>Strings\<close>

text \<open>A string is a list of code units; the TLE text is ASCII, and only code units
  below 256 are represented. \<open>is_ws\<close> holds of the white space and line terminators
  among them: TAB, LF, VT, FF, CR, SP and NBSP.\<close>

definition is_ws :: "char \<Rightarrow> bool" where
  "is_ws c = (c \<in> set [CHR 0x09, CHR 0x0A, CHR 0x0B, CHR 0x0C, CHR 0x0D, CHR 0x20, CHR 0xA0])"

text \<open>\<open>s.slice(a, b)\<close> for constant indices \<open>0 \<le> a \<le> b\<close>; indices beyond the end of
  the string are clamped to it.\<close>

definition slice :: "nat \<Rightarrow> nat \<Rightarrow> string \<Rightarrow> string" where
  "slice a b s = take (b - a) (drop a s)"

definition trimStart :: "string \<Rightarrow> string" where
  "trimStart s = dropWhile is_ws s"

definition trim :: "string \<Rightarrow> string" where
  "trim s = rev (dropWhile is_ws (rev (dropWhile is_ws s)))"

text \<open>\<open>s.replace(c, r)\<close> with a one-character string pattern: only the first occurrence
  is replaced.\<close>

fun replace :: "char \<Rightarrow> string \<Rightarrow> string \<Rightarrow> string" where
  "replace c r [] = []"
| "replace c r (x # xs) = (if x = c then r @ xs else x # replace c r xs)"

definition startsWith :: "string \<Rightarrow> string \<Rightarrow> bool" where
  "startsWith p s = (take (length p) s = p)"

text \<open>\<open>!s\<close> on a value that is a string, \<open>null\<close> or \<open>undefined\<close> (\<open>None\<close>).\<close>

fun falsy_str :: "string option \<Rightarrow> bool" where
  "falsy_str None = True"
| "falsy_str (Some s) = (s = [])"

subsection \<open>\<open>parseFloat\<close> and \<open>parseInt\<close>\<close>

definition is_digit :: "char \<Rightarrow> bool" where
  "is_digit c = (c \<in> set ''0123456789'')"

text \<open>The value of a decimal digit is its position in \<open>0123456789\<close>.\<close>

definition digit_val :: "char \<Rightarrow> int" where
  "digit_val c = int (length (takeWhile (\<lambda>d. d \<noteq> c) ''0123456789''))"

definition digits_val :: "string \<Rightarrow> int" where
  "digits_val ds = foldl (\<lambda>a c. 10 * a + digit_val c) 0 ds"

definition digits :: "string \<Rightarrow> string" where
  "digits s = takeWhile is_digit s"

definition after_digits :: "string \<Rightarrow> string" where
  "after_digits s = dropWhile is_digit s"

text \<open>The mathematical value of a \<open>StrUnsignedDecimalLiteral\<close>.\<close>

datatype mathval = MInf | MNum real

text \<open>\<open>signed_integer s\<close> is the value of the \<open>SignedInteger\<close> that \<open>s\<close> starts with, and
  \<open>exponent_part s\<close> the value of the \<open>ExponentPart\<close> that \<open>s\<close> starts with, \<open>0\<close> when it
  starts with none (an \<open>e\<close> that no digit follows is not part of the literal).\<close>

fun signed_integer :: "string \<Rightarrow> int option" where
  "signed_integer [] = None"
| "signed_integer (c # t) =
     (if c = CHR ''+'' then (if digits t = [] then None else Some (digits_val (digits t)))
      else if c = CHR ''-'' then (if digits t = [] then None else Some (- digits_val (digits t)))
      else if is_digit c then Some (digits_val (digits (c # t)))
      else None)"

fun exponent_part :: "string \<Rightarrow> int" where
  "exponent_part [] = 0"
| "exponent_part (c # t) =
     (if c = CHR ''e'' \<or> c = CHR ''E''
      then (case signed_integer t of None \<Rightarrow> 0 | Some e \<Rightarrow> e)
      else 0)"

text \<open>The value of integer digits \<open>ip\<close>, fraction digits \<open>fp\<close> and the exponent part at
  the start of \<open>rest\<close>.\<close>

definition decimal_value :: "string \<Rightarrow> string \<Rightarrow> string \<Rightarrow> mathval" where
  "decimal_value ip fp rest =
     MNum ((of_int (digits_val ip) + of_int (digits_val fp) / 10 ^ length fp)
           * pow10 (exponent_part rest))"

text \<open>After the integer digits \<open>ip\<close>: an optional point with optional fraction digits,
  then an optional exponent.\<close>

fun after_int :: "string \<Rightarrow> string \<Rightarrow> mathval option" where
  "after_int ip [] = Some (decimal_value ip [] [])"
| "after_int ip (c # t) =
     (if c = CHR ''.'' then Some (decimal_value ip (digits t) (after_digits t))
      else Some (decimal_value ip [] (c # t)))"

text \<open>Without integer digits the literal is a point followed by at least one digit.\<close>

fun no_int :: "string \<Rightarrow> mathval option" where
  "no_int (c # d # t) =
     (if c = CHR ''.'' \<and> is_digit d
      then Some (decimal_value [] (digits (d # t)) (after_digits (d # t)))
      else None)"
| "no_int _ = None"

definition unsigned_decimal :: "string \<Rightarrow> mathval option" where
  "unsigned_decimal s =
     (if startsWith ''Infinity'' s then Some MInf
      else if digits s = [] then no_int s
      else after_int (digits s) (after_digits s))"

text \<open>The longest prefix of the string that is a \<open>StrDecimalLiteral\<close>: its sign
  (\<open>True\<close> for \<open>-\<close>) and value, \<open>None\<close> when no prefix is one.\<close>

fun str_decimal :: "string \<Rightarrow> (bool \<times> mathval) option" where
  "str_decimal [] = None"
| "str_decimal (c # t) =
     (if c = CHR ''+'' then map_option (Pair False) (unsigned_decimal t)
      else if c = CHR ''-'' then map_option (Pair True) (unsigned_decimal t)
      else map_option (Pair False) (unsigned_decimal (c # t)))"

fun to_number :: "(bool \<times> mathval) option \<Rightarrow> jsnum" where
  "to_number None = NaN"
| "to_number (Some (neg, MInf)) = (if neg then NInf else PInf)"
| "to_number (Some (neg, MNum v)) = rnd (if neg then - v else v)"

definition parseFloat :: "string \<Rightarrow> jsnum" where
  "parseFloat s = to_number (str_decimal (trimStart s))"

text \<open>\<open>parseInt(s)\<close> without a radix: leading white space, a sign, then either \<open>0x\<close> and
  hexadecimal digits or decimal digits; \<open>NaN\<close> when there is no digit.\<close>

definition hex_val :: "char \<Rightarrow> int option" where
  "hex_val c =
     (if is_digit c then Some (digit_val c)
      else if c = CHR ''a'' \<or> c = CHR ''A'' then Some 10
      else if c = CHR ''b'' \<or> c = CHR ''B'' then Some 11
      else if c = CHR ''c'' \<or> c = CHR ''C'' then Some 12
      else if c = CHR ''d'' \<or> c = CHR ''D'' then Some 13
      else if c = CHR ''e'' \<or> c = CHR ''E'' then Some 14
      else if c = CHR ''f'' \<or> c = CHR ''F'' then Some 15
      else None)"

definition hex_digits :: "string \<Rightarrow> string" where
  "hex_digits s = takeWhile (\<lambda>c. hex_val c \<noteq> None) s"

definition hex_digits_val :: "string \<Rightarrow> int" where
  "hex_digits_val ds = foldl (\<lambda>a c. 16 * a + (case hex_val c of None \<Rightarrow> 0 | Some d \<Rightarrow> d)) 0 ds"

definition parse_radix :: "bool \<Rightarrow> string \<Rightarrow> jsnum" where
  "parse_radix neg s =
     (if startsWith ''0x'' s \<or> startsWith ''0X'' s
      then (if hex_digits (drop 2 s) = [] then NaN
            else rnd (of_int ((if neg then - 1 else 1) * hex_digits_val (hex_digits (drop 2 s)))))
      else if digits s = [] then NaN
      else rnd (of_int ((if neg then - 1 else 1) * digits_val (digits s))))"

fun parse_sign :: "string \<Rightarrow> jsnum" where
  "parse_sign [] = NaN"
| "parse_sign (c # t) =
     (if c = CHR ''-'' then parse_radix True t
      else if c = CHR ''+'' then parse_radix False t
      else parse_radix False (c # t))"

definition parseInt :: "string \<Rightarrow> jsnum" where
  "parseInt s = parse_sign (trimStart s)"

subsection \<open>\<open>Number.prototype.toFixed\<close>\<close>

text \<open>The decimal digits of a non-negative integer.\<close>

function digits_of :: "int \<Rightarrow> string" where
  "digits_of n =
     (if n < 10 then [''0123456789'' ! nat n]
      else digits_of (n div 10) @ [''0123456789'' ! nat (n mod 10)])"
  by pat_completeness auto
termination
  by (relation "measure nat") auto

declare digits_of.simps [simp del]

text \<open>\<open>Number::toString\<close> of a finite integer-valued \<open>x \<ge> 10\<^sup>2\<^sup>1\<close>: the shortest digit
  string \<open>s\<close>, of \<open>k\<close> digits, such that \<open>s \<times> 10\<^sup>n\<^sup>-\<^sup>k\<close> rounds to \<open>x\<close>, printed in exponent
  notation. \<open>n\<close> is the number of digits of \<open>x\<close>, and the search over \<open>k = 1, 2, \<dots>\<close> ends at
  the latest with the \<open>n\<close> digits of \<open>x\<close> itself. When \<open>x\<close> is the binary64 value just below
  \<open>10\<^sup>n\<close> and \<open>10\<^sup>n\<close> rounds to it, the digit string is \<open>1\<close> and the exponent one more.\<close>

function shortest :: "real \<Rightarrow> int \<Rightarrow> int \<Rightarrow> int" where
  "shortest x n k =
     (if n \<le> k \<or> rnd (of_int (round_half_even (x / pow10 (n - k))) * pow10 (n - k)) = Fin x
      then round_half_even (x / pow10 (n - k))
      else shortest x n (k + 1))"
  by pat_completeness auto
termination
  by (relation "measure (\<lambda>(x, n, k). nat (n - k))") auto

declare shortest.simps [simp del]

definition exp_notation :: "string \<Rightarrow> int \<Rightarrow> string" where
  "exp_notation ds e =
     (if length ds = 1 then ds else take 1 ds @ ''.'' @ drop 1 ds) @ ''e+'' @ digits_of e"

definition big_toString :: "real \<Rightarrow> int \<Rightarrow> string" where
  "big_toString x n =
     (if shortest x n 1 = 10 then exp_notation ''1'' n
      else exp_notation (digits_of (shortest x n 1)) (n - 1))"

fun Number_toString :: "jsnum \<Rightarrow> string" where
  "Number_toString NaN = ''NaN''"
| "Number_toString PInf = ''Infinity''"
| "Number_toString NInf = ''-Infinity''"
| "Number_toString (Fin x) =
     (if x < 0 then ''-'' else []) @ big_toString \<bar>x\<bar> (int (length (digits_of \<lfloor>\<bar>x\<bar>\<rfloor>)))"

text \<open>\<open>fixed_point f m\<close> puts the decimal point before the last \<open>f\<close> of the digits \<open>m\<close>,
  after padding them with zeros on the left to \<open>f + 1\<close> digits.\<close>

definition pad_zeros :: "nat \<Rightarrow> string \<Rightarrow> string" where
  "pad_zeros f m = replicate (f + 1 - length m) (CHR ''0'') @ m"

definition insert_point :: "nat \<Rightarrow> string \<Rightarrow> string" where
  "insert_point f m = take (length m - f) m @ ''.'' @ drop (length m - f) m"

definition fixed_point :: "nat \<Rightarrow> string \<Rightarrow> string" where
  "fixed_point f m = (if f = 0 then m else insert_point f (pad_zeros f m))"

text \<open>\<open>x.toFixed(f)\<close> for \<open>0 \<le> f \<le> 100\<close>. A value that is not finite, or of magnitude
  \<open>10\<^sup>2\<^sup>1\<close> or more, is printed by \<open>Number::toString\<close>; otherwise the integer \<open>n\<close> nearest
  to \<open>\<bar>x\<bar> \<times> 10\<^sup>f\<close> (the larger one of two) is printed with \<open>f\<close> fraction digits, after
  the sign of \<open>x\<close>.\<close>

fun toFixed :: "jsnum \<Rightarrow> nat \<Rightarrow> string" where
  "toFixed (Fin x) f =
     (if 10 ^ 21 \<le> \<bar>x\<bar> then Number_toString (Fin x)
      else (if x < 0 then ''-'' else []) @ fixed_point f (digits_of \<lfloor>\<bar>x\<bar> * 10 ^ f + 1 / 2\<rfloor>))"
| "toFixed x f = Number_toString x"

section \<open>The service module\<close>

subsection \<open>Orbit calculations\<close>

text \<open>The object that \<open>fetchFullSatelliteData\<close> returns for a catalog entry.\<close>

record sat_data =
  norad_id :: string
  name :: string
  tle_line1 :: "string option"
  tle_line2 :: "string option"
  inclination :: jsnum
  mean_motion :: jsnum
  eccentricity :: jsnum
  semi_major_axis :: jsnum
  perigee :: jsnum
  apogee :: jsnum
  period :: jsnum

record derived_params =
  altitude :: jsnum
  orbit_type :: string
  orbital_velocity_kms :: string
  orbital_velocity_kmh :: jsnum

text \<open>The chain of tests that sets \<open>orbit_type\<close> from the altitude.\<close>

definition orbit_type_of :: "jsnum \<Rightarrow> string" where
  "orbit_type_of alt =
     (if js_lt alt (num 2000) then ''LEO''
      else if js_lt alt (num 35786) then ''MEO''
      else if js_le (Math_abs (js_sub alt (num 35786))) (num 2000) then ''GEO''
      else ''HEO'')"

definition calculateDerivedParams :: "sat_data \<Rightarrow> derived_params" where
  "calculateDerivedParams data =
     (let meanMotion = mean_motion data
      in if falsy_num meanMotion \<or> js_le meanMotion (num 0)
         then \<lparr> altitude = num 0, orbit_type = ''UNKNOWN'',
                orbital_velocity_kms = ''0.000'', orbital_velocity_kmh = num 0 \<rparr>
         else let
           periodSec = js_div (num 86400) meanMotion;
           semiMajorAxis =
             (if falsy_num (semi_major_axis data)
              then Math_cbrt (js_mul (num (3986004418 / 10000))
                     (Math_pow_2 (js_div periodSec (js_mul (num 2) Math_PI))))
              else semi_major_axis data);
           alt = js_sub semiMajorAxis (num (6378137 / 1000));
           velocityKms = js_div (js_mul (js_mul (num 2) Math_PI) semiMajorAxis) periodSec
         in \<lparr> altitude = Math_round alt, orbit_type = orbit_type_of alt,
              orbital_velocity_kms = toFixed velocityKms 3,
              orbital_velocity_kmh = Math_round (js_mul velocityKms (num 3600)) \<rparr>)"

subsection \<open>The Space-Track session\<close>

text \<open>The module variables \<open>cookies\<close> (\<open>None\<close> for \<open>null\<close> or \<open>undefined\<close>), \<open>lastLogin\<close>
  and \<open>rateLimitUntil\<close>; times are in milliseconds.\<close>

record session =
  cookies :: "string list option"
  lastLogin :: int
  rateLimitUntil :: int

text \<open>The answer to a login request: rejected, or accepted with the \<open>set-cookie\<close>
  header of the response (\<open>None\<close> when the response has none).\<close>

datatype login_result = LoginRejected | LoginAccepted "string list option"











section \<open>The epoch resolver\<close>

subsection \<open>Dates\<close>

text \<open>A \<open>Date\<close> is its time value: milliseconds since 1970-01-01T00:00:00Z, or \<open>NaN\<close>
  for an invalid date. The epoch code builds the date \<open>Date.UTC(fullYear, 0)\<close>, the start
  of a year, and moves it with \<open>setUTCDate\<close> and then \<open>setMilliseconds\<close> or
  \<open>setSeconds\<close>. The two local-time setters are modelled for a host whose offset from
  UTC does not change between the old and the new time (as with \<open>TZ=UTC\<close>); then they
  add whole milliseconds or seconds to the time value.\<close>

definition js_trunc :: "real \<Rightarrow> int" where
  "js_trunc v = (if 0 \<le> v then \<lfloor>v\<rfloor> else \<lceil>v\<rceil>)"

fun Math_floor :: "jsnum \<Rightarrow> jsnum" where
  "Math_floor (Fin a) = Fin (of_int \<lfloor>a\<rfloor>)"
| "Math_floor x = x"

text \<open>\<open>x % 1\<close>: the remainder has the sign of \<open>x\<close> and is exact.\<close>

fun js_mod_1 :: "jsnum \<Rightarrow> jsnum" where
  "js_mod_1 (Fin a) = Fin (a - of_int (js_trunc a))"
| "js_mod_1 x = NaN"

definition msPerDay :: int where
  "msPerDay = 86400000"

definition DayFromYear :: "int \<Rightarrow> int" where
  "DayFromYear y =
     365 * (y - 1970) + (y - 1969) div 4 - (y - 1901) div 100 + (y - 1601) div 400"

fun TimeClip :: "jsnum \<Rightarrow> jsnum" where
  "TimeClip (Fin t) = (if 8640000000000000 < \<bar>t\<bar> then NaN else Fin (of_int (js_trunc t)))"
| "TimeClip x = NaN"

text \<open>\<open>Date.UTC(year, 0)\<close>; a year from 0 to 99 stands for 1900 plus that year.\<close>

fun Date_UTC :: "jsnum \<Rightarrow> jsnum" where
  "Date_UTC (Fin y) =
     TimeClip (Fin (of_int (DayFromYear
        (if 0 \<le> js_trunc y \<and> js_trunc y \<le> 99 then 1900 + js_trunc y else js_trunc y)
        * msPerDay)))"
| "Date_UTC x = NaN"

text \<open>\<open>getUTCDate()\<close> of a date at the start of a year.\<close>

fun getUTCDate :: "jsnum \<Rightarrow> jsnum" where
  "getUTCDate (Fin t) = Fin 1"
| "getUTCDate x = NaN"

text \<open>\<open>setUTCDate(dt)\<close> on a date at the start of a year: day \<open>dt\<close> of January, counted
  on beyond the end of the month.\<close>

fun setUTCDate :: "jsnum \<Rightarrow> jsnum \<Rightarrow> jsnum" where
  "setUTCDate (Fin t) (Fin dt) = TimeClip (Fin (t + of_int ((js_trunc dt - 1) * msPerDay)))"
| "setUTCDate t dt = NaN"

text \<open>\<open>getMilliseconds()\<close> and \<open>getSeconds()\<close> of a date at the start of a UTC day.\<close>

fun getMilliseconds :: "jsnum \<Rightarrow> jsnum" where
  "getMilliseconds (Fin t) = Fin 0"
| "getMilliseconds x = NaN"

fun getSeconds :: "jsnum \<Rightarrow> jsnum" where
  "getSeconds (Fin t) = Fin 0"
| "getSeconds x = NaN"

fun setMilliseconds :: "jsnum \<Rightarrow> jsnum \<Rightarrow> jsnum" where
  "setMilliseconds (Fin t) (Fin ms) = TimeClip (Fin (t + of_int (js_trunc ms)))"
| "setMilliseconds t ms = NaN"

fun setSeconds :: "jsnum \<Rightarrow> jsnum \<Rightarrow> jsnum" where
  "setSeconds (Fin t) (Fin sec) = TimeClip (Fin (t + of_int (js_trunc sec * 1000)))"
| "setSeconds t sec = NaN"

subsection \<open>The epoch of a line 1\<close>

text \<open>The year of the epoch, as every copy of the epoch code computes it from columns
  19-20 of line 1.\<close>

definition fullYear :: "string \<Rightarrow> jsnum" where
  "fullYear line1 =
     (let year = parseInt (slice 18 20 line1)
      in if js_lt year (num 57) then js_add (num 2000) year else js_add (num 1900) year)"

text \<open>The epoch of the per-object job: whole days, then the fraction of the day in
  milliseconds.\<close>

definition epochDate :: "string \<Rightarrow> jsnum" where
  "epochDate line1 =
     (let dayOfYear = parseFloat (slice 20 32 line1);
          d0 = Date_UTC (fullYear line1);
          d1 = setUTCDate d0 (js_sub (js_add (getUTCDate d0) (Math_floor dayOfYear)) (num 1));
          millisecondsInDay = js_mul (js_mod_1 dayOfYear) (num 86400000)
      in setMilliseconds d1 (js_add (getMilliseconds d1) millisecondsInDay))"

text \<open>The epoch of the batched job, of the other per-object variant and of the
  \<open>/add-satellite\<close> route: the fraction of the day is added in whole seconds.\<close>

definition epochDate_seconds :: "string \<Rightarrow> jsnum" where
  "epochDate_seconds line1 =
     (let dayOfYear = parseFloat (slice 20 32 line1);
          d0 = Date_UTC (fullYear line1);
          d1 = setUTCDate d0 (js_sub (js_add (getUTCDate d0) dayOfYear) (num 1));
          fraction = js_mod_1 dayOfYear
      in setSeconds d1 (js_add (getSeconds d1) (js_mul fraction (num 86400))))"

section \<open>The derivation engine\<close>

text \<open>The object returned by the derivation functions.\<close>

record derived =
  inclination :: jsnum
  eccentricity :: jsnum
  mean_motion :: jsnum
  semi_major_axis_km :: jsnum
  perigee_km :: jsnum
  apogee_km :: jsnum
  orbital_period_minutes :: jsnum
  altitude_km :: jsnum
  velocity_kms :: jsnum
  raan :: jsnum
  arg_perigee :: jsnum
  mean_anomaly :: jsnum
  bstar :: jsnum
  mean_motion_dot :: jsnum
  mean_motion_ddot :: jsnum

definition EARTH_RADIUS_KM :: jsnum where
  "EARTH_RADIUS_KM = num (6378137 / 1000)"

definition GM_KM3_S2 :: jsnum where
  "GM_KM3_S2 = num (3986004418 / 10000)"

text \<open>\<open>populateDerived\<close> of the shared parser module. A line is \<open>None\<close> when the caller
  passes \<open>null\<close> or \<open>undefined\<close>; the result is \<open>None\<close> where the function returns
  \<open>null\<close>. The derivation function \<open>calculateDerived\<close> of the per-object job variant
  has the same text.\<close>

definition populateDerived_body :: "string \<Rightarrow> string \<Rightarrow> derived option" where
  "populateDerived_body line1 line2 =
     (let meanMotion = parseFloat (slice 52 63 line2)
      in if falsy_num meanMotion \<or> js_le meanMotion (num 0) then None
         else let
          periodSec = js_div (num 86400) meanMotion;
          periodMin = js_div periodSec (num 60);
          semiMajorAxis =
            Math_cbrt (js_mul GM_KM3_S2 (Math_pow_2 (js_div periodSec (js_mul (num 2) Math_PI))));
          inclination = parseFloat (slice 8 16 line2);
          eccentricity = parseFloat (''0.'' @ slice 26 33 line2);
          raan = parseFloat (slice 17 25 line2);
          argPerigee = parseFloat (slice 34 42 line2);
          meanAnomaly = parseFloat (slice 43 51 line2);
          altitude = js_sub semiMajorAxis EARTH_RADIUS_KM;
          velocity = js_div (js_mul (js_mul (num 2) Math_PI) semiMajorAxis) periodSec;
          perigee = js_sub (js_mul semiMajorAxis (js_sub (num 1) eccentricity)) EARTH_RADIUS_KM;
          apogee = js_sub (js_mul semiMajorAxis (js_add (num 1) eccentricity)) EARTH_RADIUS_KM;
          bstarStr = trim (slice 53 63 line1);
          bstar =
            (if bstarStr \<noteq> []
             then parseFloat (replace (CHR ''-'') ''e-'' (replace (CHR ''+'') ''e+'' bstarStr))
             else num 0);
          mmDotStr = trim (slice 33 43 line1);
          mean_motion_dot = (if mmDotStr \<noteq> [] then parseFloat mmDotStr else num 0);
          mmDdotStr = trim (slice 44 52 line1);
          mean_motion_ddot = (if mmDdotStr \<noteq> [] then parseFloat mmDdotStr else num 0)
      in Some \<lparr>
        inclination = parseFloat (toFixed inclination 4),
        eccentricity = parseFloat (toFixed eccentricity 8),
        mean_motion = parseFloat (toFixed meanMotion 8),
        semi_major_axis_km = parseFloat (toFixed semiMajorAxis 4),
        perigee_km = parseFloat (toFixed perigee 2),
        apogee_km = parseFloat (toFixed apogee 2),
        orbital_period_minutes = parseFloat (toFixed periodMin 4),
        altitude_km = parseFloat (toFixed altitude 2),
        velocity_kms = parseFloat (toFixed velocity 4),
        raan = parseFloat (toFixed raan 4),
        arg_perigee = parseFloat (toFixed argPerigee 4),
        mean_anomaly = parseFloat (toFixed meanAnomaly 4),
        bstar = bstar,
        mean_motion_dot = mean_motion_dot,
        mean_motion_ddot = mean_motion_ddot \<rparr>)"

fun populateDerived :: "string option \<Rightarrow> string option \<Rightarrow> derived option" where
  "populateDerived (Some line1) (Some line2) =
     (if line1 = [] \<or> line2 = [] then None else populateDerived_body line1 line2)"
| "populateDerived _ _ = None"

text \<open>\<open>calculateDerived\<close> of the one-time backfill script; \<open>calculateDerived\<close> of the
  batched job has the same text. It differs from \<open>populateDerived\<close> in the test of the
  mean motion only.\<close>

definition calculateDerived_body :: "string \<Rightarrow> string \<Rightarrow> derived option" where
  "calculateDerived_body line1 line2 =
     (let meanMotion = parseFloat (slice 52 63 line2)
      in if falsy_num meanMotion then None
         else let
          periodSec = js_div (num 86400) meanMotion;
          periodMin = js_div periodSec (num 60);
          semiMajorAxis =
            Math_cbrt (js_mul GM_KM3_S2 (Math_pow_2 (js_div periodSec (js_mul (num 2) Math_PI))));
          inclination = parseFloat (slice 8 16 line2);
          eccentricity = parseFloat (''0.'' @ slice 26 33 line2);
          raan = parseFloat (slice 17 25 line2);
          argPerigee = parseFloat (slice 34 42 line2);
          meanAnomaly = parseFloat (slice 43 51 line2);
          altitude = js_sub semiMajorAxis EARTH_RADIUS_KM;
          velocity = js_div (js_mul (js_mul (num 2) Math_PI) semiMajorAxis) periodSec;
          perigee = js_sub (js_mul semiMajorAxis (js_sub (num 1) eccentricity)) EARTH_RADIUS_KM;
          apogee = js_sub (js_mul semiMajorAxis (js_add (num 1) eccentricity)) EARTH_RADIUS_KM;
          bstarStr = trim (slice 53 63 line1);
          bstar =
            (if bstarStr \<noteq> []
             then parseFloat (replace (CHR ''-'') ''e-'' (replace (CHR ''+'') ''e+'' bstarStr))
             else num 0);
          mmDotStr = trim (slice 33 43 line1);
          mean_motion_dot = (if mmDotStr \<noteq> [] then parseFloat mmDotStr else num 0);
          mmDdotStr = trim (slice 44 52 line1);
          mean_motion_ddot = (if mmDdotStr \<noteq> [] then parseFloat mmDdotStr else num 0)
      in Some \<lparr>
        inclination = parseFloat (toFixed inclination 4),
        eccentricity = parseFloat (toFixed eccentricity 8),
        mean_motion = parseFloat (toFixed meanMotion 8),
        semi_major_axis_km = parseFloat (toFixed semiMajorAxis 4),
        perigee_km = parseFloat (toFixed perigee 2),
        apogee_km = parseFloat (toFixed apogee 2),
        orbital_period_minutes = parseFloat (toFixed periodMin 4),
        altitude_km = parseFloat (toFixed altitude 2),
        velocity_kms = parseFloat (toFixed velocity 4),
        raan = parseFloat (toFixed raan 4),
        arg_perigee = parseFloat (toFixed argPerigee 4),
        mean_anomaly = parseFloat (toFixed meanAnomaly 4),
        bstar = bstar,
        mean_motion_dot = mean_motion_dot,
        mean_motion_ddot = mean_motion_ddot \<rparr>)"

fun calculateDerived :: "string option \<Rightarrow> string option \<Rightarrow> derived option" where
  "calculateDerived (Some line1) (Some line2) =
     (if line1 = [] \<or> line2 = [] then None else calculateDerived_body line1 line2)"
| "calculateDerived _ _ = None"

section \<open>The history tables\<close>

text \<open>The rows of \<open>tle_history\<close> and \<open>tle_derived\<close>. The column \<open>user_id\<close> of a
  \<open>tle_derived\<close> row is \<open>None\<close> (\<open>NULL\<close>) when the backfill script inserted the row.\<close>

record history_row =
  h_norad_id :: string
  h_name :: string
  h_tle_line1 :: string
  h_tle_line2 :: string
  h_epoch :: jsnum
  h_user_id :: string

record derived_row =
  d_norad_id :: string
  d_name :: string
  d_epoch :: jsnum
  d_values :: derived
  d_user_id :: "string option"

text \<open>Modelled from the spec: the unique constraints of the two tables, whose schema is
  not part of the sources. Each table is unique on the columns that the conflict target
  of the statement writing to it names.\<close>

definition history_key :: "history_row \<Rightarrow> string \<times> jsnum \<times> string" where
  "history_key r = (h_norad_id r, h_epoch r, h_user_id r)"

definition derived_key :: "derived_row \<Rightarrow> string \<times> jsnum \<times> string option" where
  "derived_key r = (d_norad_id r, d_epoch r, d_user_id r)"

definition backfill_key :: "derived_row \<Rightarrow> string \<times> jsnum" where
  "backfill_key r = (d_norad_id r, d_epoch r)"

text \<open>\<open>INSERT \<dots> ON CONFLICT (key) DO NOTHING\<close>: the row is appended unless a row with
  its key is stored.\<close>

definition insert_do_nothing :: "('r \<Rightarrow> 'k) \<Rightarrow> 'r \<Rightarrow> 'r list \<Rightarrow> 'r list" where
  "insert_do_nothing key r t = (if key r \<in> key ` set t then t else t @ [r])"

text \<open>\<open>INSERT \<dots> ON CONFLICT (norad_id, epoch) DO UPDATE SET \<dots>\<close> of the backfill script:
  a stored row with the key gets the name and the derived values of the new row.\<close>

definition upsert_derived :: "derived_row \<Rightarrow> derived_row list \<Rightarrow> derived_row list" where
  "upsert_derived r t =
     (if backfill_key r \<in> backfill_key ` set t
      then map (\<lambda>x. if backfill_key x = backfill_key r
                      then x\<lparr> d_name := d_name r, d_values := d_values r \<rparr> else x) t
      else t @ [r])"

section \<open>The synchronisation jobs\<close>

subsection \<open>State, log and world\<close>

datatype log_entry =
    LogStarted
  | LogCredentialsMissing
  | LogLoginSuccessful
  | LogLoginFailed
  | LogSkippingNoSession
  | LogNoSatellites
  | LogUpdating nat
  | LogNoValidTLE string
  | LogInvalidFormat string
  | LogDeriveFailed string
  | LogFailedFor string string
  | LogComplete nat
  | LogJobFailed string
  | LogSkippingInvalidBlock
  | LogNoUserId string
  | LogFetching nat
  | LogProcessed nat
  | LogAttemptFailed nat string
  | LogRetrying
  | LogGivingUp

text \<open>The module variable \<open>cookies\<close> (\<open>None\<close> for \<open>null\<close> or \<open>undefined\<close>), the two
  tables, and what the job did: the URLs it requested, the number of login requests,
  its log and its sleeps (in milliseconds).\<close>

record job_state =
  cookies :: "string list option"
  tle_history :: "history_row list"
  tle_derived :: "derived_row list"
  requests :: "string list"
  logins :: nat
  log :: "log_entry list"
  sleeps :: "nat list"

text \<open>What a request meets: an error with its message, or the response body.\<close>

datatype http_result = HttpError string | HttpOk string

text \<open>What one object meets while it is processed: the response to its request and, for
  each of its two \<open>INSERT\<close> statements, the message of the error that the database
  raises, if it raises one.\<close>

record object_world =
  response :: http_result
  history_error :: "string option"
  derived_error :: "string option"

definition log_add :: "log_entry \<Rightarrow> job_state \<Rightarrow> job_state" where
  "log_add e st = st\<lparr> log := log st @ [e] \<rparr>"

definition sleep :: "nat \<Rightarrow> job_state \<Rightarrow> job_state" where
  "sleep ms st = st\<lparr> sleeps := sleeps st @ [ms] \<rparr>"

text \<open>\<open>s.split(c)\<close> for a one-character separator.\<close>

fun split :: "char \<Rightarrow> string \<Rightarrow> string list" where
  "split c [] = [[]]"
| "split c (x # xs) =
     (if x = c then [] # split c xs
      else (case split c xs of [] \<Rightarrow> [[x]] | r # rs \<Rightarrow> (x # r) # rs))"

text \<open>\<open>data.split('\n').map(l => l.trim()).filter(Boolean)\<close>.\<close>

definition tle_lines :: "string \<Rightarrow> string list" where
  "tle_lines data = filter (\<lambda>l. l \<noteq> []) (map trim (split (CHR 0x0A) data))"

text \<open>The message of the \<open>TypeError\<close> that \<open>cookies.join\<close> throws when \<open>cookies\<close> is
  \<open>undefined\<close> (the login response had no \<open>set-cookie\<close> header), as Node.js words
  it.\<close>

definition join_error :: string where
  "join_error = ''Cannot read properties of undefined (reading 'join')''"

text \<open>The two \<open>INSERT\<close> statements that store an element set, given for each the
  message of the error that the database raises, if any. The result is \<open>Inl\<close> with the
  message and the state reached when a statement throws.\<close>

definition store_element_set ::
  "string option \<Rightarrow> string option \<Rightarrow> history_row \<Rightarrow> derived \<Rightarrow> job_state
     \<Rightarrow> (string \<times> job_state) + job_state" where
  "store_element_set history_err derived_err h derived st =
     (case history_err of
        Some msg \<Rightarrow> Inl (msg, st)
      | None \<Rightarrow>
          (let st1 = st\<lparr> tle_history := insert_do_nothing history_key h (tle_history st) \<rparr>
           in case derived_err of
                Some msg \<Rightarrow> Inl (msg, st1)
              | None \<Rightarrow>
                  Inr (st1\<lparr> tle_derived :=
                    insert_do_nothing derived_key
                      \<lparr> d_norad_id = h_norad_id h, d_name = h_name h, d_epoch = h_epoch h,
                        d_values = derived, d_user_id = Some (h_user_id h) \<rparr>
                      (tle_derived st1) \<rparr>)))"

subsection \<open>The per-object job\<close>

text \<open>The world of one run: whether the credentials are configured, the answer to the
  login request, the result of the query for the tracked objects (the message of the
  error, or the rows \<open>(norad_id, user_id)\<close>), and what the object at each position of
  the rows meets.\<close>

record job_world =
  credentials :: bool
  login_response :: login_result
  satellites :: "string + (string \<times> string) list"
  objects :: "nat \<Rightarrow> object_world"

definition loginToSpaceTrack :: "job_world \<Rightarrow> job_state \<Rightarrow> bool \<times> job_state" where
  "loginToSpaceTrack w st =
     (if \<not> credentials w then (False, log_add LogCredentialsMissing st)
      else (case login_response w of
              LoginAccepted c \<Rightarrow>
                (True, log_add LogLoginSuccessful (st\<lparr> cookies := c, logins := logins st + 1 \<rparr>))
            | LoginRejected \<Rightarrow>
                (False, log_add LogLoginFailed (st\<lparr> cookies := None, logins := logins st + 1 \<rparr>))))"

definition object_url :: "string \<Rightarrow> string" where
  "object_url norad =
     ''https://www.space-track.org/basicspacedata/query/class/gp/NORAD_CAT_ID/'' @ norad
     @ ''/orderby/EPOCH%20desc/format/3le/limit/1''"

text \<open>How the body of the \<open>try\<close> block of one iteration ends: it throws, it leaves the
  iteration by \<open>continue\<close>, or it runs to its end; each with the state reached.\<close>

datatype iteration = Threw string job_state | Continued job_state | Completed job_state

definition try_object ::
  "object_world \<Rightarrow> string \<times> string \<Rightarrow> nat \<times> job_state \<Rightarrow> nat \<times> iteration" where
  "try_object ow row acc =
     (let norad = fst row; userId = snd row; storedCount = fst acc; st = snd acc
      in case cookies st of
           None \<Rightarrow> (storedCount, Threw join_error st)
         | Some c \<Rightarrow>
            (let st1 = st\<lparr> requests := requests st @ [object_url norad] \<rparr>
             in case response ow of
                  HttpError msg \<Rightarrow> (storedCount, Threw msg st1)
                | HttpOk body \<Rightarrow>
                   (let data = trim body
                    in if data = [] \<or> length data < 50
                       then (storedCount, Continued (log_add (LogNoValidTLE norad) st1))
                       else
                        (let lines = tle_lines data
                         in if length lines < 3
                            then (storedCount, Continued (log_add (LogInvalidFormat norad) st1))
                            else
                             (let name = lines ! 0; line1 = lines ! 1; line2 = lines ! 2
                              in case populateDerived (Some line1) (Some line2) of
                                   None \<Rightarrow>
                                     (storedCount, Continued (log_add (LogDeriveFailed norad) st1))
                                 | Some derived \<Rightarrow>
                                    (case store_element_set (history_error ow) (derived_error ow)
                                            \<lparr> h_norad_id = norad, h_name = name,
                                              h_tle_line1 = line1, h_tle_line2 = line2,
                                              h_epoch = epochDate line1, h_user_id = userId \<rparr>
                                            derived st1 of
                                       Inl (msg, st2) \<Rightarrow> (storedCount, Threw msg st2)
                                     | Inr st2 \<Rightarrow> (storedCount + 1, Completed st2)))))))"

text \<open>One iteration of the loop: the \<open>catch\<close> logs what the body throws, and the pause
  of one second follows unless the body left by \<open>continue\<close>.\<close>

definition process_object ::
  "object_world \<Rightarrow> string \<times> string \<Rightarrow> nat \<times> job_state \<Rightarrow> nat \<times> job_state" where
  "process_object ow row acc =
     (case try_object ow row acc of
        (n, Threw msg st) \<Rightarrow> (n, sleep 1000 (log_add (LogFailedFor (fst row) msg) st))
      | (n, Continued st) \<Rightarrow> (n, st)
      | (n, Completed st) \<Rightarrow> (n, sleep 1000 st))"

fun process_rows ::
  "(nat \<Rightarrow> object_world) \<Rightarrow> nat \<Rightarrow> (string \<times> string) list \<Rightarrow> nat \<times> job_state \<Rightarrow> nat \<times> job_state"
  where
  "process_rows ows i [] acc = acc"
| "process_rows ows i (row # rows) acc =
     process_rows ows (i + 1) rows (process_object (ows i) row acc)"

definition fetchAndStoreTLEs :: "job_world \<Rightarrow> job_state \<Rightarrow> job_state" where
  "fetchAndStoreTLEs w st =
     (let st0 = log_add LogStarted st;
          session = (if cookies st0 = None then loginToSpaceTrack w st0 else (True, st0))
      in if \<not> fst session then log_add LogSkippingNoSession (snd session)
         else (case satellites w of
                 Inl msg \<Rightarrow> log_add (LogJobFailed msg) (snd session)
               | Inr rows \<Rightarrow>
                  if rows = [] then log_add LogNoSatellites (snd session)
                  else (let done = process_rows (objects w) 0 rows
                                     (0, log_add (LogUpdating (length rows)) (snd session))
                        in log_add (LogComplete (fst done)) (snd done))))"

subsection \<open>The batched job\<close>

text \<open>The world of one run of the batched job, for each attempt (numbered by
  \<open>retryCount\<close>): the answer to its login request, the result of its query for the
  tracked objects, the response to its one request and, for each block of lines it
  processes, the errors of the two \<open>INSERT\<close> statements of the block.\<close>

record batch_world =
  login_responses :: "nat \<Rightarrow> login_result"
  satellites_of :: "nat \<Rightarrow> string + (string \<times> string) list"
  batch_response :: "nat \<Rightarrow> http_result"
  block_errors :: "nat \<Rightarrow> nat \<Rightarrow> string option \<times> string option"

definition login :: "login_result \<Rightarrow> job_state \<Rightarrow> bool \<times> job_state" where
  "login r st =
     (case r of
        LoginAccepted c \<Rightarrow>
          (True, log_add LogLoginSuccessful (st\<lparr> cookies := c, logins := logins st + 1 \<rparr>))
      | LoginRejected \<Rightarrow>
          (False, log_add LogLoginFailed (st\<lparr> cookies := None, logins := logins st + 1 \<rparr>)))"

text \<open>\<open>xs.join(sep)\<close>.\<close>

fun join :: "string \<Rightarrow> string list \<Rightarrow> string" where
  "join sep [] = []"
| "join sep [x] = x"
| "join sep (x # y # ys) = x @ sep @ join sep (y # ys)"

definition batch_url :: "(string \<times> string) list \<Rightarrow> string" where
  "batch_url rows =
     ''https://www.space-track.org/basicspacedata/query/class/gp/NORAD_CAT_ID/''
     @ join '','' (map fst rows) @ ''/orderby/EPOCH%20desc/format/tle''"

text \<open>\<open>xs[i]\<close>: \<open>undefined\<close> beyond the end of the array.\<close>

definition item :: "'a list \<Rightarrow> nat \<Rightarrow> 'a option" where
  "item xs i = (if i < length xs then Some (xs ! i) else None)"

text \<open>One turn of the \<open>while\<close> loop on the lines \<open>l # ls\<close> that are left: \<open>block_lines\<close>
  gives the name and the two lines of the block, \<open>block_rest\<close> the lines after it.\<close>

definition block_lines :: "string \<Rightarrow> string list \<Rightarrow> string \<times> string option \<times> string option" where
  "block_lines l ls =
     (if \<not> startsWith ''1 '' l then (l, item ls 0, item ls 1) else (''UNKNOWN'', Some l, item ls 0))"

definition block_rest :: "string \<Rightarrow> string list \<Rightarrow> string list" where
  "block_rest l ls = (if \<not> startsWith ''1 '' l then drop 2 ls else drop 1 ls)"

fun invalid_block :: "string option \<Rightarrow> string option \<Rightarrow> bool" where
  "invalid_block (Some line1) (Some line2) =
     (line1 = [] \<or> line2 = [] \<or> \<not> startsWith ''1 '' line1 \<or> \<not> startsWith ''2 '' line2)"
| "invalid_block _ _ = True"

definition process_block ::
  "string option \<times> string option \<Rightarrow> (string \<Rightarrow> string option) \<Rightarrow> string \<Rightarrow> string list
     \<Rightarrow> nat \<times> job_state \<Rightarrow> (string \<times> job_state) + (nat \<times> job_state)" where
  "process_block errs userMap l ls acc =
     (let name = fst (block_lines l ls);
          line1 = fst (snd (block_lines l ls));
          line2 = snd (snd (block_lines l ls));
          storedCount = fst acc; st = snd acc
      in if invalid_block line1 line2 then Inr (storedCount, log_add LogSkippingInvalidBlock st)
         else
          (let norad = trim (slice 2 7 (the line1));
               userId = userMap norad
           in if falsy_str userId then Inr (storedCount, log_add (LogNoUserId norad) st)
              else (case calculateDerived line1 line2 of
                      None \<Rightarrow> Inr (storedCount, st)
                    | Some derived \<Rightarrow>
                       (case store_element_set (fst errs) (snd errs)
                               \<lparr> h_norad_id = norad, h_name = name,
                                 h_tle_line1 = the line1, h_tle_line2 = the line2,
                                 h_epoch = epochDate_seconds (the line1),
                                 h_user_id = the userId \<rparr>
                               derived st of
                          Inl e \<Rightarrow> Inl e
                        | Inr st1 \<Rightarrow> Inr (storedCount + 1, st1)))))"

text \<open>The \<open>while\<close> loop; \<open>j\<close> counts its turns. An error thrown in a turn ends the
  loop.\<close>

function process_blocks ::
  "(nat \<Rightarrow> string option \<times> string option) \<Rightarrow> (string \<Rightarrow> string option) \<Rightarrow> nat \<Rightarrow> string list
     \<Rightarrow> nat \<times> job_state \<Rightarrow> (string \<times> job_state) + (nat \<times> job_state)" where
  "process_blocks errs userMap j [] acc = Inr acc"
| "process_blocks errs userMap j (l # ls) acc =
     (case process_block (errs j) userMap l ls acc of
        Inl e \<Rightarrow> Inl e
      | Inr acc1 \<Rightarrow> process_blocks errs userMap (j + 1) (block_rest l ls) acc1)"
  by pat_completeness auto
termination
  by (relation "measure (\<lambda>(errs, userMap, j, ls, acc). length ls)")
     (auto simp: block_rest_def)

text \<open>The body of the \<open>try\<close> block of attempt \<open>k\<close>. \<open>userMap\<close> maps a catalog number to
  the \<open>user_id\<close> of the last row that has it. The number of objects is logged before the
  request is built, so also when \<open>cookies.join\<close> throws.\<close>

definition try_pass :: "batch_world \<Rightarrow> nat \<Rightarrow> job_state \<Rightarrow> (string \<times> job_state) + job_state" where
  "try_pass w k st =
     (case satellites_of w k of
        Inl msg \<Rightarrow> Inl (msg, st)
      | Inr rows \<Rightarrow>
         if rows = [] then Inr (log_add LogNoSatellites st)
         else
          (let st0 = log_add (LogFetching (length rows)) st
           in case cookies st0 of
                None \<Rightarrow> Inl (join_error, st0)
              | Some c \<Rightarrow>
                 (let st1 = st0\<lparr> requests := requests st0 @ [batch_url rows] \<rparr>
                  in case batch_response w k of
                       HttpError msg \<Rightarrow> Inl (msg, st1)
                     | HttpOk body \<Rightarrow>
                        (case process_blocks (block_errors w k) (map_of (rev rows)) 0
                                (tle_lines (trim body)) (0, st1) of
                           Inl e \<Rightarrow> Inl e
                         | Inr done \<Rightarrow> Inr (log_add (LogProcessed (fst done)) (snd done))))))"

text \<open>\<open>fetchAndStoreTLEs(retryCount)\<close> of the batched job.\<close>

function fetchAndStoreTLEs_batched :: "batch_world \<Rightarrow> nat \<Rightarrow> job_state \<Rightarrow> job_state" where
  "fetchAndStoreTLEs_batched w retryCount st =
     (let session = (if cookies st = None then login (login_responses w retryCount) st
                     else (True, st))
      in if \<not> fst session then log_add LogSkippingNoSession (snd session)
         else (case try_pass w retryCount (snd session) of
                 Inr st1 \<Rightarrow> st1
               | Inl (msg, st1) \<Rightarrow>
                  if retryCount < 3
                  then fetchAndStoreTLEs_batched w (retryCount + 1)
                         (sleep 30000
                           ((log_add LogRetrying
                              (log_add (LogAttemptFailed (retryCount + 1) msg) st1))
                            \<lparr> cookies := None \<rparr>))
                  else log_add LogGivingUp
                         (log_add (LogAttemptFailed (retryCount + 1) msg) st1)))"
  by pat_completeness auto
termination
  by (relation "measure (\<lambda>(w, retryCount, st). 3 - retryCount)") auto

declare fetchAndStoreTLEs_batched.simps [simp del]

subsection \<open>The backfill script\<close>

text \<open>The loop of the one-time script over the rows of \<open>tle_history\<close>. \<open>errs i\<close> is the
  message of the error that the statement for the row at position \<open>i\<close> raises, if any;
  an error ends the script. The result is the number of rows stored and the table.\<close>

fun backfill ::
  "(nat \<Rightarrow> string option) \<Rightarrow> nat \<Rightarrow> history_row list \<Rightarrow> nat \<times> derived_row list
     \<Rightarrow> string + (nat \<times> derived_row list)" where
  "backfill errs i [] acc = Inr acc"
| "backfill errs i (row # rows) acc =
     (case calculateDerived (Some (h_tle_line1 row)) (Some (h_tle_line2 row)) of
        None \<Rightarrow> backfill errs (i + 1) rows acc
      | Some derived \<Rightarrow>
         (case errs i of
            Some msg \<Rightarrow> Inl msg
          | None \<Rightarrow>
             backfill errs (i + 1) rows
               (fst acc + 1,
                upsert_derived
                  \<lparr> d_norad_id = h_norad_id row, d_name = h_name row, d_epoch = h_epoch row,
                    d_values = derived, d_user_id = None \<rparr>
                  (snd acc))))"

section \<open>Notions used in the statements\<close>

text \<open>The rounding that the derivation functions apply to a field:
  \<open>parseFloat(x.toFixed(d))\<close>.\<close>

definition round_to :: "nat \<Rightarrow> jsnum \<Rightarrow> jsnum" where
  "round_to d x = parseFloat (toFixed x d)"

text \<open>Modelled on the words of the specification, \<open>rounded to d decimals\<close>: the decimal
  number with \<open>d\<close> fraction digits nearest to the value (of two, the one of larger
  magnitude), as the binary64 number nearest to that decimal. \<open>NaN\<close> and the infinities
  have no decimals and stay as they are.\<close>

definition rounded_to_decimals :: "nat \<Rightarrow> jsnum \<Rightarrow> jsnum" where
  "rounded_to_decimals d x =
     (case x of
        Fin v \<Rightarrow> rnd ((if v < 0 then - 1 else 1) * (of_int \<lfloor>\<bar>v\<bar> * 10 ^ d + 1 / 2\<rfloor> / 10 ^ d))
      | _ \<Rightarrow> x)"

text \<open>What the proofs below use of a value being a binary64 number: it is below \<open>2\<^sup>1\<^sup>0\<^sup>2\<^sup>4\<close>
  in magnitude and, from \<open>10\<^sup>2\<^sup>1\<close> on, an integer that rounding leaves alone.\<close>

definition binary64 :: "jsnum \<Rightarrow> bool" where
  "binary64 x =
     (case x of
        Fin v \<Rightarrow> \<bar>v\<bar> < pow2 1024 \<and> (10 ^ 21 \<le> \<bar>v\<bar> \<longrightarrow> rnd v = Fin v \<and> of_int \<lfloor>v\<rfloor> = v)
      | _ \<Rightarrow> True)"

text \<open>The state of the batched job after the login and the failed request of attempt
  \<open>k\<close> for the objects \<open>rows\<close>, before the retry.\<close>

definition after_failure ::
  "nat \<Rightarrow> (string \<times> string) list \<Rightarrow> string \<Rightarrow> job_state \<Rightarrow> job_state" where
  "after_failure k rows msg st =
     st\<lparr> logins := logins st + 1,
         requests := requests st @ [batch_url rows],
         log := log st @ [LogLoginSuccessful, LogFetching (length rows),
                          LogAttemptFailed (k + 1) msg] \<rparr>"

text \<open>An iteration of the per-object loop fails when the body of its \<open>try\<close> block throws
  or leaves by \<open>continue\<close>.\<close>

fun failed :: "iteration \<Rightarrow> bool" where
  "failed (Completed st) = False"
| "failed _ = True"

text \<open>What an object meets decides where it fails. \<open>element_set ow\<close> is the name and the
  two lines that its response yields, when there is a response and its body passes the
  three checks that precede the inserts (length, number of lines, derivation). The object
  fails when it has no element set or one of its two inserts is rejected.\<close>

definition element_set :: "object_world \<Rightarrow> (string \<times> string \<times> string) option" where
  "element_set ow =
     (case response ow of
        HttpError msg \<Rightarrow> None
      | HttpOk body \<Rightarrow>
          (if trim body = [] \<or> length (trim body) < 50 \<or> length (tle_lines (trim body)) < 3
           then None
           else if populateDerived (Some (tle_lines (trim body) ! 1))
                     (Some (tle_lines (trim body) ! 2)) = None
           then None
           else Some (tle_lines (trim body) ! 0, tle_lines (trim body) ! 1,
                      tle_lines (trim body) ! 2)))"

definition fails :: "object_world \<Rightarrow> bool" where
  "fails ow = (element_set ow = None \<or> history_error ow \<noteq> None \<or> derived_error ow \<noteq> None)"

text \<open>The two rows of the object \<open>row = (norad_id, user_id)\<close> with the element set
  \<open>es = (name, line1, line2)\<close>.\<close>

definition history_row_of :: "string \<times> string \<Rightarrow> string \<times> string \<times> string \<Rightarrow> history_row" where
  "history_row_of row es =
     \<lparr> h_norad_id = fst row, h_name = fst es, h_tle_line1 = fst (snd es),
       h_tle_line2 = snd (snd es), h_epoch = epochDate (fst (snd es)), h_user_id = snd row \<rparr>"

definition derived_row_of :: "string \<times> string \<Rightarrow> string \<times> string \<times> string \<Rightarrow> derived_row" where
  "derived_row_of row es =
     \<lparr> d_norad_id = fst row, d_name = fst es, d_epoch = epochDate (fst (snd es)),
       d_values = the (populateDerived (Some (fst (snd es))) (Some (snd (snd es)))),
       d_user_id = Some (snd row) \<rparr>"

text \<open>The catalog number of the object that a log entry reports a failure of.\<close>

fun failure_of :: "log_entry \<Rightarrow> string option" where
  "failure_of (LogNoValidTLE norad) = Some norad"
| "failure_of (LogInvalidFormat norad) = Some norad"
| "failure_of (LogDeriveFailed norad) = Some norad"
| "failure_of (LogFailedFor norad msg) = Some norad"
| "failure_of _ = None"

section \<open>Properties\<close>

subsection \<open>Evaluation rules and exactness of rounding\<close>

text \<open>The defining equations used to evaluate the model at a concrete input.\<close>

lemmas num_eval [no_atp] =
  rnd_def rnd_q_def rnd_pack_def ilog2_def bitlen.simps pow2_def pow10_def
  round_half_even_def half_even_def num_def

lemmas cbrt_eval [no_atp] =
  cbrt_pos_def cbrt_newton_def cbrt_step_def round_23_def cbrt_23_def cbrt_poly_def
  cbrt_guess_def of_bits_def bits_of_def rd_def Math_PI_def

lemmas str_eval [no_atp] =
  is_ws_def slice_def trimStart_def trim_def startsWith_def is_digit_def digit_val_def
  digits_val_def digits_def after_digits_def decimal_value_def unsigned_decimal_def
  parseFloat_def

lemma replicate_numeral: "replicate (numeral k) x = x # replicate (pred_numeral k) x"
  by (simp add: numeral_eq_Suc)

lemmas fixed_eval [no_atp] =
  digits_of.simps pad_zeros_def insert_point_def fixed_point_def replicate_numeral

lemma bitlen_nonneg: "0 \<le> bitlen n"
proof (induction n rule: bitlen.induct)
  case (1 n)
  then show ?case by (subst bitlen.simps) auto
qed

lemma bitlen_bounds: "0 < n \<Longrightarrow> 2 ^ nat (bitlen n - 1) \<le> n \<and> n < 2 ^ nat (bitlen n)"
proof (induction n rule: bitlen.induct)
  case (1 n)
  show ?case
  proof (cases "n = 1")
    case True
    then show ?thesis by (simp add: bitlen.simps)
  next
    case False
    with "1.prems" have h: "0 < n div 2" by simp
    from "1.IH" "1.prems" h
    have ih: "2 ^ nat (bitlen (n div 2) - 1) \<le> n div 2" "n div 2 < 2 ^ nat (bitlen (n div 2))"
      by auto
    have b: "bitlen n = 1 + bitlen (n div 2)"
      using "1.prems" by (subst bitlen.simps) simp
    have p: "0 < bitlen (n div 2)"
      using h by (subst bitlen.simps) (simp add: add_pos_nonneg bitlen_nonneg)
    have e1: "nat (bitlen n - 1) = Suc (nat (bitlen (n div 2) - 1))" using b p by simp
    have e2: "nat (bitlen n) = Suc (nat (bitlen (n div 2)))" using b p by simp
    show ?thesis unfolding e1 e2 using ih by auto
  qed
qed

lemma round_half_even_of_int: "round_half_even (of_int m) = m"
  by (simp add: round_half_even_def half_even_def)

text \<open>An integer of fewer than 54 bits is a binary64 value: rounding leaves it alone.\<close>

lemma rnd_of_pos_int:
  assumes "0 < n" "n < 2 ^ 53"
  shows "rnd (of_int n) = Fin (of_int n)"
proof -
  let ?e = "bitlen n - 1"
  from bitlen_bounds[OF assms(1)] have lo: "2 ^ nat ?e \<le> n" by auto
  have bp: "0 < bitlen n"
    using assms(1) by (subst bitlen.simps) (simp add: add_pos_nonneg bitlen_nonneg)
  have "(2::int) ^ nat ?e < 2 ^ 53" using lo assms(2) by linarith
  then have "nat ?e < 53" using power_strict_increasing_iff[of "2::int" "nat ?e" 53] by simp
  then have e52: "?e \<le> 52" by simp
  have e0: "0 \<le> ?e" using bp by simp
  have ab: "\<bar>real_of_int n\<bar> = real_of_int n" using assms(1) by simp
  have il: "ilog2 (real_of_int n) = ?e" using assms(1) by (simp add: ilog2_def)
  have q: "pow2 (max ?e (- 1022) - 52) = 1 / 2 ^ nat (52 - ?e)"
    using e52 e0 by (auto simp: pow2_def max_def)
  have "real_of_int n / (1 / 2 ^ nat (52 - ?e)) = of_int (n * 2 ^ nat (52 - ?e))"
    by simp
  then have r: "round_half_even (real_of_int n / (1 / 2 ^ nat (52 - ?e))) = n * 2 ^ nat (52 - ?e)"
    by (simp only: round_half_even_of_int)
  have y: "real_of_int (n * 2 ^ nat (52 - ?e)) * (1 / 2 ^ nat (52 - ?e)) = real_of_int n"
    by simp
  have lt: "\<not> pow2 1024 \<le> real_of_int n"
  proof -
    have "real_of_int n < 2 ^ 53"
      using assms(2) by (metis of_int_less_numeral_power_cancel_iff)
    also have "\<dots> \<le> (2::real) ^ 1024" by simp
    finally show ?thesis by (simp add: pow2_def)
  qed
  have nz: "real_of_int n \<noteq> 0" "0 < real_of_int n" using assms(1) by simp_all
  show ?thesis
    unfolding rnd_def rnd_q_def rnd_pack_def ab il q r y using lt nz by simp
qed

lemma rnd_int: "0 \<le> n \<Longrightarrow> n < 2 ^ 53 \<Longrightarrow> rnd (of_int n) = Fin (of_int n)"
  using rnd_of_pos_int[of n] by (cases "n = 0") (auto simp: rnd_def)

lemma num_numeral [simp]: "numeral k < (2::int) ^ 53 \<Longrightarrow> num (numeral k) = Fin (numeral k)"
  using rnd_int[of "numeral k"] by (simp add: num_def)

lemma num_0 [simp]: "num 0 = Fin 0"
  by (simp add: num_def rnd_def)

subsection \<open>The year of the epoch\<close>

lemma is_digit_facts:
  assumes "is_digit d"
  shows "\<not> is_ws d" "d \<noteq> CHR ''+''" "d \<noteq> CHR ''-''" "d \<noteq> CHR ''x''" "d \<noteq> CHR ''X''"
    "0 \<le> digit_val d" "digit_val d \<le> 9"
  using assms by (auto simp: is_digit_def is_ws_def digit_val_def)

lemma parseInt_two_digits:
  assumes "is_digit d1" "is_digit d2"
  shows "parseInt [d1, d2] = Fin (of_int (10 * digit_val d1 + digit_val d2))"
proof -
  note f1 = is_digit_facts[OF assms(1)] and f2 = is_digit_facts[OF assms(2)]
  have t: "trimStart [d1, d2] = [d1, d2]" using f1(1) by (simp add: trimStart_def)
  have ds: "digits [d1, d2] = [d1, d2]" using assms by (simp add: digits_def)
  have v: "digits_val [d1, d2] = 10 * digit_val d1 + digit_val d2" by (simp add: digits_val_def)
  have r: "rnd (of_int (10 * digit_val d1 + digit_val d2))
             = Fin (of_int (10 * digit_val d1 + digit_val d2))"
    using f1(6,7) f2(6,7) by (intro rnd_int) auto
  show ?thesis
    unfolding parseInt_def t using f1(2,3) f2(4,5) r
    by (simp add: parse_radix_def startsWith_def ds v)
qed

text \<open>
  Claim C9. When columns 19-20 of line 1 hold two decimal digits, the year of the epoch
  is 2000 plus their value if that value is below 57, and 1900 plus their value
  otherwise. The witness gives the four tokens of the claim: 56 is mapped to 2056, 57 to
  1957, 99 to 1999 and 00 to 2000.
\<close>

theorem year_pivot:
  assumes "is_digit d1" "is_digit d2" "slice 18 20 line1 = [d1, d2]"
  shows "fullYear line1 =
    (if 10 * digit_val d1 + digit_val d2 < 57
     then Fin (of_int (2000 + (10 * digit_val d1 + digit_val d2)))
     else Fin (of_int (1900 + (10 * digit_val d1 + digit_val d2))))"
proof -
  let ?y = "10 * digit_val d1 + digit_val d2"
  note f1 = is_digit_facts[OF assms(1)] and f2 = is_digit_facts[OF assms(2)]
  have y: "0 \<le> ?y" "?y \<le> 99" using f1(6,7) f2(6,7) by auto
  have p: "parseInt (slice 18 20 line1) = Fin (of_int ?y)"
    unfolding assms(3) by (rule parseInt_two_digits[OF assms(1,2)])
  have a: "rnd (of_int (2000 + ?y)) = Fin (of_int (2000 + ?y))"
    using y by (intro rnd_int) auto
  have b: "rnd (of_int (1900 + ?y)) = Fin (of_int (1900 + ?y))"
    using y by (intro rnd_int) auto
  have a': "rnd (2000 + of_int ?y) = Fin (of_int (2000 + ?y))" using a by simp
  have b': "rnd (1900 + of_int ?y) = Fin (of_int (1900 + ?y))" using b by simp
  show ?thesis
    unfolding fullYear_def Let_def p using a' b' by simp
qed

theorem year_pivot_witness:
  "fullYear ''1 25544U 98067A   56001.50000000  .00016717  00000-0  10270-3 0  9005'' = Fin 2056
 \<and> fullYear ''1 25544U 98067A   57001.50000000  .00016717  00000-0  10270-3 0  9005'' = Fin 1957
 \<and> fullYear ''1 25544U 98067A   99001.50000000  .00016717  00000-0  10270-3 0  9005'' = Fin 1999
 \<and> fullYear ''1 25544U 98067A   00001.50000000  .00016717  00000-0  10270-3 0  9005'' = Fin 2000"
  using
    year_pivot[of "CHR ''5''" "CHR ''6''"
      "''1 25544U 98067A   56001.50000000  .00016717  00000-0  10270-3 0  9005''"]
    year_pivot[of "CHR ''5''" "CHR ''7''"
      "''1 25544U 98067A   57001.50000000  .00016717  00000-0  10270-3 0  9005''"]
    year_pivot[of "CHR ''9''" "CHR ''9''"
      "''1 25544U 98067A   99001.50000000  .00016717  00000-0  10270-3 0  9005''"]
    year_pivot[of "CHR ''0''" "CHR ''0''"
      "''1 25544U 98067A   00001.50000000  .00016717  00000-0  10270-3 0  9005''"]
  by (simp add: is_digit_def slice_def digit_val_def)

subsection \<open>The orbit regime\<close>

text \<open>The test for MEO comes before the test for GEO, so no altitude below 35786 km is
  classified GEO; the band from 33786 km up to 35786 km is all MEO.\<close>

lemma below_geo_is_never_geo:
  "js_lt alt (num 35786) \<Longrightarrow> orbit_type_of alt \<noteq> ''GEO''"
  by (simp add: orbit_type_of_def)

lemma lower_band_is_meo:
  "33786 \<le> a \<Longrightarrow> a < 35786 \<Longrightarrow> orbit_type_of (Fin a) = ''MEO''"
  by (simp add: orbit_type_of_def)

text \<open>
  Claim C4. The claim makes every altitude within 2000 km of 35786 km GEO, in particular
  every altitude in [33786, 35786). The code classifies the altitude 34000 km as MEO, and
  so it does the catalog entry of a geostationary satellite whose semi-major axis is
  42164 km (altitude 35785.863 km).
\<close>

theorem geo_band_below_is_meo:
  "orbit_type_of (Fin 34000) = ''MEO'' \<and>
   orbit_type (calculateDerivedParams
     \<lparr> norad_id = ''19548'', name = ''TDRS 3'', tle_line1 = None, tle_line2 = None,
       inclination = num (137 / 10), mean_motion = num (10027 / 10000),
       eccentricity = num (3 / 1000), semi_major_axis = num 42164,
       perigee = num 35659, apogee = num 35912, period = num 1436 \<rparr>)
   = ''MEO''"
  apply (simp add: calculateDerivedParams_def Let_def orbit_type_of_def)
  apply (simp add: falsy_num_def js_le_def js_sub_def num_eval)
  done

subsection \<open>Rejection of the mean motion\<close>

text \<open>The shared parser returns \<open>null\<close> when a line is missing or empty and when the
  parsed mean motion is \<open>NaN\<close>, zero or negative.\<close>

lemma populateDerived_rejects:
  "falsy_str line1 \<or> falsy_str line2 \<or>
   (\<exists>b. line2 = Some b \<and>
      (isNaN (parseFloat (slice 52 63 b)) \<or> js_le (parseFloat (slice 52 63 b)) (num 0)))
   \<Longrightarrow> populateDerived line1 line2 = None"
  by (cases line1; cases line2) (auto simp: populateDerived_body_def isNaN_def falsy_num_def)

text \<open>The backfill copy returns \<open>null\<close> when a line is missing or empty and when the
  parsed mean motion is \<open>NaN\<close> or zero.\<close>

lemma calculateDerived_rejects:
  "falsy_str line1 \<or> falsy_str line2 \<or>
   (\<exists>b. line2 = Some b \<and> falsy_num (parseFloat (slice 52 63 b)))
   \<Longrightarrow> calculateDerived line1 line2 = None"
  by (cases line1; cases line2) (auto simp: calculateDerived_body_def)

text \<open>
  Claim C1. The claim makes the derivation function return \<open>null\<close> for a mean motion
  that is not positive. \<open>calculateDerived\<close> of the backfill script tests only
  \<open>!meanMotion\<close>: for a line 2 whose columns 53-63 read \<open>-15.5000000\<close> the parsed mean
  motion is -15.5, which is not positive, and the function returns an object.
\<close>

theorem calculateDerived_accepts_negative:
  "parseFloat (slice 52 63
      ''2 25544  51.6000 208.9163 0006700  69.9862  25.2906 -15.5000000    12'')
     = Fin (- (31 / 2))
   \<and> js_le (Fin (- (31 / 2))) (num 0)
   \<and> calculateDerived
        (Some ''1 25544U 98067A   24001.50000000  .00016717  00000-0  10270-3 0  9005'')
        (Some ''2 25544  51.6000 208.9163 0006700  69.9862  25.2906 -15.5000000    12'')
       \<noteq> None"
proof -
  have mm: "parseFloat (slice 52 63
      ''2 25544  51.6000 208.9163 0006700  69.9862  25.2906 -15.5000000    12'')
     = Fin (- (31 / 2))"
    by (simp add: str_eval num_eval)
  show ?thesis
    by (simp add: mm calculateDerived_body_def Let_def falsy_num_def js_le_def)
qed

subsection \<open>The two derivation functions compared\<close>

text \<open>The two functions agree on every pair of lines whose mean motion is not a negative
  number.\<close>

lemma derive_agree:
  "falsy_num (parseFloat (slice 52 63 line2)) \<or> \<not> js_le (parseFloat (slice 52 63 line2)) (num 0)
   \<Longrightarrow> populateDerived (Some line1) (Some line2) = calculateDerived (Some line1) (Some line2)"
  by (auto simp: populateDerived_body_def calculateDerived_body_def Let_def)

text \<open>
  Claim C10. The claim makes \<open>populateDerived\<close> and the backfill \<open>calculateDerived\<close>
  return the same value for every pair of lines. For a line 2 whose columns 53-63 read
  \<open>-2.00560000\<close> the first returns \<open>null\<close> and the second returns an object.
\<close>

theorem derivations_differ:
  "populateDerived
     (Some ''1 25544U 98067A   24001.50000000  .00016717  00000-0  10270-3 0  9005'')
     (Some ''2 25544  51.6000 208.9163 0006700  69.9862  25.2906 -2.00560000    12'') = None
   \<and> calculateDerived
     (Some ''1 25544U 98067A   24001.50000000  .00016717  00000-0  10270-3 0  9005'')
     (Some ''2 25544  51.6000 208.9163 0006700  69.9862  25.2906 -2.00560000    12'') \<noteq> None"
proof -
  have mm: "parseFloat (slice 52 63
      ''2 25544  51.6000 208.9163 0006700  69.9862  25.2906 -2.00560000    12'')
     = Fin (- (4516209706327133 / 2251799813685248))"
    by (simp add: str_eval num_eval)
  show ?thesis
    by (simp add: mm populateDerived_body_def calculateDerived_body_def Let_def
          falsy_num_def js_le_def)
qed

subsection \<open>The retry of the batched job\<close>

text \<open>An attempt whose login is accepted and whose request fails is followed by a
  pause of 30 seconds and the next attempt as long as \<open>retryCount < 3\<close>.\<close>

lemma failed_attempt:
  assumes "job_state.cookies st = None"
    and "login_responses w k = LoginAccepted (Some c)"
    and "satellites_of w k = Inr rows" "rows \<noteq> []"
    and "batch_response w k = HttpError msg"
  shows "fetchAndStoreTLEs_batched w k st =
    (if k < 3
     then fetchAndStoreTLEs_batched w (k + 1)
            (sleep 30000 ((log_add LogRetrying (after_failure k rows msg st))
               \<lparr> job_state.cookies := None \<rparr>))
     else log_add LogGivingUp
            ((after_failure k rows msg st)\<lparr> job_state.cookies := Some c \<rparr>))"
  using assms
  by (subst fetchAndStoreTLEs_batched.simps)
     (simp add: login_def try_pass_def log_add_def sleep_def Let_def after_failure_def)

text \<open>When every attempt fails in this way, a run from \<open>retryCount = k\<close> makes \<open>4 - k\<close>
  login requests and \<open>3 - k\<close> pauses before it gives up: four logins from 0.\<close>

lemma attempts_from:
  assumes "\<forall>k. \<exists>c. login_responses w k = LoginAccepted (Some c)"
    and "\<forall>k. \<exists>rows. satellites_of w k = Inr rows \<and> rows \<noteq> []"
    and "\<forall>k. \<exists>msg. batch_response w k = HttpError msg"
  shows "job_state.cookies st = None \<Longrightarrow> k \<le> 3 \<Longrightarrow>
     logins (fetchAndStoreTLEs_batched w k st) = logins st + (4 - k)
   \<and> sleeps (fetchAndStoreTLEs_batched w k st) = sleeps st @ replicate (3 - k) 30000
   \<and> length (requests (fetchAndStoreTLEs_batched w k st)) = length (requests st) + (4 - k)
   \<and> last (job_state.log (fetchAndStoreTLEs_batched w k st)) = LogGivingUp"
proof (induction "3 - k" arbitrary: k st)
  case 0
  then have k: "k = 3" by simp
  from assms obtain c rows msg where
    "login_responses w k = LoginAccepted (Some c)" "satellites_of w k = Inr rows" "rows \<noteq> []"
    "batch_response w k = HttpError msg" by metis
  from failed_attempt[OF "0.prems"(1) this] show ?case
    by (simp add: k log_add_def after_failure_def)
next
  case (Suc n)
  then have k: "k < 3" by simp
  from assms obtain c rows msg where
    "login_responses w k = LoginAccepted (Some c)" "satellites_of w k = Inr rows" "rows \<noteq> []"
    "batch_response w k = HttpError msg" by metis
  note fa = failed_attempt[OF Suc.prems(1) this]
  define st' where
    "st' = sleep 30000 ((log_add LogRetrying (after_failure k rows msg st))
               \<lparr> job_state.cookies := None \<rparr>)"
  have eq: "fetchAndStoreTLEs_batched w k st = fetchAndStoreTLEs_batched w (k + 1) st'"
    using fa k by (simp add: st'_def)
  have n: "n = 3 - (k + 1)" using Suc.hyps(2) by simp
  have c: "job_state.cookies st' = None" and k1: "k + 1 \<le> 3"
    using k by (simp_all add: st'_def sleep_def)
  have obs: "logins st' = logins st + 1" "sleeps st' = sleeps st @ [30000]"
     "length (requests st') = length (requests st) + 1"
    by (simp_all add: st'_def sleep_def log_add_def after_failure_def)
  have r: "[30000] @ replicate (3 - (k + 1)) (30000::nat) = replicate (3 - k) 30000"
    using k by (cases "3 - k") auto
  from Suc.hyps(1)[OF n c k1] k show ?case
    unfolding eq obs using r by (simp, arith)
qed

text \<open>
  Claim C6. The claim makes the job stop after three attempts and three login requests.
  In a run where every login is accepted and every request of the pass times out, the
  job logs in four times, sends four requests, pauses three times for 30 seconds, logs
  that attempt 4 failed and then that it gives up.
\<close>

theorem retry_makes_four_attempts:
  "(let r = fetchAndStoreTLEs_batched
      \<lparr> login_responses = (\<lambda>k. LoginAccepted (Some [''chocolatechip=1''])),
        satellites_of = (\<lambda>k. Inr [(''25544'', ''user_1'')]),
        batch_response = (\<lambda>k. HttpError ''timeout of 30000ms exceeded''),
        block_errors = (\<lambda>k j. (None, None)) \<rparr>
      0
      \<lparr> cookies = None, tle_history = [], tle_derived = [], requests = [], logins = 0,
        log = [], sleeps = [] \<rparr>
    in logins r = 4 \<and> length (requests r) = 4 \<and> sleeps r = [30000, 30000, 30000]
       \<and> job_state.log r =
           [LogLoginSuccessful, LogFetching 1,
            LogAttemptFailed 1 ''timeout of 30000ms exceeded'', LogRetrying,
            LogLoginSuccessful, LogFetching 1,
            LogAttemptFailed 2 ''timeout of 30000ms exceeded'', LogRetrying,
            LogLoginSuccessful, LogFetching 1,
            LogAttemptFailed 3 ''timeout of 30000ms exceeded'', LogRetrying,
            LogLoginSuccessful, LogFetching 1,
            LogAttemptFailed 4 ''timeout of 30000ms exceeded'', LogGivingUp])"
  by (simp add: fetchAndStoreTLEs_batched.simps login_def try_pass_def log_add_def sleep_def
        Let_def batch_url_def)

subsection \<open>The cooldown of the session\<close>





subsection \<open>Insertion into the history tables\<close>

lemma insert_do_nothing_present:
  "key r \<in> key ` set t \<Longrightarrow> insert_do_nothing key r t = t"
  by (simp add: insert_do_nothing_def)

lemma insert_do_nothing_idem:
  "insert_do_nothing key r (insert_do_nothing key r t) = insert_do_nothing key r t"
  by (simp add: insert_do_nothing_def)

lemma insert_do_nothing_distinct:
  "distinct (map key t) \<Longrightarrow> distinct (map key (insert_do_nothing key r t))"
  by (auto simp: insert_do_nothing_def)

lemma filter_key_one:
  "distinct (map key t) \<Longrightarrow> k \<in> key ` set t \<Longrightarrow> length (filter (\<lambda>x. key x = k) t) = 1"
  by (induction t) (auto simp: filter_empty_conv image_iff)

lemma insert_do_nothing_one_row:
  "distinct (map key t) \<Longrightarrow>
   length (filter (\<lambda>x. key x = key r) (insert_do_nothing key r t)) = 1"
proof (cases "key r \<in> key ` set t")
  case True
  assume "distinct (map key t)"
  with True show ?thesis by (simp add: insert_do_nothing_def filter_key_one)
next
  case False
  then have "filter (\<lambda>x. key x = key r) t = []" by (auto simp: filter_empty_conv image_iff)
  then show ?thesis using False by (simp add: insert_do_nothing_def)
qed

text \<open>The statement of the backfill script overwrites the derived values of a stored
  row; applied twice with the same row it has the effect of one application.\<close>

lemma upsert_derived_idem:
  "upsert_derived r (upsert_derived r t) = upsert_derived r t"
proof (cases "backfill_key r \<in> backfill_key ` set t")
  case True
  have k: "backfill_key (x\<lparr> d_name := n, d_values := v \<rparr>) = backfill_key x" for x n v
    by (simp add: backfill_key_def)
  let ?f = "\<lambda>x. if backfill_key x = backfill_key r
                      then x\<lparr> d_name := d_name r, d_values := d_values r \<rparr> else x"
  have kf: "backfill_key (?f x) = backfill_key x" for x by (simp add: k)
  have "backfill_key ` set (map ?f t) = (\<lambda>x. backfill_key (?f x)) ` set t"
    by (simp only: set_map image_image)
  also have "\<dots> = backfill_key ` set t"
    by (simp only: kf)
  finally have img: "backfill_key ` set (map ?f t) = backfill_key ` set t" .
  have ff: "map ?f (map ?f t) = map ?f t" by (simp add: k)
  show ?thesis
    using True img ff unfolding upsert_derived_def by simp
next
  case False
  then have "map (\<lambda>x. if backfill_key x = backfill_key r
                      then x\<lparr> d_name := d_name r, d_values := d_values r \<rparr> else x) t = t"
    by (intro map_idI) (auto simp: image_iff)
  with False show ?thesis
    by (simp add: upsert_derived_def)
qed

lemma store_element_set_succeeds:
  "\<exists>st1. store_element_set None None h d st = Inr st1"
  by (simp add: store_element_set_def Let_def)

lemma store_element_set_idem:
  "store_element_set None None h d st = Inr st1
   \<Longrightarrow> store_element_set None None h d st1 = Inr st1"
  by (auto simp: store_element_set_def Let_def insert_do_nothing_idem)

text \<open>
  Claim C5. Inserting a history row whose key (catalog number, epoch, user) is stored
  leaves the table as it is; in a table without duplicate keys the insert leaves exactly
  one row with the key. The two inserts that store an element set never fail because of
  a stored key (with a database that raises no other error they return a state), and
  storing the same element set a second time changes nothing. The update statement of
  the backfill script, applied twice to the same row, has the effect of one application.
\<close>

theorem history_insert_idempotent:
  "(history_key r \<in> history_key ` set t \<longrightarrow> insert_do_nothing history_key r t = t)
   \<and> (distinct (map history_key t) \<longrightarrow>
        distinct (map history_key (insert_do_nothing history_key r t))
      \<and> length (filter (\<lambda>x. history_key x = history_key r)
                  (insert_do_nothing history_key r t)) = 1)
   \<and> (\<exists>st1. store_element_set None None h d st = Inr st1
            \<and> store_element_set None None h d st1 = Inr st1)
   \<and> upsert_derived u (upsert_derived u ds) = upsert_derived u ds"
  using store_element_set_succeeds[of h d st] store_element_set_idem[of h d st]
  by (auto simp: insert_do_nothing_present insert_do_nothing_distinct
        insert_do_nothing_one_row upsert_derived_idem)

theorem history_insert_idempotent_witness:
  "history_key
     \<lparr> h_norad_id = ''25544'', h_name = ''ISS'', h_tle_line1 = ''1 new'', h_tle_line2 = ''2 new'',
       h_epoch = Fin 1704110400000, h_user_id = ''user_1'' \<rparr>
   \<in> history_key ` set
     [\<lparr> h_norad_id = ''25544'', h_name = ''ISS (ZARYA)'', h_tle_line1 = ''1 old'',
        h_tle_line2 = ''2 old'', h_epoch = Fin 1704110400000, h_user_id = ''user_1'' \<rparr>]
   \<and> insert_do_nothing history_key
     \<lparr> h_norad_id = ''25544'', h_name = ''ISS'', h_tle_line1 = ''1 new'', h_tle_line2 = ''2 new'',
       h_epoch = Fin 1704110400000, h_user_id = ''user_1'' \<rparr>
     [\<lparr> h_norad_id = ''25544'', h_name = ''ISS (ZARYA)'', h_tle_line1 = ''1 old'',
        h_tle_line2 = ''2 old'', h_epoch = Fin 1704110400000, h_user_id = ''user_1'' \<rparr>]
   = [\<lparr> h_norad_id = ''25544'', h_name = ''ISS (ZARYA)'', h_tle_line1 = ''1 old'',
        h_tle_line2 = ''2 old'', h_epoch = Fin 1704110400000, h_user_id = ''user_1'' \<rparr>]
   \<and> distinct (map history_key
     [\<lparr> h_norad_id = ''25544'', h_name = ''ISS (ZARYA)'', h_tle_line1 = ''1 old'',
        h_tle_line2 = ''2 old'', h_epoch = Fin 1704110400000, h_user_id = ''user_1'' \<rparr>])
   \<and> length (filter
        (\<lambda>x. history_key x = history_key
           \<lparr> h_norad_id = ''25544'', h_name = ''ISS'', h_tle_line1 = ''1 new'',
             h_tle_line2 = ''2 new'', h_epoch = Fin 1704110400000, h_user_id = ''user_1'' \<rparr>)
        (insert_do_nothing history_key
           \<lparr> h_norad_id = ''25544'', h_name = ''ISS'', h_tle_line1 = ''1 new'',
             h_tle_line2 = ''2 new'', h_epoch = Fin 1704110400000, h_user_id = ''user_1'' \<rparr>
           [\<lparr> h_norad_id = ''25544'', h_name = ''ISS (ZARYA)'', h_tle_line1 = ''1 old'',
              h_tle_line2 = ''2 old'', h_epoch = Fin 1704110400000, h_user_id = ''user_1'' \<rparr>]))
     = 1"
  using history_insert_idempotent[of
     "\<lparr> h_norad_id = ''25544'', h_name = ''ISS'', h_tle_line1 = ''1 new'', h_tle_line2 = ''2 new'',
       h_epoch = Fin 1704110400000, h_user_id = ''user_1'' \<rparr>"
     "[\<lparr> h_norad_id = ''25544'', h_name = ''ISS (ZARYA)'', h_tle_line1 = ''1 old'',
        h_tle_line2 = ''2 old'', h_epoch = Fin 1704110400000, h_user_id = ''user_1'' \<rparr>]"]
  by (simp add: history_key_def)

subsection \<open>The loop of the per-object job\<close>

lemma try_object_session:
  "job_state.cookies st = Some c \<Longrightarrow>
   (case snd (try_object ow row (n, st)) of
      Threw msg st' \<Rightarrow>
        job_state.cookies st' = Some c \<and> requests st' = requests st @ [object_url (fst row)]
    | Continued st' \<Rightarrow>
        job_state.cookies st' = Some c \<and> requests st' = requests st @ [object_url (fst row)]
    | Completed st' \<Rightarrow>
        job_state.cookies st' = Some c \<and> requests st' = requests st @ [object_url (fst row)])"
  by (auto simp: try_object_def Let_def log_add_def store_element_set_def
           split: http_result.splits option.splits sum.splits prod.splits)

lemma process_object_requests:
  assumes "job_state.cookies (snd acc) = Some c"
  shows "job_state.cookies (snd (process_object ow row acc)) = Some c
       \<and> requests (snd (process_object ow row acc))
           = requests (snd acc) @ [object_url (fst row)]"
proof -
  obtain n st where acc: "acc = (n, st)" by (cases acc)
  from assms try_object_session[where st=st and c=c and ow=ow and row=row and n=n]
  show ?thesis
    by (auto simp: acc process_object_def sleep_def log_add_def
             split: prod.splits iteration.splits)
qed

text \<open>Whatever the objects meet, the loop requests every object of the list, in order.\<close>

lemma process_rows_requests:
  "job_state.cookies (snd acc) = Some c \<Longrightarrow>
   requests (snd (process_rows ows i rows acc))
     = requests (snd acc) @ map (\<lambda>row. object_url (fst row)) rows"
proof (induction rows arbitrary: i acc)
  case Nil
  then show ?case by simp
next
  case (Cons row rows)
  from process_object_requests[OF Cons.prems, of "ows i" row]
  have c: "job_state.cookies (snd (process_object (ows i) row acc)) = Some c"
    and r: "requests (snd (process_object (ows i) row acc))
              = requests (snd acc) @ [object_url (fst row)]"
    by auto
  from Cons.IH[OF c] r show ?case by simp
qed

lemma populateDerived_accepts:
  assumes "line1 \<noteq> []" "line2 \<noteq> []"
    and "\<not> falsy_num (parseFloat (slice 52 63 line2))"
    and "\<not> js_le (parseFloat (slice 52 63 line2)) (num 0)"
  shows "\<exists>r. populateDerived (Some line1) (Some line2) = Some r"
  using assms by (simp add: populateDerived_body_def Let_def)

lemma iss_lines:
  "tle_lines (trim ''ISS (ZARYA)\<newline>1 25544U 98067A   24001.50000000  .00016717  00000-0  10270-3 0  9005\<newline>2 25544  51.6000 208.9163 0006700  69.9862  25.2906 15.50000000    12\<newline>'')
   = [''ISS (ZARYA)'',
      ''1 25544U 98067A   24001.50000000  .00016717  00000-0  10270-3 0  9005'',
      ''2 25544  51.6000 208.9163 0006700  69.9862  25.2906 15.50000000    12'']"
  by (simp add: tle_lines_def trim_def is_ws_def)

lemma iss_mean_motion:
  "parseFloat (slice 52 63
     ''2 25544  51.6000 208.9163 0006700  69.9862  25.2906 15.50000000    12'') = Fin (31 / 2)"
  by (simp add: str_eval num_eval)

lemma iss_accepted:
  "\<exists>r. populateDerived
     (Some ''1 25544U 98067A   24001.50000000  .00016717  00000-0  10270-3 0  9005'')
     (Some ''2 25544  51.6000 208.9163 0006700  69.9862  25.2906 15.50000000    12'') = Some r"
  by (rule populateDerived_accepts) (simp_all add: iss_mean_motion falsy_num_def js_le_def)

text \<open>
  Claim C7, as stated, fails. The object is fetched, parsed and derived, its history row
  is inserted, and the insert of its derived row is rejected: the failure is logged and
  the object is not counted, but its history row stays in \<open>tle_history\<close>.
\<close>

theorem history_row_stays_after_failure:
  "fst (process_object
      \<lparr> response = HttpOk
          ''ISS (ZARYA)\<newline>1 25544U 98067A   24001.50000000  .00016717  00000-0  10270-3 0  9005\<newline>2 25544  51.6000 208.9163 0006700  69.9862  25.2906 15.50000000    12\<newline>'',
        history_error = None,
        derived_error = Some ''Connection terminated unexpectedly'' \<rparr>
      (''25544'', ''user_1'')
      (0, \<lparr> cookies = Some [''chocolatechip=1''], tle_history = [], tle_derived = [],
            requests = [], logins = 1, log = [], sleeps = [] \<rparr>)) = 0
   \<and> job_state.log (snd (process_object
      \<lparr> response = HttpOk
          ''ISS (ZARYA)\<newline>1 25544U 98067A   24001.50000000  .00016717  00000-0  10270-3 0  9005\<newline>2 25544  51.6000 208.9163 0006700  69.9862  25.2906 15.50000000    12\<newline>'',
        history_error = None,
        derived_error = Some ''Connection terminated unexpectedly'' \<rparr>
      (''25544'', ''user_1'')
      (0, \<lparr> cookies = Some [''chocolatechip=1''], tle_history = [], tle_derived = [],
            requests = [], logins = 1, log = [], sleeps = [] \<rparr>)))
       = [LogFailedFor ''25544'' ''Connection terminated unexpectedly'']
   \<and> tle_derived (snd (process_object
      \<lparr> response = HttpOk
          ''ISS (ZARYA)\<newline>1 25544U 98067A   24001.50000000  .00016717  00000-0  10270-3 0  9005\<newline>2 25544  51.6000 208.9163 0006700  69.9862  25.2906 15.50000000    12\<newline>'',
        history_error = None,
        derived_error = Some ''Connection terminated unexpectedly'' \<rparr>
      (''25544'', ''user_1'')
      (0, \<lparr> cookies = Some [''chocolatechip=1''], tle_history = [], tle_derived = [],
            requests = [], logins = 1, log = [], sleeps = [] \<rparr>))) = []
   \<and> map h_norad_id (tle_history (snd (process_object
      \<lparr> response = HttpOk
          ''ISS (ZARYA)\<newline>1 25544U 98067A   24001.50000000  .00016717  00000-0  10270-3 0  9005\<newline>2 25544  51.6000 208.9163 0006700  69.9862  25.2906 15.50000000    12\<newline>'',
        history_error = None,
        derived_error = Some ''Connection terminated unexpectedly'' \<rparr>
      (''25544'', ''user_1'')
      (0, \<lparr> cookies = Some [''chocolatechip=1''], tle_history = [], tle_derived = [],
            requests = [], logins = 1, log = [], sleeps = [] \<rparr>)))) = [''25544'']"
proof -
  from iss_accepted obtain r where r: "populateDerived_body
     ''1 25544U 98067A   24001.50000000  .00016717  00000-0  10270-3 0  9005''
     ''2 25544  51.6000 208.9163 0006700  69.9862  25.2906 15.50000000    12'' = Some r"
    by auto
  have po: "process_object
      \<lparr> response = HttpOk
          ''ISS (ZARYA)\<newline>1 25544U 98067A   24001.50000000  .00016717  00000-0  10270-3 0  9005\<newline>2 25544  51.6000 208.9163 0006700  69.9862  25.2906 15.50000000    12\<newline>'',
        history_error = None,
        derived_error = Some ''Connection terminated unexpectedly'' \<rparr>
      (''25544'', ''user_1'')
      (0, \<lparr> cookies = Some [''chocolatechip=1''], tle_history = [], tle_derived = [],
            requests = [], logins = 1, log = [], sleeps = [] \<rparr>)
    = (0,
       \<lparr> cookies = Some [''chocolatechip=1''],
         tle_history =
           [\<lparr> h_norad_id = ''25544'', h_name = ''ISS (ZARYA)'',
              h_tle_line1 =
                ''1 25544U 98067A   24001.50000000  .00016717  00000-0  10270-3 0  9005'',
              h_tle_line2 =
                ''2 25544  51.6000 208.9163 0006700  69.9862  25.2906 15.50000000    12'',
              h_epoch = epochDate
                ''1 25544U 98067A   24001.50000000  .00016717  00000-0  10270-3 0  9005'',
              h_user_id = ''user_1'' \<rparr>],
         tle_derived = [], requests = [object_url ''25544''], logins = 1,
         log = [LogFailedFor ''25544'' ''Connection terminated unexpectedly''],
         sleeps = [1000] \<rparr>)"
    apply (simp add: process_object_def try_object_def Let_def iss_lines)
    apply (simp add: trim_def is_ws_def r store_element_set_def insert_do_nothing_def
             log_add_def sleep_def)
    done
  show ?thesis unfolding po by simp
qed

lemma process_rows_append:
  "process_rows ows i (before @ rows) acc
     = process_rows ows (i + length before) rows (process_rows ows i before acc)"
  by (induction before arbitrary: i acc) simp_all

lemma process_rows_session:
  "job_state.cookies (snd acc) = Some c \<Longrightarrow>
   job_state.cookies (snd (process_rows ows i rows acc)) = Some c"
proof (induction rows arbitrary: i acc)
  case Nil
  then show ?case by simp
next
  case (Cons row rows)
  from process_object_requests[OF Cons.prems, of "ows i" row]
  have "job_state.cookies (snd (process_object (ows i) row acc)) = Some c" by simp
  from Cons.IH[OF this] show ?case by simp
qed

text \<open>Whether an object fails is decided by what it meets, not by the state.\<close>

lemma failed_iff_fails:
  "job_state.cookies st = Some c \<Longrightarrow> failed (snd (try_object ow row (n, st))) = fails ow"
  by (auto simp: try_object_def fails_def element_set_def Let_def store_element_set_def
           split: http_result.splits option.splits sum.splits prod.splits if_splits)

lemma failing_object:
  assumes "job_state.cookies st = Some c" "fails ow"
  shows "fst (process_object ow row (n, st)) = n"
    "\<exists>e. job_state.log (snd (process_object ow row (n, st))) = job_state.log st @ [e]
         \<and> failure_of e = Some (fst row)"
    "tle_derived (snd (process_object ow row (n, st))) = tle_derived st"
    "tle_history (snd (process_object ow row (n, st)))
       = (case element_set ow of
            None \<Rightarrow> tle_history st
          | Some es \<Rightarrow>
              if history_error ow = None
              then insert_do_nothing history_key (history_row_of row es) (tle_history st)
              else tle_history st)"
  using assms
  by (auto simp: process_object_def try_object_def fails_def element_set_def Let_def
                 store_element_set_def log_add_def sleep_def history_row_of_def
           split: http_result.splits option.splits sum.splits prod.splits if_splits)

lemma stored_object:
  assumes "job_state.cookies st = Some c" "\<not> fails ow"
  shows "fst (process_object ow row (n, st)) = n + 1"
    "job_state.log (snd (process_object ow row (n, st))) = job_state.log st"
    "tle_history (snd (process_object ow row (n, st)))
       = insert_do_nothing history_key (history_row_of row (the (element_set ow))) (tle_history st)"
    "tle_derived (snd (process_object ow row (n, st)))
       = insert_do_nothing derived_key (derived_row_of row (the (element_set ow))) (tle_derived st)"
  using assms
  by (auto simp: process_object_def try_object_def fails_def element_set_def Let_def
                 store_element_set_def log_add_def sleep_def history_row_of_def
                 derived_row_of_def
           split: http_result.splits option.splits sum.splits prod.splits if_splits)

lemma iss_element_set:
  "element_set \<lparr> response = HttpOk
          ''ISS (ZARYA)\<newline>1 25544U 98067A   24001.50000000  .00016717  00000-0  10270-3 0  9005\<newline>2 25544  51.6000 208.9163 0006700  69.9862  25.2906 15.50000000    12\<newline>'',
        history_error = None, derived_error = None \<rparr>
   = Some (''ISS (ZARYA)'',
           ''1 25544U 98067A   24001.50000000  .00016717  00000-0  10270-3 0  9005'',
           ''2 25544  51.6000 208.9163 0006700  69.9862  25.2906 15.50000000    12'')"
proof -
  have "populateDerived (Some ''1 25544U 98067A   24001.50000000  .00016717  00000-0  10270-3 0  9005'')
          (Some ''2 25544  51.6000 208.9163 0006700  69.9862  25.2906 15.50000000    12'') \<noteq> None"
    using iss_accepted by auto
  then show ?thesis
    by (simp add: element_set_def iss_lines) (simp add: trim_def is_ws_def)
qed

text \<open>
  Claim C7, as amended, for the loop of the per-object job with a session. Whatever the
  objects before it met, every object of the list is processed from the state they left,
  with the session they had, and the loop goes on with the objects after it. An object
  fails exactly when it has no usable element set or one of its inserts is rejected. A
  failing object is requested, logs one entry that names it, is not counted and stores no
  derived row; it stores no history row either, unless it reached its inserts and the
  history insert went through, in which case that row stays. An object that does not fail
  is counted and stores its two rows.
\<close>

theorem per_object_failure_isolated:
  assumes "job_state.cookies st = Some c"
  shows
   "process_rows ows i (before @ row # rest) (n, st)
      = process_rows ows (i + length before + 1) rest
          (process_object (ows (i + length before)) row (process_rows ows i before (n, st)))
    \<and> job_state.cookies (snd (process_rows ows i before (n, st))) = Some c
    \<and> failed (snd (try_object ow row (n, st))) = fails ow
    \<and> job_state.cookies (snd (process_object ow row (n, st))) = Some c
    \<and> requests (snd (process_object ow row (n, st))) = requests st @ [object_url (fst row)]
    \<and> (fails ow \<longrightarrow>
          fst (process_object ow row (n, st)) = n
        \<and> (\<exists>e. job_state.log (snd (process_object ow row (n, st))) = job_state.log st @ [e]
               \<and> failure_of e = Some (fst row))
        \<and> tle_derived (snd (process_object ow row (n, st))) = tle_derived st
        \<and> tle_history (snd (process_object ow row (n, st)))
            = (case element_set ow of
                 None \<Rightarrow> tle_history st
               | Some es \<Rightarrow>
                   if history_error ow = None
                   then insert_do_nothing history_key (history_row_of row es) (tle_history st)
                   else tle_history st))
    \<and> (\<not> fails ow \<longrightarrow>
          fst (process_object ow row (n, st)) = n + 1
        \<and> job_state.log (snd (process_object ow row (n, st))) = job_state.log st
        \<and> tle_history (snd (process_object ow row (n, st)))
            = insert_do_nothing history_key (history_row_of row (the (element_set ow)))
                (tle_history st)
        \<and> tle_derived (snd (process_object ow row (n, st)))
            = insert_do_nothing derived_key (derived_row_of row (the (element_set ow)))
                (tle_derived st))"
proof -
  have "process_rows ows i (before @ row # rest) (n, st)
      = process_rows ows (i + length before + 1) rest
          (process_object (ows (i + length before)) row (process_rows ows i before (n, st)))"
    by (simp add: process_rows_append)
  moreover have "job_state.cookies (snd (process_rows ows i before (n, st))) = Some c"
    using assms by (simp add: process_rows_session)
  moreover note failed_iff_fails[OF assms, of ow row n]
    process_object_requests[of "(n, st)" c ow row]
    failing_object[OF assms, of ow row n] stored_object[OF assms, of ow row n]
  ultimately show ?thesis using assms by simp
qed

theorem per_object_failure_isolated_witness:
  "fails \<lparr> response = HttpError ''timeout of 15000ms exceeded'', history_error = None,
        derived_error = None \<rparr>
   \<and> process_rows (\<lambda>i. \<lparr> response = HttpError ''timeout of 15000ms exceeded'', history_error = None,
        derived_error = None \<rparr>) 0
       [(''25544'', ''user_1''), (''20580'', ''user_1'')]
       (0, \<lparr> cookies = Some [''chocolatechip=1''], tle_history = [], tle_derived = [],
          requests = [], logins = 1, log = [], sleeps = [] \<rparr>)
     = (0, \<lparr> cookies = Some [''chocolatechip=1''], tle_history = [], tle_derived = [],
            requests = [object_url ''25544'', object_url ''20580''], logins = 1,
            log = [LogFailedFor ''25544'' ''timeout of 15000ms exceeded'',
                   LogFailedFor ''20580'' ''timeout of 15000ms exceeded''],
            sleeps = [1000, 1000] \<rparr>)
   \<and> \<not> fails \<lparr> response = HttpOk
          ''ISS (ZARYA)\<newline>1 25544U 98067A   24001.50000000  .00016717  00000-0  10270-3 0  9005\<newline>2 25544  51.6000 208.9163 0006700  69.9862  25.2906 15.50000000    12\<newline>'',
        history_error = None, derived_error = None \<rparr>
   \<and> fst (process_object \<lparr> response = HttpOk
          ''ISS (ZARYA)\<newline>1 25544U 98067A   24001.50000000  .00016717  00000-0  10270-3 0  9005\<newline>2 25544  51.6000 208.9163 0006700  69.9862  25.2906 15.50000000    12\<newline>'',
        history_error = None, derived_error = None \<rparr> (''25544'', ''user_1'')
       (0, \<lparr> cookies = Some [''chocolatechip=1''], tle_history = [], tle_derived = [],
          requests = [], logins = 1, log = [], sleeps = [] \<rparr>)) = 1
   \<and> map h_norad_id (tle_history (snd (process_object \<lparr> response = HttpOk
          ''ISS (ZARYA)\<newline>1 25544U 98067A   24001.50000000  .00016717  00000-0  10270-3 0  9005\<newline>2 25544  51.6000 208.9163 0006700  69.9862  25.2906 15.50000000    12\<newline>'',
        history_error = None, derived_error = None \<rparr> (''25544'', ''user_1'')
       (0, \<lparr> cookies = Some [''chocolatechip=1''], tle_history = [], tle_derived = [],
          requests = [], logins = 1, log = [], sleeps = [] \<rparr>)))) = [''25544'']
   \<and> map d_norad_id (tle_derived (snd (process_object \<lparr> response = HttpOk
          ''ISS (ZARYA)\<newline>1 25544U 98067A   24001.50000000  .00016717  00000-0  10270-3 0  9005\<newline>2 25544  51.6000 208.9163 0006700  69.9862  25.2906 15.50000000    12\<newline>'',
        history_error = None, derived_error = None \<rparr> (''25544'', ''user_1'')
       (0, \<lparr> cookies = Some [''chocolatechip=1''], tle_history = [], tle_derived = [],
          requests = [], logins = 1, log = [], sleeps = [] \<rparr>)))) = [''25544'']"
proof -
  have s: "job_state.cookies \<lparr> cookies = Some [''chocolatechip=1''], tle_history = [], tle_derived = [],
          requests = [], logins = 1, log = [], sleeps = [] \<rparr> = Some [''chocolatechip=1'']"
    by simp
  have f: "fails \<lparr> response = HttpError ''timeout of 15000ms exceeded'', history_error = None,
        derived_error = None \<rparr>"
    by (simp add: fails_def element_set_def)
  have g: "\<not> fails \<lparr> response = HttpOk
          ''ISS (ZARYA)\<newline>1 25544U 98067A   24001.50000000  .00016717  00000-0  10270-3 0  9005\<newline>2 25544  51.6000 208.9163 0006700  69.9862  25.2906 15.50000000    12\<newline>'',
        history_error = None, derived_error = None \<rparr>"
    by (simp add: fails_def iss_element_set)
  note a = per_object_failure_isolated[OF s, of "\<lambda>i. \<lparr> response = HttpError ''timeout of 15000ms exceeded'', history_error = None,
        derived_error = None \<rparr>" 0 "[]" "(''25544'', ''user_1'')"
      "[(''20580'', ''user_1'')]" 0 "\<lparr> response = HttpError ''timeout of 15000ms exceeded'', history_error = None,
        derived_error = None \<rparr>"]
  note b = per_object_failure_isolated[OF s, of "\<lambda>i. \<lparr> response = HttpOk
          ''ISS (ZARYA)\<newline>1 25544U 98067A   24001.50000000  .00016717  00000-0  10270-3 0  9005\<newline>2 25544  51.6000 208.9163 0006700  69.9862  25.2906 15.50000000    12\<newline>'',
        history_error = None, derived_error = None \<rparr>" 0 "[]" "(''25544'', ''user_1'')"
      "[]" 0 "\<lparr> response = HttpOk
          ''ISS (ZARYA)\<newline>1 25544U 98067A   24001.50000000  .00016717  00000-0  10270-3 0  9005\<newline>2 25544  51.6000 208.9163 0006700  69.9862  25.2906 15.50000000    12\<newline>'',
        history_error = None, derived_error = None \<rparr>"]
  have 1: "process_rows (\<lambda>i. \<lparr> response = HttpError ''timeout of 15000ms exceeded'', history_error = None,
        derived_error = None \<rparr>) 0
       [(''25544'', ''user_1''), (''20580'', ''user_1'')]
       (0, \<lparr> cookies = Some [''chocolatechip=1''], tle_history = [], tle_derived = [],
          requests = [], logins = 1, log = [], sleeps = [] \<rparr>)
     = (0, \<lparr> cookies = Some [''chocolatechip=1''], tle_history = [], tle_derived = [],
            requests = [object_url ''25544'', object_url ''20580''], logins = 1,
            log = [LogFailedFor ''25544'' ''timeout of 15000ms exceeded'',
                   LogFailedFor ''20580'' ''timeout of 15000ms exceeded''],
            sleeps = [1000, 1000] \<rparr>)"
    using a by (simp add: try_object_def process_object_def Let_def log_add_def sleep_def)
  from b g have 2: "fst (process_object \<lparr> response = HttpOk
          ''ISS (ZARYA)\<newline>1 25544U 98067A   24001.50000000  .00016717  00000-0  10270-3 0  9005\<newline>2 25544  51.6000 208.9163 0006700  69.9862  25.2906 15.50000000    12\<newline>'',
        history_error = None, derived_error = None \<rparr> (''25544'', ''user_1'')
       (0, \<lparr> cookies = Some [''chocolatechip=1''], tle_history = [], tle_derived = [],
          requests = [], logins = 1, log = [], sleeps = [] \<rparr>)) = 1"
    and 3: "tle_history (snd (process_object \<lparr> response = HttpOk
          ''ISS (ZARYA)\<newline>1 25544U 98067A   24001.50000000  .00016717  00000-0  10270-3 0  9005\<newline>2 25544  51.6000 208.9163 0006700  69.9862  25.2906 15.50000000    12\<newline>'',
        history_error = None, derived_error = None \<rparr> (''25544'', ''user_1'')
       (0, \<lparr> cookies = Some [''chocolatechip=1''], tle_history = [], tle_derived = [],
          requests = [], logins = 1, log = [], sleeps = [] \<rparr>)))
      = insert_do_nothing history_key (history_row_of (''25544'', ''user_1'')
          (the (element_set \<lparr> response = HttpOk
          ''ISS (ZARYA)\<newline>1 25544U 98067A   24001.50000000  .00016717  00000-0  10270-3 0  9005\<newline>2 25544  51.6000 208.9163 0006700  69.9862  25.2906 15.50000000    12\<newline>'',
        history_error = None, derived_error = None \<rparr>))) []"
    and 4: "tle_derived (snd (process_object \<lparr> response = HttpOk
          ''ISS (ZARYA)\<newline>1 25544U 98067A   24001.50000000  .00016717  00000-0  10270-3 0  9005\<newline>2 25544  51.6000 208.9163 0006700  69.9862  25.2906 15.50000000    12\<newline>'',
        history_error = None, derived_error = None \<rparr> (''25544'', ''user_1'')
       (0, \<lparr> cookies = Some [''chocolatechip=1''], tle_history = [], tle_derived = [],
          requests = [], logins = 1, log = [], sleeps = [] \<rparr>)))
      = insert_do_nothing derived_key (derived_row_of (''25544'', ''user_1'')
          (the (element_set \<lparr> response = HttpOk
          ''ISS (ZARYA)\<newline>1 25544U 98067A   24001.50000000  .00016717  00000-0  10270-3 0  9005\<newline>2 25544  51.6000 208.9163 0006700  69.9862  25.2906 15.50000000    12\<newline>'',
        history_error = None, derived_error = None \<rparr>))) []"
    by simp_all
  show ?thesis
    unfolding 3 4 using f g 1 2
    by (simp add: insert_do_nothing_def history_row_of_def derived_row_of_def)
qed

subsection \<open>The fields of a derived object\<close>

lemma populateDerived_SomeD:
  assumes "populateDerived (Some line1) (Some line2) = Some r"
  shows "line1 \<noteq> []" "line2 \<noteq> []"
    "\<not> falsy_num (parseFloat (slice 52 63 line2))"
    "\<not> js_le (parseFloat (slice 52 63 line2)) (num 0)"
  using assms by (auto simp: populateDerived_body_def Let_def split: if_splits)

text \<open>Each rounded field of a returned object, as the rounding of the value it is
  computed from.\<close>

lemma populateDerived_fields:
  assumes "populateDerived (Some line1) (Some line2) = Some r"
  shows
   "(let meanMotion = parseFloat (slice 52 63 line2);
         periodSec = js_div (num 86400) meanMotion;
         semiMajorAxis =
           Math_cbrt (js_mul GM_KM3_S2 (Math_pow_2 (js_div periodSec (js_mul (num 2) Math_PI))));
         ecc = parseFloat (''0.'' @ slice 26 33 line2)
     in inclination r = round_to 4 (parseFloat (slice 8 16 line2))
      \<and> raan r = round_to 4 (parseFloat (slice 17 25 line2))
      \<and> arg_perigee r = round_to 4 (parseFloat (slice 34 42 line2))
      \<and> mean_anomaly r = round_to 4 (parseFloat (slice 43 51 line2))
      \<and> eccentricity r = round_to 8 ecc
      \<and> mean_motion r = round_to 8 meanMotion
      \<and> semi_major_axis_km r = round_to 4 semiMajorAxis
      \<and> perigee_km r =
          round_to 2 (js_sub (js_mul semiMajorAxis (js_sub (num 1) ecc)) EARTH_RADIUS_KM)
      \<and> apogee_km r =
          round_to 2 (js_sub (js_mul semiMajorAxis (js_add (num 1) ecc)) EARTH_RADIUS_KM)
      \<and> altitude_km r = round_to 2 (js_sub semiMajorAxis EARTH_RADIUS_KM)
      \<and> velocity_kms r =
          round_to 4 (js_div (js_mul (js_mul (num 2) Math_PI) semiMajorAxis) periodSec)
      \<and> orbital_period_minutes r = round_to 4 (js_div periodSec (num 60)))"
  using assms
  by (auto simp: populateDerived_body_def Let_def round_to_def split: if_splits)

text \<open>The three fields that are not rounded.\<close>

lemma unrounded_fields:
  assumes "populateDerived (Some line1) (Some line2) = Some r"
  shows "bstar r =
      (if trim (slice 53 63 line1) \<noteq> []
       then parseFloat (replace (CHR ''-'') ''e-''
              (replace (CHR ''+'') ''e+'' (trim (slice 53 63 line1))))
       else num 0)"
    "mean_motion_dot r =
      (if trim (slice 33 43 line1) \<noteq> [] then parseFloat (trim (slice 33 43 line1)) else num 0)"
    "mean_motion_ddot r =
      (if trim (slice 44 52 line1) \<noteq> [] then parseFloat (trim (slice 44 52 line1)) else num 0)"
  using assms
  by (auto simp: populateDerived_body_def Let_def split: if_splits)

subsection \<open>Rounding keeps numbers and \<open>NaN\<close> apart\<close>

lemma rnd_not_NaN [simp]: "rnd x \<noteq> NaN"
  by (simp add: rnd_def rnd_q_def rnd_pack_def)

lemma after_int_Some: "\<exists>v. after_int ip rest = Some (MNum v)"
  by (cases rest) (auto simp: decimal_value_def)

text \<open>A string that starts with a digit, or with a minus sign and a digit, parses to a
  number.\<close>

lemma parseFloat_digit_start:
  assumes "is_digit c"
  shows "parseFloat (c # t) \<noteq> NaN"
proof -
  note f = is_digit_facts[OF assms]
  have "c \<noteq> CHR ''I''" using assms by (auto simp: is_digit_def)
  then have i: "\<not> startsWith ''Infinity'' (c # t)" by (simp add: startsWith_def)
  have d: "digits (c # t) \<noteq> []" using assms by (simp add: digits_def)
  obtain v where v: "after_int (digits (c # t)) (after_digits (c # t)) = Some (MNum v)"
    using after_int_Some by blast
  have "parseFloat (c # t) = rnd v"
    using f(1,2,3) i d v by (simp add: parseFloat_def trimStart_def unsigned_decimal_def)
  then show ?thesis by simp
qed

lemma parseFloat_minus_digit_start:
  assumes "is_digit c"
  shows "parseFloat (CHR ''-'' # c # t) \<noteq> NaN"
proof -
  have "c \<noteq> CHR ''I''" using assms by (auto simp: is_digit_def)
  then have i: "\<not> startsWith ''Infinity'' (c # t)" by (simp add: startsWith_def)
  have d: "digits (c # t) \<noteq> []" using assms by (simp add: digits_def)
  obtain v where v: "after_int (digits (c # t)) (after_digits (c # t)) = Some (MNum v)"
    using after_int_Some by blast
  have "parseFloat (CHR ''-'' # c # t) = rnd (- v)"
    using i d v by (simp add: parseFloat_def trimStart_def unsigned_decimal_def is_ws_def)
  then show ?thesis by simp
qed

lemma digit_char: "0 \<le> n \<Longrightarrow> n < 10 \<Longrightarrow> is_digit (''0123456789'' ! nat n)"
proof -
  assume "0 \<le> n" "n < 10"
  then have "nat n \<in> {0,1,2,3,4,5,6,7,8,9}" by (simp, arith)
  then show ?thesis by (auto simp: is_digit_def)
qed

lemma digits_of_head: "digits_of n \<noteq> [] \<and> is_digit (hd (digits_of n))"
proof (induction n rule: digits_of.induct)
  case (1 n)
  show ?case
  proof (cases "n < 10")
    case True
    have "is_digit (''0123456789'' ! nat n)"
    proof (cases "0 \<le> n")
      case True
      then show ?thesis using \<open>n < 10\<close> by (rule digit_char)
    next
      case False
      then have "nat n = 0" by simp
      then show ?thesis by (simp add: is_digit_def)
    qed
    with True show ?thesis by (subst digits_of.simps, subst digits_of.simps) simp
  next
    case False
    with "1.IH" have "digits_of (n div 10) \<noteq> []" "is_digit (hd (digits_of (n div 10)))"
      by auto
    with False show ?thesis by (subst digits_of.simps, subst digits_of.simps) simp
  qed
qed

lemma fixed_point_head:
  assumes "m \<noteq> []" "is_digit (hd m)"
  shows "fixed_point f m \<noteq> [] \<and> is_digit (hd (fixed_point f m))"
proof (cases "f = 0")
  case True
  with assms show ?thesis by (simp add: fixed_point_def)
next
  case False
  let ?p = "pad_zeros f m"
  have p: "?p \<noteq> []" "is_digit (hd ?p)" "f < length ?p"
    using assms by (auto simp: pad_zeros_def is_digit_def hd_append)
  then have "take (length ?p - f) ?p \<noteq> []" by simp
  moreover have "hd (take (length ?p - f) ?p) = hd ?p"
    using p(3) by (cases ?p) (auto simp: take_Cons')
  ultimately show ?thesis
    using False p by (simp add: fixed_point_def insert_point_def hd_append)
qed

lemma exp_notation_head:
  assumes "ds \<noteq> []" "is_digit (hd ds)"
  shows "exp_notation ds e \<noteq> [] \<and> is_digit (hd (exp_notation ds e))"
  using assms by (cases ds) (auto simp: exp_notation_def)

lemma big_toString_head: "big_toString x n \<noteq> [] \<and> is_digit (hd (big_toString x n))"
  unfolding big_toString_def using exp_notation_head digits_of_head
  by (auto simp: is_digit_def)

lemma round_to_Fin: "round_to d (Fin x) \<noteq> NaN"
proof -
  define body where
    "body = (if 10 ^ 21 \<le> \<bar>x\<bar> then big_toString \<bar>x\<bar> (int (length (digits_of \<lfloor>\<bar>x\<bar>\<rfloor>)))
             else fixed_point d (digits_of \<lfloor>\<bar>x\<bar> * 10 ^ d + 1 / 2\<rfloor>))"
  have tf: "toFixed (Fin x) d = (if x < 0 then ''-'' else []) @ body"
    by (simp add: body_def)
  have b: "body \<noteq> []" "is_digit (hd body)"
    using big_toString_head
      fixed_point_head[OF conjunct1[OF digits_of_head] conjunct2[OF digits_of_head]]
    by (auto simp: body_def)
  then obtain c t where ct: "body = c # t" "is_digit c" by (cases body) auto
  show ?thesis
    unfolding round_to_def tf ct
    using parseFloat_digit_start[OF ct(2)] parseFloat_minus_digit_start[OF ct(2)] by simp
qed

text \<open>The rounded value is \<open>NaN\<close> exactly when the value that is rounded is.\<close>

lemma round_to_NaN_iff: "isNaN (round_to d x) \<longleftrightarrow> isNaN x"
proof (cases x)
  case NaN
  then show ?thesis by (simp add: round_to_def isNaN_def str_eval)
next
  case PInf
  then show ?thesis by (simp add: round_to_def isNaN_def str_eval)
next
  case NInf
  then show ?thesis by (simp add: round_to_def isNaN_def str_eval)
next
  case (Fin v)
  then show ?thesis using round_to_Fin by (simp add: isNaN_def)
qed

subsection \<open>The quantities computed from the mean motion are numbers\<close>

lemma positive_cases:
  assumes "\<not> falsy_num x" "\<not> js_le x (Fin 0)"
  shows "x = PInf \<or> (\<exists>v. x = Fin v \<and> 0 < v)"
  using assms by (cases x) (auto simp: falsy_num_def js_le_def)

lemma js_div_Fin_not_NaN: "x \<noteq> NaN \<Longrightarrow> b \<noteq> 0 \<Longrightarrow> js_div x (Fin b) \<noteq> NaN"
  by (cases x) auto

lemma js_mul_Fin_not_NaN: "x \<noteq> NaN \<Longrightarrow> a \<noteq> 0 \<Longrightarrow> js_mul (Fin a) x \<noteq> NaN"
  by (cases x) (auto simp: inf_of_sign_def)

lemma js_sub_Fin_not_NaN: "x \<noteq> NaN \<Longrightarrow> js_sub x (Fin b) \<noteq> NaN"
  by (cases x) (auto simp: js_sub_def)

lemma Math_pow_2_not_NaN: "x \<noteq> NaN \<Longrightarrow> Math_pow_2 x \<noteq> NaN"
  by (cases x) auto

lemma js_neg_not_NaN: "x \<noteq> NaN \<Longrightarrow> js_neg x \<noteq> NaN"
  by (cases x) auto

lemma cbrt_pos_not_NaN: "cbrt_pos a \<noteq> NaN"
  by (simp add: cbrt_pos_def cbrt_newton_def cbrt_step_def)

lemma Math_cbrt_not_NaN: "x \<noteq> NaN \<Longrightarrow> Math_cbrt x \<noteq> NaN"
  by (cases x) (simp_all add: cbrt_pos_not_NaN js_neg_not_NaN)

lemma two_pi: "js_mul (num 2) Math_PI = Fin (884279719003555 / 140737488355328)"
  by (simp add: Math_PI_def num_eval)

lemma earth_radius: "EARTH_RADIUS_KM = Fin (7012835795048333 / 1099511627776)"
  by (simp add: EARTH_RADIUS_KM_def num_eval)

lemma gm: "GM_KM3_S2 = Fin (6847903446808605 / 17179869184)"
  by (simp add: GM_KM3_S2_def num_eval)

lemma period_not_NaN:
  assumes "\<not> falsy_num mm" "\<not> js_le mm (Fin 0)"
  shows "js_div (num 86400) mm \<noteq> NaN"
  using positive_cases[OF assms] by auto

lemma semiMajorAxis_not_NaN:
  assumes "\<not> falsy_num mm" "\<not> js_le mm (Fin 0)"
  shows "Math_cbrt (js_mul GM_KM3_S2
           (Math_pow_2 (js_div (js_div (num 86400) mm) (js_mul (num 2) Math_PI)))) \<noteq> NaN"
  unfolding two_pi gm
  by (intro Math_cbrt_not_NaN js_mul_Fin_not_NaN Math_pow_2_not_NaN js_div_Fin_not_NaN
        period_not_NaN[OF assms]) simp_all

subsection \<open>A derived object evaluated\<close>

text \<open>The element set of the end-to-end scenario: mean motion 15.5, inclination 51.6,
  eccentricity field 0006700.\<close>

lemma iss_periodSec:
  "js_div (num 86400) (Fin (31 / 2)) = Fin (3064445310962787 / 549755813888)"
  by (simp add: num_eval)

lemma iss_semiMajorAxis:
  "Math_cbrt (js_mul GM_KM3_S2
     (Math_pow_2 (js_div (Fin (3064445310962787 / 549755813888)) (js_mul (num 2) Math_PI))))
   = Fin (7471030953749787 / 1099511627776)"
  unfolding two_pi gm by (simp add: num_eval cbrt_eval)

lemma iss_eccentricity:
  "parseFloat (''0.'' @ slice 26 33 ''2 25544  51.6000 208.9163 0006700  69.9862  25.2906 15.50000000    12'')
   = Fin (1544914816173175 / 2305843009213693952)"
  by (simp add: str_eval num_eval)

lemma iss_rounded:
  "round_to 8 (Fin (31 / 2)) = Fin (31 / 2)"
  "round_to 8 (Fin (1544914816173175 / 2305843009213693952)) = Fin (1544914816173175 / 2305843009213693952)"
  "round_to 4 (Fin (7471030953749787 / 1099511627776)) = Fin (7471030987596077 / 1099511627776)"
  "round_to 4 (js_div (Fin (3064445310962787 / 549755813888)) (num 60)) = Fin (3268740757043177 / 35184372088832)"
  by (simp_all add: round_to_def fixed_eval str_eval num_eval)

lemma iss_distances:
  "round_to 2 (js_sub (js_mul (Fin (7471030953749787 / 1099511627776)) (js_sub (num 1) (Fin (1544914816173175 / 2305843009213693952)))) EARTH_RADIUS_KM)
   = Fin (7250971321926943 / 17592186044416)"
  "round_to 2 (js_sub (js_mul (Fin (7471030953749787 / 1099511627776)) (js_add (num 1) (Fin (1544914816173175 / 2305843009213693952)))) EARTH_RADIUS_KM)
   = Fin (1852809034197893 / 4398046511104)"
  "round_to 2 (js_sub (Fin (7471030953749787 / 1099511627776)) EARTH_RADIUS_KM) = Fin (916398961286185 / 2199023255552)"
  unfolding earth_radius
  by (simp_all add: round_to_def js_sub_def fixed_eval str_eval num_eval)

lemma iss_velocity:
  "round_to 4 (js_div (js_mul (js_mul (num 2) Math_PI) (Fin (7471030953749787 / 1099511627776))) (Fin (3064445310962787 / 549755813888)))
   = Fin (8623379976498341 / 1125899906842624)"
  unfolding two_pi
  by (simp add: round_to_def fixed_eval str_eval num_eval)

lemma iss_angles:
  "round_to 4 (parseFloat (slice 8 16 ''2 25544  51.6000 208.9163 0006700  69.9862  25.2906 15.50000000    12''))
   = Fin (7262054399134925 / 140737488355328)"
  "round_to 4 (parseFloat (slice 17 25 ''2 25544  51.6000 208.9163 0006700  69.9862  25.2906 15.50000000    12''))
   = Fin (7350588834622053 / 35184372088832)"
  "round_to 4 (parseFloat (slice 34 42 ''2 25544  51.6000 208.9163 0006700  69.9862  25.2906 15.50000000    12''))
   = Fin (1231210250941707 / 17592186044416)"
  "round_to 4 (parseFloat (slice 43 51 ''2 25544  51.6000 208.9163 0006700  69.9862  25.2906 15.50000000    12''))
   = Fin (7118671045998517 / 281474976710656)"
  by (simp_all add: round_to_def fixed_eval str_eval num_eval)

lemma iss_unrounded:
  "trim (slice 53 63 ''1 25544U 98067A   24001.50000000  .00016717  00000-0  10270-3 0  9005'') = ''10270-3 0''"
  "parseFloat (replace (CHR ''-'') ''e-'' (replace (CHR ''+'') ''e+'' ''10270-3 0''))
   = Fin (2890748010818437 / 281474976710656)"
  "trim (slice 33 43 ''1 25544U 98067A   24001.50000000  .00016717  00000-0  10270-3 0  9005'') = ''.00016717''"
  "parseFloat ''.00016717'' = Fin (6167484413604051 / 36893488147419103232)"
  "trim (slice 44 52 ''1 25544U 98067A   24001.50000000  .00016717  00000-0  10270-3 0  9005'') = ''00000-0''"
  "parseFloat ''00000-0'' = Fin 0"
  by (simp_all add: str_eval num_eval)

lemma iss_derived:
  "populateDerived (Some ''1 25544U 98067A   24001.50000000  .00016717  00000-0  10270-3 0  9005'') (Some ''2 25544  51.6000 208.9163 0006700  69.9862  25.2906 15.50000000    12'')
   = Some \<lparr> inclination = Fin (7262054399134925 / 140737488355328),
            eccentricity = Fin (1544914816173175 / 2305843009213693952),
            mean_motion = Fin (31 / 2),
            semi_major_axis_km = Fin (7471030987596077 / 1099511627776),
            perigee_km = Fin (7250971321926943 / 17592186044416),
            apogee_km = Fin (1852809034197893 / 4398046511104),
            orbital_period_minutes = Fin (3268740757043177 / 35184372088832),
            altitude_km = Fin (916398961286185 / 2199023255552),
            velocity_kms = Fin (8623379976498341 / 1125899906842624),
            raan = Fin (7350588834622053 / 35184372088832),
            arg_perigee = Fin (1231210250941707 / 17592186044416),
            mean_anomaly = Fin (7118671045998517 / 281474976710656),
            bstar = Fin (2890748010818437 / 281474976710656),
            mean_motion_dot = Fin (6167484413604051 / 36893488147419103232),
            mean_motion_ddot = Fin 0 \<rparr>"
proof -
  from iss_accepted obtain r where r: "populateDerived (Some ''1 25544U 98067A   24001.50000000  .00016717  00000-0  10270-3 0  9005'') (Some ''2 25544  51.6000 208.9163 0006700  69.9862  25.2906 15.50000000    12'') = Some r" ..
  note f = populateDerived_fields[OF r, unfolded Let_def iss_mean_motion iss_periodSec
      iss_semiMajorAxis iss_eccentricity iss_rounded iss_distances iss_velocity iss_angles]
  note u = unrounded_fields[OF r, unfolded iss_unrounded]
  have "r = \<lparr> inclination = Fin (7262054399134925 / 140737488355328),
            eccentricity = Fin (1544914816173175 / 2305843009213693952),
            mean_motion = Fin (31 / 2),
            semi_major_axis_km = Fin (7471030987596077 / 1099511627776),
            perigee_km = Fin (7250971321926943 / 17592186044416),
            apogee_km = Fin (1852809034197893 / 4398046511104),
            orbital_period_minutes = Fin (3268740757043177 / 35184372088832),
            altitude_km = Fin (916398961286185 / 2199023255552),
            velocity_kms = Fin (8623379976498341 / 1125899906842624),
            raan = Fin (7350588834622053 / 35184372088832),
            arg_perigee = Fin (1231210250941707 / 17592186044416),
            mean_anomaly = Fin (7118671045998517 / 281474976710656),
            bstar = Fin (2890748010818437 / 281474976710656),
            mean_motion_dot = Fin (6167484413604051 / 36893488147419103232),
            mean_motion_ddot = Fin 0 \<rparr>"
    using f u by (cases r) simp
  with r show ?thesis by simp
qed

subsection \<open>Digit strings\<close>

lemma digit_val_char: "0 \<le> n \<Longrightarrow> n < 10 \<Longrightarrow> digit_val (''0123456789'' ! nat n) = n"
proof -
  assume a: "0 \<le> n" "n < 10"
  then have "nat n \<in> {0,1,2,3,4,5,6,7,8,9}" by (simp, arith)
  then have "digit_val (''0123456789'' ! nat n) = int (nat n)"
    by (auto simp: digit_val_def)
  with a show ?thesis by simp
qed

lemma digits_val_snoc: "digits_val (ds @ [c]) = 10 * digits_val ds + digit_val c"
  by (simp add: digits_val_def)

lemma digits_val_Nil: "digits_val [] = 0"
  by (simp add: digits_val_def)

lemma digits_val_append: "digits_val (a @ b) = digits_val a * 10 ^ length b + digits_val b"
proof (induction b rule: rev_induct)
  case Nil
  then show ?case by (simp add: digits_val_Nil)
next
  case (snoc c b)
  have "digits_val (a @ b @ [c]) = 10 * digits_val (a @ b) + digit_val c"
    using digits_val_snoc[of "a @ b" c] by simp
  then show ?case by (simp add: snoc digits_val_snoc algebra_simps)
qed

lemma digits_val_zeros: "digits_val (replicate k (CHR ''0'') @ m) = digits_val m"
proof -
  have "digits_val (replicate k (CHR ''0'')) = 0"
  proof (induction k)
    case 0
    then show ?case by (simp add: digits_val_Nil)
  next
    case (Suc k)
    have "replicate (Suc k) (CHR ''0'') = replicate k (CHR ''0'') @ [CHR ''0'']"
      by (simp add: replicate_append_same)
    then show ?case using Suc by (simp only: digits_val_snoc) (simp add: digit_val_def)
  qed
  then show ?thesis by (simp add: digits_val_append)
qed

lemma digits_val_digits_of: "0 \<le> n \<Longrightarrow> digits_val (digits_of n) = n"
proof (induction n rule: digits_of.induct)
  case (1 n)
  show ?case
  proof (cases "n < 10")
    case True
    then have "digits_of n = [''0123456789'' ! nat n]" by (subst digits_of.simps) simp
    then show ?thesis
      using digit_val_char[OF "1.prems" True] digits_val_snoc[of "[]"]
      by (simp add: digits_val_Nil)
  next
    case False
    then have e: "digits_of n = digits_of (n div 10) @ [''0123456789'' ! nat (n mod 10)]"
      by (subst digits_of.simps) simp
    have "digits_val (digits_of (n div 10)) = n div 10" using "1.IH" False "1.prems" by simp
    moreover have "digit_val (''0123456789'' ! nat (n mod 10)) = n mod 10"
      by (rule digit_val_char) simp_all
    ultimately show ?thesis unfolding e digits_val_snoc by simp
  qed
qed

lemma digits_of_digits: "c \<in> set (digits_of n) \<Longrightarrow> is_digit c"
proof (induction n arbitrary: c rule: digits_of.induct)
  case (1 n)
  show ?case
  proof (cases "n < 10")
    case True
    then have e: "digits_of n = [''0123456789'' ! nat n]" by (subst digits_of.simps) simp
    have "is_digit (''0123456789'' ! nat n)"
    proof (cases "0 \<le> n")
      case True
      then show ?thesis using \<open>n < 10\<close> by (rule digit_char)
    next
      case False
      then have "nat n = 0" by simp
      then show ?thesis by (simp add: is_digit_def)
    qed
    with "1.prems" e show ?thesis by simp
  next
    case False
    then have e: "digits_of n = digits_of (n div 10) @ [''0123456789'' ! nat (n mod 10)]"
      by (subst digits_of.simps) simp
    have "is_digit (''0123456789'' ! nat (n mod 10))" by (rule digit_char) simp_all
    with "1.prems" "1.IH"[OF False] show ?thesis unfolding e by auto
  qed
qed

lemma length_digits_of:
  "0 < n \<Longrightarrow> 10 ^ (length (digits_of n) - 1) \<le> n \<and> n < 10 ^ length (digits_of n)"
proof (induction n rule: digits_of.induct)
  case (1 n)
  show ?case
  proof (cases "n < 10")
    case True
    then have e: "digits_of n = [''0123456789'' ! nat n]" by (subst digits_of.simps) simp
    show ?thesis unfolding e using True "1.prems" by simp
  next
    case False
    then have e: "digits_of n = digits_of (n div 10) @ [''0123456789'' ! nat (n mod 10)]"
      by (subst digits_of.simps) simp
    from False have p: "0 < n div 10" by simp
    from "1.IH"[OF False p]
    have ih: "10 ^ (length (digits_of (n div 10)) - 1) \<le> n div 10"
      "n div 10 < 10 ^ length (digits_of (n div 10))" by auto
    have l: "0 < length (digits_of (n div 10))" using digits_of_head[of "n div 10"] by simp
    then obtain m where m: "length (digits_of (n div 10)) = Suc m" by (cases "length (digits_of (n div 10))") auto
    have "10 * 10 ^ m \<le> n" using ih(1) unfolding m by simp
    moreover have "n < 10 * 10 ^ Suc m" using ih(2) unfolding m by simp
    ultimately show ?thesis unfolding e by (simp add: m)
  qed
qed

lemma digits_append:
  assumes "\<forall>c\<in>set ds. is_digit c" "rest = [] \<or> \<not> is_digit (hd rest)"
  shows "digits (ds @ rest) = ds" "after_digits (ds @ rest) = rest"
proof -
  have a: "takeWhile is_digit rest = []" "dropWhile is_digit rest = rest"
    using assms(2) by (cases rest; simp)+
  show "digits (ds @ rest) = ds"
    unfolding digits_def using assms(1) a by simp
  show "after_digits (ds @ rest) = rest"
    unfolding after_digits_def using assms(1) a by simp
qed

subsection \<open>Parsing digit strings\<close>

lemma unsigned_decimal_digits:
  assumes "ip \<noteq> []" "\<forall>c\<in>set ip. is_digit c" "rest = [] \<or> \<not> is_digit (hd rest)"
  shows "unsigned_decimal (ip @ rest) = after_int ip rest"
proof -
  obtain c t where ct: "ip = c # t" using assms(1) by (cases ip) auto
  with assms(2) have "is_digit c" by simp
  then have "c \<noteq> CHR ''I''" by (auto simp: is_digit_def)
  then have i: "\<not> startsWith ''Infinity'' (ip @ rest)" by (simp add: startsWith_def ct)
  show ?thesis
    unfolding unsigned_decimal_def digits_append[OF assms(2,3)] using i assms(1) by simp
qed

lemma parseFloat_digits:
  assumes "ip \<noteq> []" "\<forall>c\<in>set ip. is_digit c" "rest = [] \<or> \<not> is_digit (hd rest)"
  shows "parseFloat (ip @ rest) = to_number (map_option (Pair False) (after_int ip rest))"
    "parseFloat (CHR ''-'' # ip @ rest) = to_number (map_option (Pair True) (after_int ip rest))"
proof -
  obtain c t where ct: "ip = c # t" using assms(1) by (cases ip) auto
  with assms(2) have d: "is_digit c" by simp
  note f = is_digit_facts[OF d]
  have t: "trimStart (ip @ rest) = ip @ rest" using f(1) by (simp add: trimStart_def ct)
  have "str_decimal (ip @ rest) = map_option (Pair False) (unsigned_decimal (ip @ rest))"
    using f(2,3) by (simp add: ct)
  then show "parseFloat (ip @ rest) = to_number (map_option (Pair False) (after_int ip rest))"
    unfolding parseFloat_def t unsigned_decimal_digits[OF assms] by simp
  have t': "trimStart (CHR ''-'' # ip @ rest) = CHR ''-'' # ip @ rest"
    by (simp add: trimStart_def is_ws_def)
  show "parseFloat (CHR ''-'' # ip @ rest) = to_number (map_option (Pair True) (after_int ip rest))"
    unfolding parseFloat_def t' by (simp add: unsigned_decimal_digits[OF assms])
qed

lemma after_int_end: "after_int ip [] = Some (MNum (of_int (digits_val ip)))"
  by (simp add: decimal_value_def digits_val_Nil pow10_def)

lemma after_int_fraction:
  assumes "\<forall>c\<in>set fp. is_digit c"
  shows "after_int ip (CHR ''.'' # fp)
    = Some (MNum (of_int (digits_val ip) + of_int (digits_val fp) / 10 ^ length fp))"
  using digits_append[OF assms, of "[]"]
  by (simp add: decimal_value_def pow10_def)

lemma exponent_part_plus:
  assumes "E \<noteq> []" "\<forall>c\<in>set E. is_digit c"
  shows "exponent_part (''e+'' @ E) = digits_val E"
  using digits_append[OF assms(2), of "[]"] assms(1) by simp

lemma after_int_exponent:
  assumes "E \<noteq> []" "\<forall>c\<in>set E. is_digit c"
  shows "after_int ip (''e+'' @ E) = Some (MNum (of_int (digits_val ip) * pow10 (digits_val E)))"
  using exponent_part_plus[OF assms]
  by (simp add: decimal_value_def digits_val_Nil)

lemma after_int_fraction_exponent:
  assumes "\<forall>c\<in>set fp. is_digit c" "E \<noteq> []" "\<forall>c\<in>set E. is_digit c"
  shows "after_int ip (CHR ''.'' # fp @ ''e+'' @ E)
    = Some (MNum ((of_int (digits_val ip) + of_int (digits_val fp) / 10 ^ length fp)
                  * pow10 (digits_val E)))"
proof -
  have "\<not> is_digit (hd (''e+'' @ E))" by (simp add: is_digit_def)
  then have r: "''e+'' @ E = [] \<or> \<not> is_digit (hd (''e+'' @ E))" by blast
  show ?thesis
    using digits_append[OF assms(1) r] exponent_part_plus[OF assms(2,3)]
    by (simp add: decimal_value_def)
qed

subsection \<open>Rounding a value below \<open>10\<^sup>2\<^sup>1\<close>\<close>

text \<open>\<open>toFixed\<close> prints the nearest decimal with \<open>d\<close> fraction digits and \<open>parseFloat\<close> reads
  it back.\<close>

lemma to_number_MNum:
  "to_number (map_option (Pair False) (Some (MNum v))) = rnd v"
  "to_number (map_option (Pair True) (Some (MNum v))) = rnd (- v)"
  by simp_all

lemma parseFloat_fixed_point:
  assumes "m \<noteq> []" "\<forall>c\<in>set m. is_digit c"
  shows "parseFloat (fixed_point d m) = rnd (of_int (digits_val m) / 10 ^ d)"
    "parseFloat (CHR ''-'' # fixed_point d m) = rnd (- (of_int (digits_val m) / 10 ^ d))"
proof -
  have "parseFloat (fixed_point d m) = rnd (of_int (digits_val m) / 10 ^ d)
      \<and> parseFloat (CHR ''-'' # fixed_point d m) = rnd (- (of_int (digits_val m) / 10 ^ d))"
  proof (cases "d = 0")
    case True
    have r: "([]::string) = [] \<or> \<not> is_digit (hd [])" by simp
    note a = parseFloat_digits[OF assms r]
    note b = a[unfolded after_int_end]
    have "fixed_point d m = m" by (simp add: True fixed_point_def)
    then show ?thesis using b by (simp add: True)
  next
    case False
    define p where "p = pad_zeros d m"
    define ip where "ip = take (length p - d) p"
    define fp where "fp = drop (length p - d) p"
    have z: "is_digit (CHR ''0'')" by (simp add: is_digit_def)
    have pd: "\<forall>c\<in>set p. is_digit c" using assms(2) z by (auto simp: p_def pad_zeros_def)
    have pl: "d < length p" by (auto simp: p_def pad_zeros_def)
    have pv: "digits_val p = digits_val m" by (simp add: p_def pad_zeros_def digits_val_zeros)
    have ip: "ip \<noteq> []" "\<forall>c\<in>set ip. is_digit c"
      using pl pd by (auto simp: ip_def dest: in_set_takeD)
    have fp: "\<forall>c\<in>set fp. is_digit c" "length fp = d"
      using pl pd by (auto simp: fp_def dest: in_set_dropD)
    have "p = ip @ fp" by (simp add: ip_def fp_def)
    then have v: "digits_val m = digits_val ip * 10 ^ d + digits_val fp"
      using digits_val_append[of ip fp] pv fp(2) by simp
    have e: "fixed_point d m = ip @ CHR ''.'' # fp"
      using False by (simp add: fixed_point_def insert_point_def p_def ip_def fp_def)
    have r: "CHR ''.'' # fp = [] \<or> \<not> is_digit (hd (CHR ''.'' # fp))" by (simp add: is_digit_def)
    have val: "real_of_int (digits_val ip) + real_of_int (digits_val fp) / 10 ^ d
        = real_of_int (digits_val m) / 10 ^ d"
      unfolding v by (simp add: field_simps)
    from parseFloat_digits[OF ip r] show ?thesis
      unfolding e after_int_fraction[OF fp(1)] fp(2) to_number_MNum val by simp
  qed
  then show "parseFloat (fixed_point d m) = rnd (of_int (digits_val m) / 10 ^ d)"
    "parseFloat (CHR ''-'' # fixed_point d m) = rnd (- (of_int (digits_val m) / 10 ^ d))"
    by simp_all
qed

lemma round_to_small:
  assumes "\<bar>x\<bar> < 10 ^ 21"
  shows "round_to d (Fin x) = rounded_to_decimals d (Fin x)"
proof -
  define N where "N = \<lfloor>\<bar>x\<bar> * 10 ^ d + 1 / 2\<rfloor>"
  have "0 \<le> \<bar>x\<bar> * 10 ^ d + 1 / 2" by simp
  then have N0: "0 \<le> N" unfolding N_def by linarith
  have m: "digits_of N \<noteq> []" "\<forall>c\<in>set (digits_of N). is_digit c"
    using digits_of_head[of N] digits_of_digits by auto
  note p = parseFloat_fixed_point[OF m, of d, unfolded digits_val_digits_of[OF N0]]
  have tf: "toFixed (Fin x) d = (if x < 0 then ''-'' else []) @ fixed_point d (digits_of N)"
    using assms by (simp add: N_def)
  have rd: "rounded_to_decimals d (Fin x)
      = rnd ((if x < 0 then - 1 else 1) * (of_int N / 10 ^ d))"
    by (simp add: rounded_to_decimals_def N_def)
  show ?thesis unfolding round_to_def tf rd using p by simp
qed

subsection \<open>Large binary64 values\<close>

text \<open>A value that \<open>rnd\<close> returns is below \<open>2\<^sup>1\<^sup>0\<^sup>2\<^sup>4\<close>, and from \<open>10\<^sup>2\<^sup>1\<close> on it is an integer with
  at most 53 significant bits, which rounding leaves alone.\<close>

lemma pow2_pos: "0 < pow2 e"
  by (simp add: pow2_def)

lemma pow2_nat: "0 \<le> e \<Longrightarrow> pow2 e = 2 ^ nat e"
  by (simp add: pow2_def)

lemma pow2_le_1: "e \<le> 0 \<Longrightarrow> pow2 e \<le> 1"
  by (cases "e = 0") (simp_all add: pow2_def field_simps)

lemma round_half_even_bounds:
  "of_int (round_half_even r) \<le> r + 1" "r - 1 \<le> of_int (round_half_even r)"
  unfolding round_half_even_def half_even_def by (auto; linarith)+

lemma round_half_even_nonneg: "0 \<le> r \<Longrightarrow> 0 \<le> round_half_even r"
proof -
  assume "0 \<le> r"
  then have "0 \<le> \<lfloor>r\<rfloor>" by simp
  then show ?thesis unfolding round_half_even_def half_even_def by auto
qed

lemma round_half_even_le:
  assumes "r \<le> of_int m"
  shows "round_half_even r \<le> m"
proof -
  have f: "\<lfloor>r\<rfloor> \<le> m" using assms by (simp add: floor_le_iff) 
  show ?thesis
  proof (cases "\<lfloor>r\<rfloor> = m")
    case True
    then have "r = of_int m" using assms by (metis of_int_floor_le order_antisym)
    then show ?thesis by (simp add: round_half_even_of_int)
  next
    case False
    with f have "\<lfloor>r\<rfloor> + 1 \<le> m" by simp
    then show ?thesis unfolding round_half_even_def half_even_def by auto
  qed
qed

lemma round_half_even_ge:
  assumes "of_int m \<le> r"
  shows "m \<le> round_half_even r"
proof -
  have "m \<le> \<lfloor>r\<rfloor>" using assms by (simp add: le_floor_iff)
  then show ?thesis unfolding round_half_even_def half_even_def by auto
qed

lemma rnd_cases:
  assumes "rnd w = Fin v"
  obtains "w = 0" "v = 0"
  | q where "w \<noteq> 0" "q = pow2 (max (ilog2 \<bar>w\<bar>) (- 1022) - 52)"
      "\<bar>v\<bar> = of_int (round_half_even (\<bar>w\<bar> / q)) * q" "\<bar>v\<bar> < pow2 1024"
      "(0 < v \<longrightarrow> 0 < w)" "(v < 0 \<longrightarrow> w < 0)"
proof (cases "w = 0")
  case True
  with assms have "v = 0" by (simp add: rnd_def)
  with True that(1) show ?thesis by blast
next
  case False
  define q where "q = pow2 (max (ilog2 \<bar>w\<bar>) (- 1022) - 52)"
  define y where "y = of_int (round_half_even (\<bar>w\<bar> / q)) * q"
  have q0: "0 < q" by (simp add: q_def pow2_pos)
  have "0 \<le> \<bar>w\<bar> / q" using q0 by simp
  then have "0 \<le> round_half_even (\<bar>w\<bar> / q)" by (rule round_half_even_nonneg)
  then have y0: "0 \<le> y" using q0 by (simp add: y_def)
  from assms False have p: "rnd_pack w y = Fin v"
    by (simp add: rnd_def rnd_q_def q_def y_def)
  then have lt: "y < pow2 1024" and v: "v = (if 0 < w then y else - y)"
    by (auto simp: rnd_pack_def split: if_splits)
  have "\<bar>v\<bar> = y" using v y0 by simp
  moreover have "0 < v \<longrightarrow> 0 < w" "v < 0 \<longrightarrow> w < 0" using v y0 False by (auto split: if_splits)
  ultimately show ?thesis using that(2)[of q] False lt by (simp add: q_def y_def)
qed

lemma rnd_bounded: "rnd w = Fin v \<Longrightarrow> \<bar>v\<bar> < pow2 1024"
  by (erule rnd_cases) (simp_all add: pow2_pos)
lemma ilog2_upper:
  assumes "1 \<le> a"
  shows "0 \<le> ilog2 a" "a < 2 ^ nat (ilog2 a + 1)"
proof -
  have f: "0 < \<lfloor>a\<rfloor>" using assms by simp
  have bp: "0 < bitlen \<lfloor>a\<rfloor>"
    using f by (subst bitlen.simps) (simp add: add_pos_nonneg bitlen_nonneg)
  have il: "ilog2 a = bitlen \<lfloor>a\<rfloor> - 1" using assms by (simp add: ilog2_def)
  show "0 \<le> ilog2 a" using bp il by simp
  from bitlen_bounds[OF f] have "\<lfloor>a\<rfloor> + 1 \<le> 2 ^ nat (bitlen \<lfloor>a\<rfloor>)" by simp
  then have "real_of_int (\<lfloor>a\<rfloor> + 1) \<le> real_of_int (2 ^ nat (bitlen \<lfloor>a\<rfloor>))"
    by (rule of_int_le_iff[THEN iffD2])
  then have b: "real_of_int \<lfloor>a\<rfloor> + 1 \<le> 2 ^ nat (bitlen \<lfloor>a\<rfloor>)" by simp
  have c: "a < real_of_int \<lfloor>a\<rfloor> + 1" by linarith
  have "a < 2 ^ nat (bitlen \<lfloor>a\<rfloor>)" using b c by (rule less_le_trans[rotated])
  then show "a < 2 ^ nat (ilog2 a + 1)" unfolding il by simp
qed

lemma ilog2_small: "a < 1 \<Longrightarrow> ilog2 a \<le> 0"
  using bitlen_nonneg[of "\<lceil>1 / a\<rceil> - 1"] by (simp add: ilog2_def)

lemma rnd_big_form:
  assumes "rnd w = Fin v" "10 ^ 21 \<le> \<bar>v\<bar>"
  shows "\<exists>k j. \<bar>v\<bar> = of_int k * 2 ^ j \<and> 0 < k \<and> k \<le> 2 ^ 53"
  using assms(1)
proof (cases rule: rnd_cases)
  case 1
  with assms(2) show ?thesis by simp
next
  case (2 q)
  define a where "a = \<bar>w\<bar>"
  define k where "k = round_half_even (a / q)"
  have q0: "0 < q" using 2(2) by (simp add: pow2_pos)
  have v: "\<bar>v\<bar> = of_int k * q" using 2(3) by (simp add: k_def a_def)
  have a1: "1 \<le> a"
  proof (rule ccontr)
    assume "\<not> 1 \<le> a"
    then have s: "a < 1" by simp
    then have "max (ilog2 a) (- 1022) - 52 \<le> 0" using ilog2_small[OF s] by simp
    then have "q \<le> 1" unfolding 2(2) a_def[symmetric] by (rule pow2_le_1)
    moreover have "of_int k \<le> a / q + 1" unfolding k_def by (rule round_half_even_bounds)
    then have "of_int k * q \<le> a + q" using q0 by (simp add: field_simps)
    ultimately have "\<bar>v\<bar> < 2" using s v by simp
    with assms(2) show False by simp
  qed
  note u = ilog2_upper[OF a1]
  have e: "max (ilog2 a) (- 1022) = ilog2 a" using u(1) by simp
  have qe: "q = pow2 (ilog2 a - 52)" using 2(2) e by (simp add: a_def)
  have k53: "k \<le> 2 ^ 53"
  proof -
    have "a / q \<le> 2 ^ 53"
    proof (cases "52 \<le> ilog2 a")
      case True
      then have "q = 2 ^ nat (ilog2 a - 52)" unfolding qe by (simp add: pow2_nat)
      moreover have "nat (ilog2 a + 1) = nat (ilog2 a - 52) + 53" using True by simp
      ultimately have "2 ^ nat (ilog2 a + 1) = q * 2 ^ 53" by (simp add: power_add)
      with u(2) have "a < q * 2 ^ 53" by simp
      then show ?thesis using q0 by (simp add: field_simps)
    next
      case False
      then have n: "nat (- (ilog2 a - 52)) + nat (ilog2 a + 1) = 53" using u(1) by simp
      have "q = 1 / 2 ^ nat (- (ilog2 a - 52))" unfolding qe using False by (simp add: pow2_def)
      then have "a / q = a * 2 ^ nat (- (ilog2 a - 52))" by simp
      also have "\<dots> \<le> 2 ^ nat (ilog2 a + 1) * 2 ^ nat (- (ilog2 a - 52))"
        using u(2) by simp
      also have "\<dots> = 2 ^ 53" using n by (simp add: power_add[symmetric] add.commute)
      finally show ?thesis .
    qed
    then have "a / q \<le> of_int (2 ^ 53)" by simp
    then show ?thesis unfolding k_def by (rule round_half_even_le)
  qed
  have kpos: "0 < k"
  proof (rule ccontr)
    assume "\<not> 0 < k"
    then have "of_int k * q \<le> 0" using q0 by (simp add: mult_le_0_iff)
    with v assms(2) show False by simp
  qed
  have big: "52 \<le> ilog2 a"
  proof (rule ccontr)
    assume "\<not> 52 \<le> ilog2 a"
    then have "ilog2 a - 52 \<le> 0" by simp
    then have "q \<le> 1" unfolding qe by (rule pow2_le_1)
    moreover have "real_of_int k \<le> 2 ^ 53" using k53 by (metis of_int_le_numeral_power_cancel_iff)
    moreover have "0 < real_of_int k" using kpos by simp
    ultimately have "of_int k * q \<le> 2 ^ 53 * 1" using q0 by (intro mult_mono) simp_all
    with v assms(2) show False by simp
  qed
  then have "q = 2 ^ nat (ilog2 a - 52)" unfolding qe by (simp add: pow2_nat)
  with v kpos k53 show ?thesis by blast
qed

lemma bitlen_pos: "0 < n \<Longrightarrow> 0 < bitlen n"
  by (subst bitlen.simps) (simp add: add_pos_nonneg bitlen_nonneg)

lemma bitlen_double: "0 < n \<Longrightarrow> bitlen (2 * n) = 1 + bitlen n"
  by (subst bitlen.simps) simp

lemma bitlen_shift: "0 < k \<Longrightarrow> bitlen (k * 2 ^ j) = bitlen k + int j"
proof (induction j)
  case 0
  then show ?case by simp
next
  case (Suc j)
  have e: "k * 2 ^ Suc j = 2 * (k * 2 ^ j)" by simp
  have p: "0 < k * 2 ^ j" using Suc.prems by simp
  show ?case unfolding e bitlen_double[OF p] Suc.IH[OF Suc.prems] by simp
qed

lemma bitlen_le:
  assumes "0 < n" "n \<le> 2 ^ m"
  shows "bitlen n \<le> int m + 1"
proof -
  from bitlen_bounds[OF assms(1), THEN conjunct1] assms(2)
  have "(2::int) ^ nat (bitlen n - 1) \<le> 2 ^ m" by (rule order_trans)
  then have "nat (bitlen n - 1) \<le> m" by (simp add: power_increasing_iff)
  then show ?thesis by simp
qed

lemma bitlen_gt:
  assumes "2 ^ m \<le> n"
  shows "int m < bitlen n"
proof -
  have "(0::int) < 2 ^ m" by simp
  with assms have p: "0 < n" by linarith
  from assms bitlen_bounds[OF p, THEN conjunct2]
  have "(2::int) ^ m < 2 ^ nat (bitlen n)" by (rule le_less_trans)
  then have "m < nat (bitlen n)" by (simp add: power_strict_increasing_iff)
  then show ?thesis by simp
qed

lemma big_exact:
  assumes "\<bar>v\<bar> = of_int k * 2 ^ j" "0 < k" "k \<le> 2 ^ 53" "10 ^ 21 \<le> \<bar>v\<bar>" "\<bar>v\<bar> < pow2 1024"
  shows "rnd v = Fin v" "of_int \<lfloor>v\<rfloor> = v"
proof -
  define M where "M = k * 2 ^ j"
  have a: "\<bar>v\<bar> = of_int M" using assms(1) by (simp add: M_def)
  have Mpos: "0 < M" using assms(2) by (simp add: M_def)
  have "v = of_int M \<or> v = of_int (- M)" using a by (cases "0 \<le> v") auto
  then show "of_int \<lfloor>v\<rfloor> = v" by (metis floor_of_int)
  have "(10::real) ^ 21 \<le> of_int M" using assms(4) a by simp
  then have "(10::int) ^ 21 \<le> M" by (metis of_int_le_iff of_int_numeral of_int_power)
  then have "(2::int) ^ 53 \<le> M" by simp
  then have g: "53 < bitlen M" using bitlen_gt[of 53 M] by simp
  define b where "b = bitlen k"
  have bM: "bitlen M = b + int j" unfolding M_def b_def using assms(2) by (rule bitlen_shift)
  have b54: "b \<le> 54" using bitlen_le[OF assms(2,3)] by (simp add: b_def)
  define t where "t = nat (b + int j - 53)"
  have tpos: "b + int j - 53 = int t" using g bM by (simp add: t_def)
  have a1: "1 \<le> \<bar>v\<bar>" using assms(4) by simp
  have il: "ilog2 \<bar>v\<bar> = bitlen M - 1" using a1 unfolding a by (simp add: ilog2_def)
  have q: "pow2 (max (ilog2 \<bar>v\<bar>) (- 1022) - 52) = 2 ^ t"
    using g tpos bM unfolding il by (simp add: pow2_def max_def)
  have dv: "2 ^ t dvd M"
  proof (cases "b \<le> 53")
    case True
    then have "t \<le> j" using tpos by simp
    then have "(2::int) ^ t dvd 2 ^ j" by (rule le_imp_power_dvd)
    then show ?thesis unfolding M_def by simp
  next
    case False
    with b54 have b: "b = 54" by simp
    have "(2::int) ^ 53 \<le> k"
    proof -
      from bitlen_bounds[OF assms(2)] have "2 ^ nat (bitlen k - 1) \<le> k" by simp
      then show ?thesis using b by (simp add: b_def)
    qed
    with assms(3) have k: "k = 2 ^ 53" by simp
    have "t = j + 1" using tpos b by simp
    then have "M = 2 ^ t * 2 ^ 52" unfolding M_def k by (simp add: power_add)
    then show ?thesis by simp
  qed
  then obtain m where m: "M = 2 ^ t * m" by (auto simp: dvd_def)
  have d: "\<bar>v\<bar> / 2 ^ t = of_int m" unfolding a m by simp
  have y: "real_of_int m * 2 ^ t = \<bar>v\<bar>" unfolding a m by simp
  have nz: "v \<noteq> 0" using assms(4) by auto
  show "rnd v = Fin v"
    unfolding rnd_def rnd_q_def q d round_half_even_of_int y rnd_pack_def
    using nz assms(5) by auto
qed

lemma binary64_rnd: "binary64 (rnd w)"
proof (cases "rnd w")
  case (Fin v)
  have "10 ^ 21 \<le> \<bar>v\<bar> \<longrightarrow> rnd v = Fin v \<and> of_int \<lfloor>v\<rfloor> = v"
  proof
    assume b: "10 ^ 21 \<le> \<bar>v\<bar>"
    from rnd_big_form[OF Fin b] obtain k j where
      "\<bar>v\<bar> = of_int k * 2 ^ j" "0 < k" "k \<le> 2 ^ 53" by blast
    from big_exact[OF this b rnd_bounded[OF Fin]] show "rnd v = Fin v \<and> of_int \<lfloor>v\<rfloor> = v"
      by simp
  qed
  with rnd_bounded[OF Fin] show ?thesis by (simp add: binary64_def Fin)
qed (simp_all add: binary64_def)

subsection \<open>Rounding a value from \<open>10\<^sup>2\<^sup>1\<close> on\<close>

text \<open>\<open>toFixed\<close> prints such a value in exponent notation, with the shortest digit string
  that rounds to it, so \<open>parseFloat\<close> reads the value back.\<close>

lemma round_half_even_near: "\<bar>of_int (round_half_even r) - r\<bar> \<le> 1 / 2"
  unfolding round_half_even_def half_even_def by (auto; linarith)+

lemma rnd_minus: "rnd (- y) = js_neg (rnd y)"
  by (cases "y = 0") (auto simp: rnd_def rnd_q_def rnd_pack_def)

lemma pow10_nat: "0 \<le> e \<Longrightarrow> pow10 e = 10 ^ nat e"
  by (simp add: pow10_def)

lemma shortest_found:
  "k \<le> n \<Longrightarrow> rnd x = Fin x \<Longrightarrow> of_int \<lfloor>x\<rfloor> = x \<Longrightarrow>
    \<exists>k'. k \<le> k' \<and> k' \<le> n
       \<and> shortest x n k = round_half_even (x / pow10 (n - k'))
       \<and> rnd (of_int (shortest x n k) * pow10 (n - k')) = Fin x
       \<and> (k < k' \<longrightarrow>
            rnd (of_int (round_half_even (x / pow10 (n - k))) * pow10 (n - k)) \<noteq> Fin x)"
proof (induction x n k rule: shortest.induct)
  case (1 x n k)
  let ?c = "rnd (of_int (round_half_even (x / pow10 (n - k))) * pow10 (n - k)) = Fin x"
  show ?case
  proof (cases "n \<le> k \<or> ?c")
    case True
    then have s: "shortest x n k = round_half_even (x / pow10 (n - k))"
      by (subst shortest.simps) simp
    have c: ?c
    proof (cases ?c)
      case False
      with True "1.prems" have "n = k" by simp
      then have p: "pow10 (n - k) = 1" by (simp add: pow10_def)
      have r: "round_half_even x = \<lfloor>x\<rfloor>"
        by (metis "1.prems"(3) round_half_even_of_int)
      have "of_int (round_half_even (x / pow10 (n - k))) * pow10 (n - k) = of_int \<lfloor>x\<rfloor>"
        unfolding p using r by simp
      also have "\<dots> = x" by (rule "1.prems"(3))
      finally show ?thesis using "1.prems"(2) by (simp only:)
    qed simp
    show ?thesis
      by (rule exI[of _ k]) (use s c "1.prems" in simp)
  next
    case False
    then have s: "shortest x n k = shortest x n (k + 1)"
      by (subst shortest.simps) simp
    from False have "k + 1 \<le> n" by simp
    from "1.IH"[OF False this "1.prems"(2,3)] obtain k' where
      k': "k + 1 \<le> k'" "k' \<le> n" "shortest x n (k + 1) = round_half_even (x / pow10 (n - k'))"
      "rnd (of_int (shortest x n (k + 1)) * pow10 (n - k')) = Fin x" by blast
    show ?thesis
      by (rule exI[of _ k']) (use k' s False in simp)
  qed
qed

lemma parseFloat_exp_notation:
  assumes "ds \<noteq> []" "\<forall>c\<in>set ds. is_digit c" "0 \<le> e"
  shows "parseFloat (exp_notation ds e)
           = rnd (of_int (digits_val ds) / 10 ^ (length ds - 1) * pow10 e)"
    "parseFloat (CHR ''-'' # exp_notation ds e)
           = rnd (- (of_int (digits_val ds) / 10 ^ (length ds - 1) * pow10 e))"
proof -
  define E where "E = digits_of e"
  have E: "E \<noteq> []" "\<forall>c\<in>set E. is_digit c" "digits_val E = e"
    using digits_of_head[of e] digits_of_digits digits_val_digits_of[OF assms(3)]
    by (auto simp: E_def)
  have r: "''e+'' @ E = [] \<or> \<not> is_digit (hd (''e+'' @ E))" by (simp add: is_digit_def)
  have "parseFloat (exp_notation ds e)
           = rnd (of_int (digits_val ds) / 10 ^ (length ds - 1) * pow10 e)
      \<and> parseFloat (CHR ''-'' # exp_notation ds e)
           = rnd (- (of_int (digits_val ds) / 10 ^ (length ds - 1) * pow10 e))"
  proof (cases "length ds = 1")
    case True
    then have x: "exp_notation ds e = ds @ ''e+'' @ E" by (simp add: exp_notation_def E_def)
    note a = parseFloat_digits[OF assms(1,2) r]
    note b = a[unfolded after_int_exponent[OF E(1,2)] E(3) to_number_MNum]
    have l: "length ds - 1 = 0" using True by arith
    show ?thesis unfolding x b l by simp
  next
    case False
    define ip where "ip = take 1 ds"
    define fp where "fp = drop 1 ds"
    have ip: "ip \<noteq> []" "\<forall>c\<in>set ip. is_digit c"
      using assms(1,2) by (auto simp: ip_def dest: in_set_takeD)
    have fp: "\<forall>c\<in>set fp. is_digit c" "length fp = length ds - 1"
      using assms(2) by (auto simp: fp_def dest: in_set_dropD)
    have c: "ip @ fp = ds" by (simp add: ip_def fp_def)
    have v: "digits_val ds = digits_val ip * 10 ^ (length ds - 1) + digits_val fp"
      using digits_val_append[of ip fp] unfolding c fp(2) .
    have x: "exp_notation ds e = ip @ CHR ''.'' # fp @ ''e+'' @ E"
      using False by (simp add: exp_notation_def E_def ip_def fp_def)
    have r': "CHR ''.'' # fp @ ''e+'' @ E = [] \<or> \<not> is_digit (hd (CHR ''.'' # fp @ ''e+'' @ E))"
      by (simp add: is_digit_def)
    have val: "real_of_int (digits_val ip) + real_of_int (digits_val fp) / 10 ^ (length ds - 1)
        = real_of_int (digits_val ds) / 10 ^ (length ds - 1)"
      unfolding v by (simp add: field_simps)
    note a = parseFloat_digits[OF ip r']
    note b = a[unfolded after_int_fraction_exponent[OF fp(1) E(1,2)] E(3) fp(2) val
        to_number_MNum]
    show ?thesis unfolding x b by simp
  qed
  then show "parseFloat (exp_notation ds e)
           = rnd (of_int (digits_val ds) / 10 ^ (length ds - 1) * pow10 e)"
    "parseFloat (CHR ''-'' # exp_notation ds e)
           = rnd (- (of_int (digits_val ds) / 10 ^ (length ds - 1) * pow10 e))"
    by simp_all
qed
lemma round_half_even_unique:
  assumes "\<bar>of_int c - r\<bar> < 1 / 2"
  shows "round_half_even r = c"
proof -
  have "\<bar>of_int (round_half_even r) - r\<bar> \<le> 1 / 2" by (rule round_half_even_near)
  with assms have "\<bar>real_of_int (round_half_even r) - of_int c\<bar> < 1" by linarith
  then have "\<bar>real_of_int (round_half_even r - c)\<bar> < 1" by simp
  then have "\<bar>round_half_even r - c\<bar> < 1" by linarith
  then show ?thesis by simp
qed

lemma length_digits_of_eq:
  assumes "10 ^ (K - 1) \<le> s" "s < 10 ^ K" "0 < K"
  shows "length (digits_of s) = K"
proof -
  have "(0::int) < 10 ^ (K - 1)" by simp
  with assms(1) have sp: "0 < s" by linarith
  from length_digits_of[OF sp]
  have b: "10 ^ (length (digits_of s) - 1) \<le> s" "s < 10 ^ length (digits_of s)" by auto
  have l: "0 < length (digits_of s)" using digits_of_head[of s] by simp
  have "(10::int) ^ (length (digits_of s) - 1) < 10 ^ K" using b(1) assms(2) by linarith
  then have 1: "length (digits_of s) - 1 < K" by simp
  have "(10::int) ^ (K - 1) < 10 ^ length (digits_of s)" using b(2) assms(1) by linarith
  then have 2: "K - 1 < length (digits_of s)" by simp
  from 1 2 l assms(3) show ?thesis by simp
qed
lemma abs_scale:
  assumes "0 < (p::real)"
  shows "\<bar>a - b / p\<bar> * p = \<bar>a * p - b\<bar>"
proof -
  have "\<bar>a - b / p\<bar> * p = \<bar>a - b / p\<bar> * \<bar>p\<bar>" using assms by simp
  also have "\<dots> = \<bar>(a - b / p) * p\<bar>" by (simp only: abs_mult)
  also have "(a - b / p) * p = a * p - b" using assms by (simp add: field_simps)
  finally show ?thesis .
qed

lemma big_toString_value:
  assumes "10 ^ 21 \<le> v" "rnd v = Fin v" "of_int \<lfloor>v\<rfloor> = v"
  shows "parseFloat (big_toString v (int (length (digits_of \<lfloor>v\<rfloor>)))) = Fin v"
    "parseFloat (CHR ''-'' # big_toString v (int (length (digits_of \<lfloor>v\<rfloor>)))) = Fin (- v)"
proof -
  define V where "V = \<lfloor>v\<rfloor>"
  define L where "L = length (digits_of V)"
  define n where "n = int L"
  have vV: "v = of_int V" unfolding V_def by (rule assms(3)[symmetric])
  have Vpos: "0 < V" using assms(1) by (simp add: V_def)
  from length_digits_of[OF Vpos] have Lb: "10 ^ (L - 1) \<le> V" "V < 10 ^ L"
    by (simp_all add: L_def)
  have vlo: "10 ^ (L - 1) \<le> v" unfolding vV using Lb(1)
    by (metis of_int_le_iff of_int_numeral of_int_power)
  have vhi: "v < 10 ^ L" unfolding vV using Lb(2)
    by (metis of_int_less_iff of_int_numeral of_int_power)
  have L1: "0 < L" using digits_of_head[of V] by (simp add: L_def)
  have "1 \<le> n" using L1 by (simp add: n_def)
  from shortest_found[OF this assms(2,3)] obtain k' where k':
    "1 \<le> k'" "k' \<le> n" "shortest v n 1 = round_half_even (v / pow10 (n - k'))"
    "rnd (of_int (shortest v n 1) * pow10 (n - k')) = Fin v"
    "1 < k' \<longrightarrow> rnd (of_int (round_half_even (v / pow10 (n - 1))) * pow10 (n - 1)) \<noteq> Fin v"
    by blast
  define K where "K = nat k'"
  have K: "1 \<le> K" "K \<le> L" "k' = int K" using k'(1,2) by (simp_all add: K_def n_def)
  define P where "P = (10::real) ^ (L - K)"
  have Ppos: "0 < P" by (simp add: P_def)
  have P: "pow10 (n - k') = P" using K by (simp add: pow10_def n_def P_def of_nat_diff[symmetric] del: of_nat_diff)
  have P1: "pow10 (n - 1) = 10 ^ (L - 1)"
    using L1 by (simp add: pow10_def n_def of_nat_diff[symmetric] del: of_nat_diff)
  have Pn: "pow10 n = 10 ^ L" by (simp add: pow10_def n_def)
  define s where "s = shortest v n 1"
  have s: "s = round_half_even (v / P)" using k'(3) by (simp add: s_def P)
  have val: "rnd (of_int s * P) = Fin v" using k'(4) by (simp add: s_def P)
  have "L - 1 = (K - 1) + (L - K)" "L = K + (L - K)" using K by simp_all
  then have split: "(10::real) ^ (L - 1) = 10 ^ (K - 1) * P" "(10::real) ^ L = 10 ^ K * P"
    unfolding P_def by (metis power_add)+
  have rlo: "10 ^ (K - 1) \<le> v / P" using vlo Ppos unfolding split by (simp add: field_simps)
  have rhi: "v / P < 10 ^ K" using vhi Ppos unfolding split by (simp add: field_simps)
  have slo: "10 ^ (K - 1) \<le> s" unfolding s using rlo by (intro round_half_even_ge) simp
  have shi: "s \<le> 10 ^ K" unfolding s using rhi by (intro round_half_even_le) simp
  have key: "of_int s * P \<noteq> of_int c * 10 ^ (L - 1)" if K2: "2 \<le> K" for c
  proof
    assume eq: "of_int s * P = of_int c * 10 ^ (L - 1)"
    have "\<bar>of_int s - v / P\<bar> \<le> 1 / 2" unfolding s by (rule round_half_even_near)
    then have "\<bar>of_int s - v / P\<bar> * P \<le> 1 / 2 * P" using Ppos by (intro mult_right_mono) simp_all
    moreover have "\<bar>of_int s - v / P\<bar> * P = \<bar>of_int s * P - v\<bar>"
      using Ppos by (rule abs_scale)
    ultimately have d: "\<bar>of_int c * 10 ^ (L - 1) - v\<bar> \<le> P / 2" unfolding eq by simp
    have "(10::real) ^ 1 \<le> 10 ^ (K - 1)" using K2 by (intro power_increasing) simp_all
    then have t: "P * 10 \<le> 10 ^ (L - 1)" unfolding split using Ppos by simp
    have q0: "(0::real) < 10 ^ (L - 1)" by simp
    have "\<bar>of_int c - v / 10 ^ (L - 1)\<bar> * 10 ^ (L - 1) = \<bar>of_int c * 10 ^ (L - 1) - v\<bar>"
      using q0 by (rule abs_scale)
    with d t have "\<bar>of_int c - v / 10 ^ (L - 1)\<bar> * 10 ^ (L - 1) \<le> 10 ^ (L - 1) / 20" by simp
    then have "\<bar>of_int c - v / 10 ^ (L - 1)\<bar> \<le> 1 / 20" using q0 by (simp add: field_simps)
    then have "\<bar>of_int c - v / 10 ^ (L - 1)\<bar> < 1 / 2" by simp
    then have "round_half_even (v / 10 ^ (L - 1)) = c" by (rule round_half_even_unique)
    then have "rnd (of_int (round_half_even (v / pow10 (n - 1))) * pow10 (n - 1)) = Fin v"
      unfolding P1 using val eq by simp
    moreover have "1 < k'" using K2 K(3) by simp
    ultimately show False using k'(5) by simp
  qed
  have one: "digits_val ''1'' = 1" by (simp add: digits_val_def digit_val_def)
  have n0: "0 \<le> n" "0 \<le> n - 1" using L1 by (simp_all add: n_def)
  have "parseFloat (big_toString v n) = rnd (of_int s * P)
      \<and> parseFloat (CHR ''-'' # big_toString v n) = rnd (- (of_int s * P))"
  proof (cases "s = 10")
    case True
    have K1: "K = 1"
    proof (rule ccontr)
      assume "K \<noteq> 1"
      with K(1) have K2: "2 \<le> K" by simp
      have a: "(10::int) ^ (K - 1) \<le> 10 ^ (1::nat)" using slo True by simp
      have "K - 1 \<le> 1" by (rule power_le_imp_le_exp[OF _ a]) simp
      with K2 have "K = 2" by simp
      then have "of_int s * P = of_int 1 * 10 ^ (L - 1)" unfolding split True by simp
      with key[OF K2] show False by blast
    qed
    have b: "big_toString v n = exp_notation ''1'' n" using True by (simp add: big_toString_def s_def)
    have "of_int s * P = pow10 n" unfolding Pn split True K1 by simp
    then show ?thesis
      unfolding b using parseFloat_exp_notation[of "''1''" n] n0(1) one by (simp add: is_digit_def)
  next
    case False
    have lt: "s < 10 ^ K"
    proof (cases "K = 1")
      case True
      with shi False show ?thesis by simp
    next
      case F: False
      with K(1) have K2: "2 \<le> K" by simp
      have "s \<noteq> 10 ^ K"
      proof
        assume "s = 10 ^ K"
        then have "of_int s * P = 10 ^ K * P" by simp
        also have "\<dots> = 10 ^ L" by (rule split(2)[symmetric])
        also have "\<dots> = of_int 10 * 10 ^ (L - 1)" using L1 by (cases L) simp_all
        finally have "of_int s * P = of_int 10 * 10 ^ (L - 1)" .
        with key[OF K2] show False by blast
      qed
      with shi show ?thesis by simp
    qed
    have len: "length (digits_of s) = K"
      using slo lt K(1) by (intro length_digits_of_eq) simp_all
    have "(0::int) < 10 ^ (K - 1)" by simp
    with slo have sp: "0 \<le> s" by linarith
    have ds: "digits_of s \<noteq> []" "\<forall>c\<in>set (digits_of s). is_digit c"
      using digits_of_head[of s] digits_of_digits by auto
    have b: "big_toString v n = exp_notation (digits_of s) (n - 1)"
      using False by (simp add: big_toString_def s_def)
    have "real_of_int s / 10 ^ (K - 1) * pow10 (n - 1) = of_int s * P"
      unfolding P1 split by simp
    then show ?thesis
      unfolding b using parseFloat_exp_notation[OF ds n0(2)]
      by (simp add: len digits_val_digits_of[OF sp])
  qed
  then show "parseFloat (big_toString v (int (length (digits_of \<lfloor>v\<rfloor>)))) = Fin v"
    "parseFloat (CHR ''-'' # big_toString v (int (length (digits_of \<lfloor>v\<rfloor>)))) = Fin (- v)"
    using val by (simp_all add: rnd_minus n_def L_def V_def)
qed

lemma round_to_big:
  assumes "10 ^ 21 \<le> \<bar>x\<bar>" "rnd x = Fin x" "of_int \<lfloor>x\<rfloor> = x"
  shows "round_to d (Fin x) = Fin x" "rounded_to_decimals d (Fin x) = Fin x"
proof -
  define v where "v = \<bar>x\<bar>"
  have v1: "10 ^ 21 \<le> v" using assms(1) by (simp add: v_def)
  have v2: "rnd v = Fin v"
  proof (cases "0 \<le> x")
    case True
    then show ?thesis using assms(2) by (simp add: v_def)
  next
    case False
    then have "v = - x" by (simp add: v_def)
    then show ?thesis using assms(2) by (simp add: rnd_minus)
  qed
  obtain m where m: "x = of_int m" using assms(3) by metis
  have "v = of_int \<bar>m\<bar>" by (simp add: v_def m)
  then have v3: "of_int \<lfloor>v\<rfloor> = v" by simp
  note b = big_toString_value[OF v1 v2 v3]
  have tf: "toFixed (Fin x) d
      = (if x < 0 then ''-'' else []) @ big_toString v (int (length (digits_of \<lfloor>v\<rfloor>)))"
    using assms(1) by (simp add: v_def)
  have sg: "(if x < 0 then - v else v) = x" by (simp add: v_def)
  show "round_to d (Fin x) = Fin x"
    unfolding round_to_def tf using b sg by (cases "x < 0") simp_all
  have "v * 10 ^ d + 1 / 2 = of_int (\<bar>m\<bar> * 10 ^ d) + 1 / 2" by (simp add: v_def m)
  also have "\<lfloor>\<dots>\<rfloor> = \<bar>m\<bar> * 10 ^ d" by linarith
  finally have "of_int \<lfloor>v * 10 ^ d + 1 / 2\<rfloor> / 10 ^ d = v"
    by (simp add: v_def m)
  then have "rounded_to_decimals d (Fin x) = rnd ((if x < 0 then - 1 else 1) * v)"
    by (simp add: rounded_to_decimals_def v_def)
  also have "(if x < 0 then - 1 else 1) * v = x" by (simp add: v_def)
  finally show "rounded_to_decimals d (Fin x) = Fin x" using assms(2) by simp
qed

text \<open>The rounding of the code is rounding to \<open>d\<close> decimals.\<close>

lemma round_to_rounded:
  assumes "binary64 x"
  shows "round_to d x = rounded_to_decimals d x"
proof (cases x)
  case NaN
  then show ?thesis by (simp add: round_to_def rounded_to_decimals_def str_eval)
next
  case PInf
  then show ?thesis by (simp add: round_to_def rounded_to_decimals_def str_eval)
next
  case NInf
  then show ?thesis by (simp add: round_to_def rounded_to_decimals_def str_eval)
next
  case (Fin v)
  show ?thesis
  proof (cases "\<bar>v\<bar> < 10 ^ 21")
    case True
    then show ?thesis unfolding Fin by (rule round_to_small)
  next
    case False
    with assms have "10 ^ 21 \<le> \<bar>v\<bar>" "rnd v = Fin v" "of_int \<lfloor>v\<rfloor> = v"
      by (simp_all add: binary64_def Fin)
    from round_to_big[OF this] show ?thesis by (simp add: Fin)
  qed
qed
subsection \<open>Every value of the derivation is a binary64 number\<close>

lemma binary64_simps [simp]: "binary64 NaN" "binary64 PInf" "binary64 NInf" "binary64 (Fin 0)"
  by (simp_all add: binary64_def pow2_pos)

lemma binary64_js_neg: "binary64 x \<Longrightarrow> binary64 (js_neg x)"
proof (cases x)
  case (Fin v)
  assume b: "binary64 x"
  have "rnd (- v) = Fin (- v) \<and> of_int \<lfloor>- v\<rfloor> = - v"
    if r: "rnd v = Fin v" and i: "of_int \<lfloor>v\<rfloor> = v"
  proof -
    obtain m where "v = of_int m" using i by metis
    then have "- v = of_int (- m)" by simp
    then have "of_int \<lfloor>- v\<rfloor> = - v" by (metis floor_of_int)
    then show ?thesis using r by (simp add: rnd_minus)
  qed
  with b show ?thesis by (simp add: binary64_def Fin)
qed simp_all

lemma binary64_parseFloat: "binary64 (parseFloat s)"
proof (cases "str_decimal (trimStart s)")
  case None
  then show ?thesis by (simp add: parseFloat_def)
next
  case (Some p)
  obtain neg mv where p: "p = (neg, mv)" by (cases p)
  show ?thesis
    by (cases mv) (simp_all add: parseFloat_def Some p binary64_rnd)
qed

lemma binary64_inf_of_sign: "binary64 (inf_of_sign s)"
  by (simp add: inf_of_sign_def)

lemma binary64_js_add: "binary64 (js_add a b)"
  by (cases a; cases b) (simp_all add: binary64_rnd)

lemma binary64_js_sub: "binary64 (js_sub a b)"
  by (simp add: js_sub_def binary64_js_add)

lemma binary64_js_mul: "binary64 (js_mul a b)"
  by (cases a; cases b) (simp_all add: binary64_rnd binary64_inf_of_sign)

lemma binary64_js_div: "binary64 (js_div a b)"
  by (cases a; cases b) (simp_all add: binary64_rnd binary64_inf_of_sign)

lemma binary64_pow_2: "binary64 (Math_pow_2 x)"
  by (cases x) (simp_all add: binary64_rnd)

lemma binary64_cbrt: "binary64 (Math_cbrt x)"
proof (cases x)
  case (Fin a)
  have "binary64 (cbrt_pos a)" "binary64 (js_neg (cbrt_pos (- a)))"
    by (simp_all add: cbrt_pos_def cbrt_newton_def cbrt_step_def binary64_rnd binary64_js_neg)
  then show ?thesis by (simp add: Fin)
qed simp_all

subsection \<open>Precision of the fields\<close>

text \<open>
  Claim C3, as stated, fails for the semi-major axis: the code rounds it with
  \<open>toFixed(4)\<close>, like the velocity and the period, not with \<open>toFixed(2)\<close> like
  the other distances. For the element set with mean motion 15.5 the field is 6794.8631,
  which is not a number of two decimals: rounding it to two decimals gives 6794.86.
\<close>

theorem semi_major_axis_has_four_decimals:
  "map_option semi_major_axis_km
     (populateDerived (Some ''1 25544U 98067A   24001.50000000  .00016717  00000-0  10270-3 0  9005'')
        (Some ''2 25544  51.6000 208.9163 0006700  69.9862  25.2906 15.50000000    12''))
   = Some (Fin (7471030987596077 / 1099511627776))
   \<and> round_to 2 (Fin (7471030987596077 / 1099511627776))
     = Fin (7471027579110031 / 1099511627776)
   \<and> round_to 2 (Fin (7471030987596077 / 1099511627776))
     \<noteq> Fin (7471030987596077 / 1099511627776)
   \<and> rounded_to_decimals 2 (Fin (7471030987596077 / 1099511627776))
     = Fin (7471027579110031 / 1099511627776)"
proof -
  have "round_to 2 (Fin (7471030987596077 / 1099511627776))
        = Fin (7471027579110031 / 1099511627776)"
    by (simp add: round_to_def fixed_eval str_eval num_eval)
  moreover have "rounded_to_decimals 2 (Fin (7471030987596077 / 1099511627776))
        = Fin (7471027579110031 / 1099511627776)"
    by (simp add: rounded_to_decimals_def num_eval)
  ultimately show ?thesis unfolding iss_derived by simp
qed

text \<open>
  Claim C3, amended: for every input accepted by \<open>populateDerived\<close>, each rounded field
  is the value computed for it rounded to its decimal precision, that is, the binary64
  number nearest to the decimal with that many fraction digits nearest to the value: 4
  decimals for the angles (inclination, RAAN, argument of perigee, mean anomaly), 8 for
  eccentricity and mean motion, 4 for the semi-major axis, 2 for perigee, apogee and
  altitude, and 4 for velocity and orbital period.
\<close>

theorem fields_rounded:
  assumes "populateDerived (Some line1) (Some line2) = Some r"
  shows
   "(let meanMotion = parseFloat (slice 52 63 line2);
         periodSec = js_div (num 86400) meanMotion;
         semiMajorAxis =
           Math_cbrt (js_mul GM_KM3_S2 (Math_pow_2 (js_div periodSec (js_mul (num 2) Math_PI))));
         ecc = parseFloat (''0.'' @ slice 26 33 line2)
     in inclination r = rounded_to_decimals 4 (parseFloat (slice 8 16 line2))
      \<and> raan r = rounded_to_decimals 4 (parseFloat (slice 17 25 line2))
      \<and> arg_perigee r = rounded_to_decimals 4 (parseFloat (slice 34 42 line2))
      \<and> mean_anomaly r = rounded_to_decimals 4 (parseFloat (slice 43 51 line2))
      \<and> eccentricity r = rounded_to_decimals 8 ecc
      \<and> mean_motion r = rounded_to_decimals 8 meanMotion
      \<and> semi_major_axis_km r = rounded_to_decimals 4 semiMajorAxis
      \<and> perigee_km r =
          rounded_to_decimals 2
            (js_sub (js_mul semiMajorAxis (js_sub (num 1) ecc)) EARTH_RADIUS_KM)
      \<and> apogee_km r =
          rounded_to_decimals 2
            (js_sub (js_mul semiMajorAxis (js_add (num 1) ecc)) EARTH_RADIUS_KM)
      \<and> altitude_km r = rounded_to_decimals 2 (js_sub semiMajorAxis EARTH_RADIUS_KM)
      \<and> velocity_kms r =
          rounded_to_decimals 4
            (js_div (js_mul (js_mul (num 2) Math_PI) semiMajorAxis) periodSec)
      \<and> orbital_period_minutes r = rounded_to_decimals 4 (js_div periodSec (num 60)))"
proof -
  note rounded =
    round_to_rounded[OF binary64_parseFloat] round_to_rounded[OF binary64_js_div]
    round_to_rounded[OF binary64_js_sub] round_to_rounded[OF binary64_cbrt]
  show ?thesis
    using populateDerived_fields[OF assms] unfolding Let_def rounded .
qed

theorem fields_rounded_witness:
  "map_option semi_major_axis_km
     (populateDerived (Some ''1 25544U 98067A   24001.50000000  .00016717  00000-0  10270-3 0  9005'')
        (Some ''2 25544  51.6000 208.9163 0006700  69.9862  25.2906 15.50000000    12''))
   = Some (rounded_to_decimals 4 (Fin (7471030953749787 / 1099511627776)))
   \<and> rounded_to_decimals 4 (Fin (7471030953749787 / 1099511627776))
     = Fin (7471030987596077 / 1099511627776)
   \<and> map_option altitude_km
     (populateDerived (Some ''1 25544U 98067A   24001.50000000  .00016717  00000-0  10270-3 0  9005'')
        (Some ''2 25544  51.6000 208.9163 0006700  69.9862  25.2906 15.50000000    12''))
   = Some (rounded_to_decimals 2 (js_sub (Fin (7471030953749787 / 1099511627776)) EARTH_RADIUS_KM))
   \<and> rounded_to_decimals 2 (js_sub (Fin (7471030953749787 / 1099511627776)) EARTH_RADIUS_KM)
     = Fin (916398961286185 / 2199023255552)
   \<and> map_option mean_motion
     (populateDerived (Some ''1 25544U 98067A   24001.50000000  .00016717  00000-0  10270-3 0  9005'')
        (Some ''2 25544  51.6000 208.9163 0006700  69.9862  25.2906 15.50000000    12''))
   = Some (rounded_to_decimals 8 (Fin (31 / 2)))
   \<and> rounded_to_decimals 8 (Fin (31 / 2)) = Fin (31 / 2)"
proof -
  from iss_accepted obtain r where
    r: "populateDerived (Some ''1 25544U 98067A   24001.50000000  .00016717  00000-0  10270-3 0  9005'')
          (Some ''2 25544  51.6000 208.9163 0006700  69.9862  25.2906 15.50000000    12'') = Some r" ..
  note f = fields_rounded[OF r, unfolded Let_def iss_mean_motion iss_periodSec iss_semiMajorAxis]
  have 1: "rounded_to_decimals 4 (Fin (7471030953749787 / 1099511627776))
     = Fin (7471030987596077 / 1099511627776)"
    by (simp add: rounded_to_decimals_def num_eval)
  have 2: "rounded_to_decimals 2 (js_sub (Fin (7471030953749787 / 1099511627776)) EARTH_RADIUS_KM)
     = Fin (916398961286185 / 2199023255552)"
    unfolding earth_radius by (simp add: rounded_to_decimals_def js_sub_def num_eval)
  have 3: "rounded_to_decimals 8 (Fin (31 / 2)) = Fin (31 / 2)"
    by (simp add: rounded_to_decimals_def num_eval)
  show ?thesis unfolding r using f 1 2 3 by simp
qed

subsection \<open>Which fields are numbers\<close>

lemma eccentricity_not_NaN: "parseFloat (''0.'' @ s) \<noteq> NaN"
proof -
  have "is_digit (CHR ''0'')" by (simp add: is_digit_def)
  from parseFloat_digit_start[OF this] show ?thesis by simp
qed

lemma blank_inclination:
  "parseFloat (slice 52 63 ''2 25544          208.9163 0006700  69.9862  25.2906 15.50000000    12'') = Fin (31 / 2)"
  "round_to 4 (parseFloat (slice 8 16 ''2 25544          208.9163 0006700  69.9862  25.2906 15.50000000    12'')) = NaN"
  by (simp_all add: round_to_def str_eval num_eval)

lemma negative_drag_term:
  "trim (slice 53 63 ''1 25544U 98067A   24001.50000000  .00016717  00000-0 -11606-4 0  9005'') = ''-11606-4 0''"
  "parseFloat (replace (CHR ''-'') ''e-'' (replace (CHR ''+'') ''e+'' ''-11606-4 0'')) = NaN"
  by (simp_all add: str_eval num_eval)

lemma infinite_mean_motion:
  "parseFloat (slice 52 63 ''2 25544  51.6000 208.9163 0006700  69.9862  25.2906    Infinity    12'') = PInf"
  "round_to 8 PInf = PInf"
  by (simp_all add: round_to_def str_eval num_eval)

text \<open>
  Claim C2, as stated, fails: only the mean motion is tested before the object is
  returned. A line 2 whose inclination columns are blank gives an object whose inclination is
  \<open>NaN\<close>; a line 1 with a negative drag term gives an object whose \<open>bstar\<close> is
  \<open>NaN\<close>; a mean motion column reading \<open>Infinity\<close> gives an object whose mean motion
  is infinite.
\<close>

theorem object_with_NaN_fields:
  "map_option inclination
     (populateDerived (Some ''1 25544U 98067A   24001.50000000  .00016717  00000-0  10270-3 0  9005'')
        (Some ''2 25544          208.9163 0006700  69.9862  25.2906 15.50000000    12''))
   = Some NaN
   \<and> map_option bstar
     (populateDerived (Some ''1 25544U 98067A   24001.50000000  .00016717  00000-0 -11606-4 0  9005'')
        (Some ''2 25544  51.6000 208.9163 0006700  69.9862  25.2906 15.50000000    12''))
   = Some NaN
   \<and> map_option mean_motion
     (populateDerived (Some ''1 25544U 98067A   24001.50000000  .00016717  00000-0  10270-3 0  9005'')
        (Some ''2 25544  51.6000 208.9163 0006700  69.9862  25.2906    Infinity    12''))
   = Some PInf"
proof -
  have "\<exists>r. populateDerived (Some ''1 25544U 98067A   24001.50000000  .00016717  00000-0  10270-3 0  9005'')
         (Some ''2 25544          208.9163 0006700  69.9862  25.2906 15.50000000    12'') = Some r"
    by (rule populateDerived_accepts)
      (simp_all add: blank_inclination falsy_num_def js_le_def)
  then obtain a where
    a: "populateDerived (Some ''1 25544U 98067A   24001.50000000  .00016717  00000-0  10270-3 0  9005'')
         (Some ''2 25544          208.9163 0006700  69.9862  25.2906 15.50000000    12'') = Some a" ..
  from populateDerived_fields[OF a, unfolded Let_def blank_inclination]
  have 1: "inclination a = NaN" by simp
  have "\<exists>r. populateDerived (Some ''1 25544U 98067A   24001.50000000  .00016717  00000-0 -11606-4 0  9005'')
         (Some ''2 25544  51.6000 208.9163 0006700  69.9862  25.2906 15.50000000    12'') = Some r"
    by (rule populateDerived_accepts)
      (simp_all add: iss_mean_motion falsy_num_def js_le_def)
  then obtain b where
    b: "populateDerived (Some ''1 25544U 98067A   24001.50000000  .00016717  00000-0 -11606-4 0  9005'')
         (Some ''2 25544  51.6000 208.9163 0006700  69.9862  25.2906 15.50000000    12'') = Some b" ..
  from unrounded_fields(1)[OF b, unfolded negative_drag_term]
  have 2: "bstar b = NaN" by simp
  have "\<exists>r. populateDerived (Some ''1 25544U 98067A   24001.50000000  .00016717  00000-0  10270-3 0  9005'')
         (Some ''2 25544  51.6000 208.9163 0006700  69.9862  25.2906    Infinity    12'') = Some r"
    by (rule populateDerived_accepts)
      (simp_all add: infinite_mean_motion falsy_num_def js_le_def)
  then obtain c where
    c: "populateDerived (Some ''1 25544U 98067A   24001.50000000  .00016717  00000-0  10270-3 0  9005'')
         (Some ''2 25544  51.6000 208.9163 0006700  69.9862  25.2906    Infinity    12'') = Some c" ..
  from populateDerived_fields[OF c, unfolded Let_def infinite_mean_motion]
  have 3: "mean_motion c = PInf" by simp
  show ?thesis unfolding a b c using 1 2 3 by simp
qed

text \<open>
  Claim C2, amended: whenever \<open>populateDerived\<close> returns an object, the parsed mean
  motion is greater than zero and the mean motion, orbital period, semi-major axis,
  altitude and eccentricity of the object are numbers (never \<open>NaN\<close>, possibly infinite);
  each angle (inclination, RAAN, argument of perigee, mean anomaly) is \<open>NaN\<close> exactly
  when its columns of line 2 do not parse, and each mean-motion derivative exactly when its
  columns of line 1 are not blank and do not parse.
\<close>

theorem derived_numbers:
  assumes "populateDerived (Some line1) (Some line2) = Some r"
  shows "js_lt (num 0) (parseFloat (slice 52 63 line2))
   \<and> \<not> isNaN (mean_motion r) \<and> \<not> isNaN (orbital_period_minutes r)
   \<and> \<not> isNaN (semi_major_axis_km r) \<and> \<not> isNaN (altitude_km r)
   \<and> \<not> isNaN (eccentricity r)
   \<and> (isNaN (inclination r) \<longleftrightarrow> isNaN (parseFloat (slice 8 16 line2)))
   \<and> (isNaN (raan r) \<longleftrightarrow> isNaN (parseFloat (slice 17 25 line2)))
   \<and> (isNaN (arg_perigee r) \<longleftrightarrow> isNaN (parseFloat (slice 34 42 line2)))
   \<and> (isNaN (mean_anomaly r) \<longleftrightarrow> isNaN (parseFloat (slice 43 51 line2)))
   \<and> (isNaN (mean_motion_dot r) \<longleftrightarrow>
        trim (slice 33 43 line1) \<noteq> [] \<and> isNaN (parseFloat (trim (slice 33 43 line1))))
   \<and> (isNaN (mean_motion_ddot r) \<longleftrightarrow>
        trim (slice 44 52 line1) \<noteq> [] \<and> isNaN (parseFloat (trim (slice 44 52 line1))))"
proof -
  let ?mm = "parseFloat (slice 52 63 line2)"
  let ?T = "js_div (num 86400) ?mm"
  let ?a = "Math_cbrt (js_mul GM_KM3_S2 (Math_pow_2 (js_div ?T (js_mul (num 2) Math_PI))))"
  note d = populateDerived_SomeD[OF assms]
  have mm: "\<not> falsy_num ?mm" "\<not> js_le ?mm (Fin 0)" using d(3,4) by simp_all
  have pos: "js_lt (num 0) ?mm" using positive_cases[OF mm] by auto
  have nn: "?mm \<noteq> NaN" using mm(1) by (simp add: falsy_num_def)
  note f = populateDerived_fields[OF assms, unfolded Let_def]
  note u = unrounded_fields(2,3)[OF assms]
  have p: "js_div ?T (num 60) \<noteq> NaN"
    using period_not_NaN[OF mm] by (simp add: js_div_Fin_not_NaN)
  have a: "?a \<noteq> NaN" by (rule semiMajorAxis_not_NaN[OF mm])
  have h: "js_sub ?a EARTH_RADIUS_KM \<noteq> NaN"
    unfolding earth_radius by (intro js_sub_Fin_not_NaN a)
  have n: "\<not> isNaN ?mm" "\<not> isNaN (js_div ?T (num 60))" "\<not> isNaN ?a"
    "\<not> isNaN (js_sub ?a EARTH_RADIUS_KM)"
    "\<not> isNaN (parseFloat (''0.'' @ slice 26 33 line2))"
    using nn p a h eccentricity_not_NaN by (simp_all add: isNaN_def)
  have "\<not> isNaN (mean_motion r)" "\<not> isNaN (orbital_period_minutes r)"
    "\<not> isNaN (semi_major_axis_km r)" "\<not> isNaN (altitude_km r)"
    "\<not> isNaN (eccentricity r)"
    using f n by (simp_all add: round_to_NaN_iff)
  moreover have "isNaN (inclination r) \<longleftrightarrow> isNaN (parseFloat (slice 8 16 line2))"
    "isNaN (raan r) \<longleftrightarrow> isNaN (parseFloat (slice 17 25 line2))"
    "isNaN (arg_perigee r) \<longleftrightarrow> isNaN (parseFloat (slice 34 42 line2))"
    "isNaN (mean_anomaly r) \<longleftrightarrow> isNaN (parseFloat (slice 43 51 line2))"
    using f by (simp_all add: round_to_NaN_iff)
  moreover have "isNaN (mean_motion_dot r) \<longleftrightarrow>
        trim (slice 33 43 line1) \<noteq> [] \<and> isNaN (parseFloat (trim (slice 33 43 line1)))"
    "isNaN (mean_motion_ddot r) \<longleftrightarrow>
        trim (slice 44 52 line1) \<noteq> [] \<and> isNaN (parseFloat (trim (slice 44 52 line1)))"
    unfolding u by (simp_all add: isNaN_def)
  ultimately show ?thesis using pos by simp
qed

theorem derived_numbers_witness:
  "\<exists>r. populateDerived (Some ''1 25544U 98067A   24001.50000000  .00016717  00000-0  10270-3 0  9005'')
         (Some ''2 25544  51.6000 208.9163 0006700  69.9862  25.2906 15.50000000    12'') = Some r
     \<and> \<not> isNaN (mean_motion r) \<and> \<not> isNaN (orbital_period_minutes r)
     \<and> \<not> isNaN (semi_major_axis_km r) \<and> \<not> isNaN (altitude_km r)
     \<and> \<not> isNaN (eccentricity r)"
proof -
  from iss_accepted obtain r where
    r: "populateDerived (Some ''1 25544U 98067A   24001.50000000  .00016717  00000-0  10270-3 0  9005'')
          (Some ''2 25544  51.6000 208.9163 0006700  69.9862  25.2906 15.50000000    12'') = Some r" ..
  from derived_numbers[OF r] r show ?thesis by blast
qed

end
